theory Spec2Isabelle
  imports Main "HOL-Library.Word" "HOL-Library.Monad_Syntax"
begin

unbundle bit_operations_syntax

section \<open>The ozwpan virtual host controller (drivers/staging/ozwpan/ozhcd.c)\<close>

text \<open>
  A shallow embedding of the endpoint and URB engine of \<^verbatim>\<open>ozhcd.c\<close>. C structures are
  records, C \<^verbatim>\<open>int\<close> fields are \<open>int\<close> (the truncation to 32 bits is written out where a
  wider value is stored into one), \<^verbatim>\<open>u8\<close> is \<open>8 word\<close>, a linked list is a list in queue
  order, and a pointer to an object that a function changes in place is the object passed
  in and returned. A memory access outside the object it addresses is the value \<open>None\<close>.
\<close>

type_synonym u8 = "8 word"
type_synonym u16 = "16 word"
type_synonym u32 = "32 word"

subsection \<open>Constants of the kernel headers\<close>

definition ENOENT :: int where "ENOENT = 2"
definition ENOMEM :: int where "ENOMEM = 12"
definition ENODEV :: int where "ENODEV = 19"
definition EINVAL :: int where "EINVAL = 22"
definition EPIPE :: int where "EPIPE = 32"

definition USB_ENDPOINT_XFERTYPE_MASK :: u8 where "USB_ENDPOINT_XFERTYPE_MASK = 0x03"
definition USB_ENDPOINT_XFER_ISOC :: u8 where "USB_ENDPOINT_XFER_ISOC = 1"
definition USB_ENDPOINT_XFER_BULK :: u8 where "USB_ENDPOINT_XFER_BULK = 2"
definition USB_ENDPOINT_XFER_INT :: u8 where "USB_ENDPOINT_XFER_INT = 3"
definition USB_ENDPOINT_NUMBER_MASK :: u8 where "USB_ENDPOINT_NUMBER_MASK = 0x0f"
definition USB_TYPE_MASK :: u8 where "USB_TYPE_MASK = 0x60"
definition USB_TYPE_STANDARD :: u8 where "USB_TYPE_STANDARD = 0x00"
definition USB_DIR_IN :: u8 where "USB_DIR_IN = 0x80"
definition USB_REQ_SET_ADDRESS :: u8 where "USB_REQ_SET_ADDRESS = 0x05"
definition USB_REQ_GET_DESCRIPTOR :: u8 where "USB_REQ_GET_DESCRIPTOR = 0x06"
definition USB_REQ_GET_CONFIGURATION :: u8 where "USB_REQ_GET_CONFIGURATION = 0x08"
definition USB_REQ_SET_CONFIGURATION :: u8 where "USB_REQ_SET_CONFIGURATION = 0x09"
definition USB_REQ_GET_INTERFACE :: u8 where "USB_REQ_GET_INTERFACE = 0x0A"
definition USB_REQ_SET_INTERFACE :: u8 where "USB_REQ_SET_INTERFACE = 0x0B"
definition HC_STATE_RUNNING :: int where "HC_STATE_RUNNING = 1"
definition NSEC_PER_MSEC :: int where "NSEC_PER_MSEC = 1000000"

subsection \<open>Constants of ozhcd.c\<close>

definition OZ_MAX_LINK_POOL_SIZE :: nat where "OZ_MAX_LINK_POOL_SIZE = 16"
definition EP0_TIMEOUT_COUNTER :: nat where "EP0_TIMEOUT_COUNTER = 13"
definition OZ_F_EP_BUFFERING :: u32 where "OZ_F_EP_BUFFERING = 0x1"
definition OZ_F_EP_HAVE_STREAM :: u32 where "OZ_F_EP_HAVE_STREAM = 0x2"
definition OZ_EP_BUFFER_SIZE_ISOC :: int where "OZ_EP_BUFFER_SIZE_ISOC = 1024 * 24"
definition OZ_NB_ENDPOINTS :: nat where "OZ_NB_ENDPOINTS = 16"
definition OZ_PORT_F_PRESENT :: u32 where "OZ_PORT_F_PRESENT = 0x1"
definition OZ_PORT_F_CHANGED :: u32 where "OZ_PORT_F_CHANGED = 0x2"
definition OZ_PORT_F_DYING :: u32 where "OZ_PORT_F_DYING = 0x4"
definition OZ_NB_PORTS :: nat where "OZ_NB_PORTS = 8"

subsection \<open>Data structures\<close>

text \<open>
  \<^verbatim>\<open>struct usb_ctrlrequest\<close>: the 16-bit fields hold the values that
  \<^verbatim>\<open>le16_to_cpu\<close> returns.
\<close>

record usb_ctrlrequest =
  bRequestType :: u8
  bRequest :: u8
  wValue :: u16
  wIndex :: u16
  wLength :: u16

record usb_iso_packet_descriptor =
  iso_offset :: nat
  iso_actual_length :: nat
  iso_status :: int

text \<open>
  \<^verbatim>\<open>struct urb\<close>, the fields the driver reads or writes. \<open>urb_id\<close> stands for the address
  of the URB (two URB pointers are equal when the ids are). The \<^verbatim>\<open>pipe\<close> word is kept
  decoded: \<open>pipe_device\<close> is \<^verbatim>\<open>usb_pipedevice\<close>, \<open>pipe_endpoint\<close> is
  \<^verbatim>\<open>usb_pipeendpoint\<close>, \<open>pipe_in\<close> is \<^verbatim>\<open>usb_pipein\<close> and \<open>pipe_isoc\<close> is
  \<^verbatim>\<open>usb_pipeisoc\<close>. \<open>transfer_buffer\<close> is the memory the pointer addresses, the empty
  list for a null pointer; the unsigned 32-bit lengths are naturals. \<open>hcpriv\<close> is the
  index of the port the pointer addresses.
\<close>

record urb =
  urb_id :: nat
  pipe_device :: u8
  pipe_endpoint :: u8
  pipe_in :: bool
  pipe_isoc :: bool
  transfer_buffer :: "u8 list"
  transfer_buffer_length :: nat
  actual_length :: nat
  number_of_packets :: int
  iso_frame_desc :: "usb_iso_packet_descriptor list"
  urb_start_frame :: int
  error_count :: int
  unlinked :: int
  hcpriv :: "nat option"
  setup_packet :: usb_ctrlrequest

record oz_urb_link =
  urbl_urb :: urb
  urbl_port :: "nat option"
  req_id :: u8
  urbl_ep_num :: u8
  submit_counter :: nat

text \<open>
  \<^verbatim>\<open>struct oz_endpoint\<close>. \<open>buffer\<close> is the memory that follows the structure, the empty
  list when \<^verbatim>\<open>ep->buffer\<close> is null (\<^verbatim>\<open>oz_ep_alloc\<close> sets the pointer exactly when
  the size is not zero). \<open>timestamp\<close> is the time in nanoseconds, the value
  \<^verbatim>\<open>timespec_to_ns\<close> gives.
\<close>

record oz_endpoint =
  urb_list :: "oz_urb_link list"
  timestamp :: int
  credit2 :: int
  credit :: int
  credit_ceiling :: int
  ep_num :: u8
  attrib :: u8
  buffer :: "u8 list"
  buffer_size :: int
  in_ix :: int
  out_ix :: int
  buffered_units :: int
  max_buffer_units :: u8
  ep_flags :: u32
  start_frame :: int

record oz_interface =
  ep_mask :: u32
  alt :: u8

text \<open>
  \<^verbatim>\<open>struct oz_port\<close>. \<open>hpd\<close> is the handle of the attached peer, \<open>None\<close> for a null
  pointer. The endpoint tables are indexed by the endpoint number, which the code keeps
  below \<open>OZ_NB_ENDPOINTS\<close>; an entry is \<open>None\<close> for a null pointer. The isochronous
  lists hold the endpoint numbers of their members, which are entries of the tables.
\<close>

record oz_port =
  port_flags :: u32
  port_status :: u32
  hpd :: "nat option"
  bus_addr :: u8
  next_req_id :: u8
  config_num :: u8
  num_iface :: int
  iface :: "oz_interface list"
  out_ep :: "nat \<Rightarrow> oz_endpoint option"
  in_ep :: "nat \<Rightarrow> oz_endpoint option"
  isoc_out_ep :: "nat list"
  isoc_in_ep :: "nat list"

text \<open>
  \<^verbatim>\<open>struct usb_hcd\<close> of the bus core: its state, and the URBs handed back through
  \<^verbatim>\<open>usb_hcd_giveback_urb\<close> with their status, oldest first. The bus core's own list of
  the URBs linked to an endpoint is not part of the model.
\<close>

record usb_hcd =
  hc_state :: int
  giveback :: "(urb \<times> int) list"

text \<open>
  \<^verbatim>\<open>struct oz_hcd\<close>, with the file's global variables beside it: the pool of free
  links, and what the next calls of \<^verbatim>\<open>kmalloc\<close> for a link return (the head first,
  \<open>None\<close> for a failed allocation, also when the list is used up).
\<close>

record oz_hcd =
  urb_pending_list :: "oz_urb_link list"
  urb_cancel_list :: "oz_urb_link list"
  orphanage :: "oz_urb_link list"
  conn_port :: int
  ports :: "oz_port list"
  hcd_flags :: u32
  hcd :: usb_hcd
  g_link_pool :: "oz_urb_link list"
  kmalloc_links :: "oz_urb_link option list"

subsection \<open>Conversions between integer types\<close>

text \<open>
  The value an \<^verbatim>\<open>int\<close> holds after a wider value is stored into it, and the values a
  signed quantity has as \<^verbatim>\<open>u64\<close> and as \<^verbatim>\<open>u32\<close>.
\<close>

definition s32 :: "int \<Rightarrow> int" where
  "s32 x = (x + 2 ^ 31) mod 2 ^ 32 - 2 ^ 31"

definition u64 :: "int \<Rightarrow> int" where
  "u64 x = x mod 2 ^ 64"

definition u32v :: "int \<Rightarrow> int" where
  "u32v x = x mod 2 ^ 32"

subsection \<open>Memory access\<close>

text \<open>
  Reading and writing a byte array at a C index, and \<^verbatim>\<open>memcpy\<close> as a read of
  \<open>n\<close> bytes followed by a write. An access that leaves the array is \<open>None\<close>; so is a
  negative count, which \<^verbatim>\<open>memcpy\<close> takes as a huge unsigned one.
\<close>

definition load8 :: "u8 list \<Rightarrow> int \<Rightarrow> u8 option" where
  "load8 b i = (if 0 \<le> i \<and> i < int (length b) then Some (b ! nat i) else None)"

definition store8 :: "u8 list \<Rightarrow> int \<Rightarrow> u8 \<Rightarrow> u8 list option" where
  "store8 b i v = (if 0 \<le> i \<and> i < int (length b) then Some (b[nat i := v]) else None)"

definition mem_read :: "u8 list \<Rightarrow> int \<Rightarrow> int \<Rightarrow> u8 list option" where
  "mem_read src off n =
     (if 0 \<le> off \<and> 0 \<le> n \<and> off + n \<le> int (length src)
      then Some (take (nat n) (drop (nat off) src)) else None)"

definition mem_write :: "u8 list \<Rightarrow> int \<Rightarrow> u8 list \<Rightarrow> u8 list option" where
  "mem_write dst off xs =
     (if 0 \<le> off \<and> off + int (length xs) \<le> int (length dst)
      then Some (take (nat off) dst @ xs @ drop (nat off + length xs) dst) else None)"

definition memcpy :: "u8 list \<Rightarrow> int \<Rightarrow> u8 list \<Rightarrow> int \<Rightarrow> int \<Rightarrow> u8 list option" where
  "memcpy dst doff src soff n = do { xs \<leftarrow> mem_read src soff n; mem_write dst doff xs }"

subsection \<open>Endpoint allocation\<close>

text \<open>\<^verbatim>\<open>oz_ep_alloc\<close> when \<^verbatim>\<open>kzalloc\<close> succeeds: every field zero, the credit -1.\<close>

definition oz_ep_alloc :: "int \<Rightarrow> oz_endpoint" where
  "oz_ep_alloc bsize =
     \<lparr> urb_list = [], timestamp = 0, credit2 = 0, credit = -1, credit_ceiling = 0,
       ep_num = 0, attrib = 0,
       buffer = (if bsize \<noteq> 0 then replicate (nat bsize) 0 else []),
       buffer_size = (if bsize \<noteq> 0 then bsize else 0),
       in_ix = 0, out_ix = 0, buffered_units = 0, max_buffer_units = 0,
       ep_flags = 0, start_frame = 0 \<rparr>"

subsection \<open>The ring buffer: writing a unit\<close>

text \<open>
  \<^verbatim>\<open>oz_hcd_buffer_data(ep, data, data_len)\<close>. \<open>data\<close> is the memory the pointer addresses
  and \<open>data_len\<close> the count passed with it. The result is the return value and the
  endpoint. The sum \<^verbatim>\<open>data_len + 1\<close> of the space test is an \<^verbatim>\<open>int\<close>: it wraps when
  \<open>data_len\<close> is the largest \<^verbatim>\<open>int\<close>.
\<close>

definition oz_hcd_buffer_data ::
  "oz_endpoint \<Rightarrow> u8 list \<Rightarrow> int \<Rightarrow> (int \<times> oz_endpoint) option" where
  "oz_hcd_buffer_data ep data data_len =
     (if buffer ep = [] then Some (-1, ep)
      else
        let space0 = out_ix ep - in_ix ep - 1;
            space = (if space0 < 0 then space0 + buffer_size ep else space0)
        in if space < s32 (data_len + 1) then Some (-1, ep)
           else do {
             b1 \<leftarrow> store8 (buffer ep) (in_ix ep) (word_of_int data_len);
             let ix1 = (if in_ix ep + 1 = buffer_size ep then 0 else in_ix ep + 1);
             let copy_len0 = buffer_size ep - ix1;
             let copy_len = (if copy_len0 > data_len then data_len else copy_len0);
             b2 \<leftarrow> memcpy b1 ix1 data 0 copy_len;
             (b3, ix2) \<leftarrow>
               (if copy_len < data_len
                then do {
                  b \<leftarrow> memcpy b2 0 data copy_len (data_len - copy_len);
                  Some (b, data_len - copy_len) }
                else Some (b2, ix1 + copy_len));
             let ix3 = (if ix2 = buffer_size ep then 0 else ix2);
             Some (0, ep\<lparr>buffer := b3, in_ix := ix3,
                          buffered_units := buffered_units ep + 1\<rparr>)
           })"


subsection \<open>The pool of links\<close>

text \<open>
  \<^verbatim>\<open>oz_alloc_urb_link\<close> takes the head of the pool, or asks \<^verbatim>\<open>kmalloc\<close> when the pool
  is empty; the link it returns holds whatever the memory held. \<^verbatim>\<open>oz_free_urb_link\<close>
  puts a link back while the pool has fewer than \<open>OZ_MAX_LINK_POOL_SIZE\<close> entries, and
  frees it otherwise. \<^verbatim>\<open>g_link_pool_size\<close> is the length of the pool.
\<close>

definition oz_alloc_urb_link :: "oz_hcd \<Rightarrow> oz_urb_link option \<times> oz_hcd" where
  "oz_alloc_urb_link h =
     (case g_link_pool h of
        urbl # rest \<Rightarrow> (Some urbl, h\<lparr>g_link_pool := rest\<rparr>)
      | [] \<Rightarrow>
          (case kmalloc_links h of
             [] \<Rightarrow> (None, h)
           | r # rs \<Rightarrow> (r, h\<lparr>kmalloc_links := rs\<rparr>)))"

definition oz_free_urb_link :: "oz_hcd \<Rightarrow> oz_urb_link option \<Rightarrow> oz_hcd" where
  "oz_free_urb_link h urbl =
     (case urbl of
        None \<Rightarrow> h
      | Some l \<Rightarrow>
          if length (g_link_pool h) < OZ_MAX_LINK_POOL_SIZE
          then h\<lparr>g_link_pool := l # g_link_pool h\<rparr> else h)"

subsection \<open>Completion\<close>

text \<open>
  The list walks of the file that unlink the first entry for a URB: the entry found, if
  any, and the list without it.
\<close>

fun list_take_first :: "('a \<Rightarrow> bool) \<Rightarrow> 'a list \<Rightarrow> 'a option \<times> 'a list" where
  "list_take_first P [] = (None, [])"
| "list_take_first P (x # xs) =
     (if P x then (Some x, xs)
      else (case list_take_first P xs of (r, ys) \<Rightarrow> (r, x # ys)))"

definition oz_uncancel_urb :: "oz_hcd \<Rightarrow> urb \<Rightarrow> oz_urb_link option \<times> oz_hcd" where
  "oz_uncancel_urb h u =
     (case list_take_first (\<lambda>urbl. urb_id u = urb_id (urbl_urb urbl)) (urb_cancel_list h) of
        (r, rest) \<Rightarrow> (r, h\<lparr>urb_cancel_list := rest\<rparr>))"

text \<open>
  \<^verbatim>\<open>oz_complete_urb(hcd, urb, status)\<close>: the URB is handed to
  \<^verbatim>\<open>usb_hcd_giveback_urb\<close> with the status. The descriptor array of an isochronous
  URB has \<^verbatim>\<open>number_of_packets\<close> entries. \<^verbatim>\<open>oz_forget_urb\<close> is 0, as it is unless
  the URB debugging list of \<^verbatim>\<open>ozurbparanoia.h\<close> is compiled in.
\<close>

definition oz_complete_urb :: "oz_hcd \<Rightarrow> urb \<Rightarrow> int \<Rightarrow> oz_hcd" where
  "oz_complete_urb h u status =
     (let u1 =
            (if pipe_isoc u then
               (if status < 0 then
                  u\<lparr>transfer_buffer_length := 0,
                    iso_frame_desc :=
                      map (\<lambda>d. d\<lparr>iso_actual_length := 0, iso_status := status\<rparr>)
                          (take (nat (number_of_packets u)) (iso_frame_desc u))
                      @ drop (nat (number_of_packets u)) (iso_frame_desc u)\<rparr>
                else u\<lparr>transfer_buffer_length := actual_length u\<rparr>)
             else u);
          u2 = u1\<lparr>hcpriv := None\<rparr>;
          (cancel_urbl, h1) = oz_uncancel_urb h u2;
          h2 = h1\<lparr>hcd := (hcd h1)\<lparr>giveback := giveback (hcd h1) @ [(u2, status)]\<rparr>\<rparr>
      in oz_free_urb_link h2 cancel_urbl)"

subsection \<open>The ring buffer: reading a unit into a URB\<close>

text \<open>
  \<^verbatim>\<open>oz_complete_buffered_urb(port, ep, urb)\<close>, first the statements before the call of
  \<^verbatim>\<open>oz_complete_urb\<close>: the endpoint and the URB after them.
\<close>

definition oz_buffered_unit_to_urb :: "oz_endpoint \<Rightarrow> urb \<Rightarrow> (oz_endpoint \<times> urb) option" where
  "oz_buffered_unit_to_urb ep u =
     do {
       d \<leftarrow> load8 (buffer ep) (out_ix ep);
       let data_len = uint d;
       let available_space =
             (if data_len \<le> int (transfer_buffer_length u) then data_len
              else int (transfer_buffer_length u));
       let ox1 = (if out_ix ep + 1 = buffer_size ep then 0 else out_ix ep + 1);
       let copy_len0 = buffer_size ep - ox1;
       let copy_len = (if copy_len0 \<ge> available_space then available_space else copy_len0);
       tb1 \<leftarrow> memcpy (transfer_buffer u) 0 (buffer ep) ox1 copy_len;
       (tb2, ox2) \<leftarrow>
         (if copy_len < available_space
          then do {
            tb \<leftarrow> memcpy tb1 copy_len (buffer ep) 0 (available_space - copy_len);
            Some (tb, available_space - copy_len) }
          else Some (tb1, ox1 + copy_len));
       let ox3 = (if ox2 = buffer_size ep then 0 else ox2);
       Some (ep\<lparr>out_ix := ox3, buffered_units := buffered_units ep - 1\<rparr>,
             u\<lparr>transfer_buffer := tb2, actual_length := nat available_space\<rparr>)
     }"

definition oz_complete_buffered_urb ::
  "oz_hcd \<Rightarrow> oz_endpoint \<Rightarrow> urb \<Rightarrow> (oz_hcd \<times> oz_endpoint) option" where
  "oz_complete_buffered_urb h ep u =
     do {
       (ep', u') \<leftarrow> oz_buffered_unit_to_urb ep u;
       Some (oz_complete_urb h u' 0, ep')
     }"


subsection \<open>The heartbeat: OUT isochronous endpoints\<close>

text \<open>
  The \<^verbatim>\<open>while\<close> loop of \<^verbatim>\<open>oz_hcd_heartbeat\<close> over the queue of one OUT isochronous
  endpoint: the credit left, the queue left, and the links moved to \<^verbatim>\<open>xfr_list\<close>, in
  the order they were moved.
\<close>

fun oz_isoc_out_release ::
  "int \<Rightarrow> oz_urb_link list \<Rightarrow> int \<times> oz_urb_link list \<times> oz_urb_link list" where
  "oz_isoc_out_release cr [] = (cr, [], [])"
| "oz_isoc_out_release cr (urbl # rest) =
     (if cr = 0 then (cr, urbl # rest, [])
      else if s32 (cr + 1) < number_of_packets (urbl_urb urbl) then (cr, urbl # rest, [])
      else
        let cr1 = s32 (cr - number_of_packets (urbl_urb urbl));
            cr2 = (if cr1 < 0 then 0 else cr1)
        in (case oz_isoc_out_release cr2 rest of
              (c, q, xfr) \<Rightarrow> (c, q, urbl # xfr)))"

text \<open>
  The milliseconds that \<^verbatim>\<open>div64_u64(timespec_to_ns(&delta) + extra, NSEC_PER_MSEC)\<close>
  gives at time \<open>ts\<close> for an endpoint, and the credit after \<^verbatim>\<open>ep->credit += \<close> that
  unsigned 64-bit count.
\<close>

definition elapsed_ms :: "int \<Rightarrow> int \<Rightarrow> oz_endpoint \<Rightarrow> int" where
  "elapsed_ms ts extra ep = u64 (ts - timestamp ep + extra) div NSEC_PER_MSEC"

definition credit_add :: "int \<Rightarrow> int \<Rightarrow> int" where
  "credit_add cr ms = s32 (u64 (u64 cr + ms))"

text \<open>
  The body of the loop over \<^verbatim>\<open>port->isoc_out_ep\<close> for one endpoint, at time \<open>ts\<close>: the
  endpoint after it and the links moved to \<^verbatim>\<open>xfr_list\<close>.
\<close>

definition oz_hcd_heartbeat_isoc_out :: "int \<Rightarrow> oz_endpoint \<Rightarrow> oz_endpoint \<times> oz_urb_link list" where
  "oz_hcd_heartbeat_isoc_out ts ep =
     (if credit ep < 0 then (ep, [])
      else
        let cr0 = credit_add (credit ep) (elapsed_ms ts 0 ep);
            cr1 = (if cr0 > credit_ceiling ep then credit_ceiling ep else cr0)
        in (case oz_isoc_out_release cr1 (urb_list ep) of
              (c, q, xfr) \<Rightarrow> (ep\<lparr>credit := c, timestamp := ts, urb_list := q\<rparr>, xfr)))"

text \<open>
  \<^verbatim>\<open>oz_remove_urb(ep, urb)\<close> for a non-null endpoint: the link found, if any, and the
  endpoint.
\<close>

definition oz_remove_urb :: "oz_endpoint \<Rightarrow> urb \<Rightarrow> oz_urb_link option \<times> oz_endpoint" where
  "oz_remove_urb ep u =
     (case list_take_first (\<lambda>urbl. urb_id (urbl_urb urbl) = urb_id u) (urb_list ep) of
        (None, q) \<Rightarrow> (None, ep)
      | (Some urbl, q) \<Rightarrow>
          (Some urbl,
           if pipe_isoc u then
             let cr = s32 (credit ep - number_of_packets u)
             in ep\<lparr>urb_list := q, credit := (if cr < 0 then 0 else cr)\<rparr>
           else ep\<lparr>urb_list := q\<rparr>))"

text \<open>
  The end of \<^verbatim>\<open>oz_enqueue_ep_urb\<close>, where the link joins the queue of the endpoint at
  time \<open>now\<close>.
\<close>

definition oz_ep_queue_link :: "int \<Rightarrow> bool \<Rightarrow> u8 \<Rightarrow> oz_urb_link \<Rightarrow> oz_endpoint \<Rightarrow> oz_endpoint" where
  "oz_ep_queue_link now in_dir ep_addr urbl ep =
     (let ep1 = ep\<lparr>urb_list := urb_list ep @ [urbl]\<rparr>
      in if \<not> in_dir \<and> ep_addr \<noteq> 0 \<and> credit ep1 < 0
         then ep1\<lparr>timestamp := now, credit := 0\<rparr> else ep1)"


subsection \<open>The heartbeat: IN isochronous endpoints\<close>

text \<open>
  One step of a read cursor past a unit of \<open>len\<close> bytes, as the heartbeat and the discard
  loop of \<^verbatim>\<open>oz_hcd_data_ind\<close> compute it: the cursor after the length byte, the bytes
  to copy before the end of the buffer, and the cursor after the unit.
\<close>

definition ring_after_length :: "oz_endpoint \<Rightarrow> int" where
  "ring_after_length ep = (if out_ix ep + 1 = buffer_size ep then 0 else out_ix ep + 1)"

definition ring_first_copy :: "oz_endpoint \<Rightarrow> int \<Rightarrow> int" where
  "ring_first_copy ep len =
     (let copy_len = buffer_size ep - ring_after_length ep
      in if copy_len > len then len else copy_len)"

definition ring_after_unit :: "oz_endpoint \<Rightarrow> int \<Rightarrow> int" where
  "ring_after_unit ep len =
     (let copy_len = ring_first_copy ep len;
          ox = (if copy_len < len then len - copy_len else ring_after_length ep + copy_len)
      in if ox = buffer_size ep then 0 else ox)"

text \<open>
  The \<^verbatim>\<open>for\<close> loop over the packets of one URB: \<open>k\<close> packets are left and \<open>i\<close> is the
  index of the next. Every packet is copied to the start of the transfer buffer. The
  descriptor array has \<^verbatim>\<open>number_of_packets\<close> entries.
\<close>

fun oz_isoc_in_packets :: "nat \<Rightarrow> nat \<Rightarrow> oz_endpoint \<Rightarrow> urb \<Rightarrow> (oz_endpoint \<times> urb) option" where
  "oz_isoc_in_packets 0 i ep u = Some (ep, u)"
| "oz_isoc_in_packets (Suc k) i ep u =
     (case load8 (buffer ep) (out_ix ep) of
        None \<Rightarrow> None
      | Some d \<Rightarrow>
          let len = uint d;
              copy_len = ring_first_copy ep len
          in (case memcpy (transfer_buffer u) 0 (buffer ep) (ring_after_length ep) copy_len of
                None \<Rightarrow> None
              | Some tb1 \<Rightarrow>
                  (case (if copy_len < len
                         then memcpy tb1 copy_len (buffer ep) 0 (len - copy_len)
                         else Some tb1) of
                     None \<Rightarrow> None
                   | Some tb2 \<Rightarrow>
                       oz_isoc_in_packets k (Suc i)
                         (ep\<lparr>out_ix := ring_after_unit ep len\<rparr>)
                         (u\<lparr>transfer_buffer := tb2,
                            iso_frame_desc := (iso_frame_desc u)
                              [i := \<lparr>iso_offset = actual_length u,
                                     iso_actual_length = nat len, iso_status = 0\<rparr>],
                            actual_length := (actual_length u + nat len) mod 2 ^ 32\<rparr>))))"

text \<open>
  The \<^verbatim>\<open>while\<close> loop over the queue of one IN isochronous endpoint: the endpoint, the
  queue left and the links moved to \<^verbatim>\<open>xfr_list\<close>.
\<close>

fun oz_isoc_in_drain ::
  "oz_urb_link list \<Rightarrow> oz_endpoint \<Rightarrow> (oz_endpoint \<times> oz_urb_link list \<times> oz_urb_link list) option" where
  "oz_isoc_in_drain [] ep = Some (ep, [], [])"
| "oz_isoc_in_drain (urbl # rest) ep =
     (let u = urbl_urb urbl; n = number_of_packets u
      in if buffered_units ep < n then Some (ep, urbl # rest, [])
         else
           (case oz_isoc_in_packets (nat n) 0 ep (u\<lparr>actual_length := 0\<rparr>) of
              None \<Rightarrow> None
            | Some (ep1, u1) \<Rightarrow>
                let u2 = u1\<lparr>error_count := 0, urb_start_frame := start_frame ep1\<rparr>;
                    ep2 = ep1\<lparr>buffered_units := s32 (buffered_units ep1 - n),
                              start_frame := s32 (start_frame ep1 + n),
                              credit := s32 (credit ep1 - n),
                              credit2 := s32 (credit2 ep1 + n)\<rparr>
                in (case oz_isoc_in_drain rest ep2 of
                      None \<Rightarrow> None
                    | Some (ep3, q, xfr) \<Rightarrow> Some (ep3, q, urbl\<lparr>urbl_urb := u2\<rparr> # xfr))))"

text \<open>
  The body of the loop over \<^verbatim>\<open>port->isoc_in_ep\<close> for one endpoint, at time \<open>ts\<close>.
\<close>

definition oz_hcd_heartbeat_isoc_in ::
  "int \<Rightarrow> oz_endpoint \<Rightarrow> (oz_endpoint \<times> oz_urb_link list) option" where
  "oz_hcd_heartbeat_isoc_in ts ep =
     (if ep_flags ep AND OZ_F_EP_BUFFERING \<noteq> 0 then
        (if buffered_units ep \<ge> uint (max_buffer_units ep)
         then Some (ep\<lparr>ep_flags := ep_flags ep AND NOT OZ_F_EP_BUFFERING,
                        credit := 0, credit2 := 0, timestamp := ts, start_frame := 0\<rparr>, [])
         else Some (ep, []))
      else
        let ep1 = ep\<lparr>credit := credit_add (credit ep) (elapsed_ms ts 5000 ep),
                      timestamp := ts\<rparr>
        in (case oz_isoc_in_drain (urb_list ep1) ep1 of
              None \<Rightarrow> None
            | Some (ep2, q, xfr) \<Rightarrow>
                let ep3 = ep2\<lparr>urb_list := q\<rparr>
                in if buffered_units ep3 = 0
                   then Some (ep3\<lparr>ep_flags := ep_flags ep3 OR OZ_F_EP_BUFFERING\<rparr>, xfr)
                   else if credit2 ep3 \<ge> 1000 then Some (ep3\<lparr>credit2 := 0\<rparr>, xfr)
                   else Some (ep3, xfr)))"

subsection \<open>Data from the peer\<close>

text \<open>
  The discard loop of \<^verbatim>\<open>oz_hcd_data_ind\<close>: units are dropped from the read side while
  more than \<^verbatim>\<open>max_buffer_units\<close> are buffered.
\<close>

function oz_discard_units :: "oz_endpoint \<Rightarrow> oz_endpoint option" where
  "oz_discard_units ep =
     (if buffered_units ep > uint (max_buffer_units ep) then
        (case load8 (buffer ep) (out_ix ep) of
           None \<Rightarrow> None
         | Some d \<Rightarrow>
             oz_discard_units
               (ep\<lparr>out_ix := ring_after_unit ep (uint d),
                    buffered_units := buffered_units ep - 1\<rparr>))
      else Some ep)"
  by pat_completeness auto
termination
  by (relation "measure (\<lambda>ep. nat (buffered_units ep - uint (max_buffer_units ep)))") auto

declare oz_discard_units.simps [simp del]

text \<open>
  \<^verbatim>\<open>oz_hcd_data_ind\<close> for the endpoint it found, by transfer type: the controller and
  the endpoint after it. The comparison of \<^verbatim>\<open>data_len\<close> with the unsigned
  \<^verbatim>\<open>transfer_buffer_length\<close> is unsigned.
\<close>

definition oz_hcd_data_ind_ep ::
  "oz_hcd \<Rightarrow> oz_endpoint \<Rightarrow> u8 list \<Rightarrow> int \<Rightarrow> (oz_hcd \<times> oz_endpoint) option" where
  "oz_hcd_data_ind_ep h ep data data_len =
     (let ty = attrib ep AND USB_ENDPOINT_XFERTYPE_MASK
      in if ty = USB_ENDPOINT_XFER_INT \<or> ty = USB_ENDPOINT_XFER_BULK then
           (case urb_list ep of
              urbl # rest \<Rightarrow>
                let u = urbl_urb urbl;
                    h1 = oz_free_urb_link h (Some urbl);
                    copy_len = (if u32v data_len \<le> int (transfer_buffer_length u) then data_len
                                else s32 (int (transfer_buffer_length u)))
                in (case memcpy (transfer_buffer u) 0 data 0 copy_len of
                      None \<Rightarrow> None
                    | Some tb \<Rightarrow>
                        Some (oz_complete_urb h1
                                (u\<lparr>transfer_buffer := tb, actual_length := nat copy_len\<rparr>) 0,
                              ep\<lparr>urb_list := rest\<rparr>))
            | [] \<Rightarrow>
                (case oz_hcd_buffer_data ep data data_len of
                   None \<Rightarrow> None
                 | Some (rc, ep') \<Rightarrow> Some (h, ep')))
         else if ty = USB_ENDPOINT_XFER_ISOC then
           (case oz_hcd_buffer_data ep data data_len of
              None \<Rightarrow> None
            | Some (rc, ep') \<Rightarrow>
                if rc \<noteq> 0 then
                  (case oz_discard_units ep' of
                     None \<Rightarrow> None
                   | Some ep'' \<Rightarrow>
                       Some (h, ep''\<lparr>ep_flags := ep_flags ep'' OR OZ_F_EP_BUFFERING\<rparr>))
                else Some (h, ep'))
         else Some (h, ep))"


subsection \<open>Ports\<close>

text \<open>
  The port at an index of the array \<^verbatim>\<open>ozhcd->ports\<close>, \<open>None\<close> outside the array, and
  the array with one port replaced.
\<close>

definition port_at :: "oz_hcd \<Rightarrow> int \<Rightarrow> oz_port option" where
  "port_at h i = (if 0 \<le> i \<and> i < int (length (ports h)) then Some (ports h ! nat i) else None)"

definition set_port :: "oz_hcd \<Rightarrow> int \<Rightarrow> oz_port \<Rightarrow> oz_hcd" where
  "set_port h i p = h\<lparr>ports := (ports h)[nat i := p]\<rparr>"

fun port_scan :: "u8 \<Rightarrow> oz_port list \<Rightarrow> nat \<Rightarrow> int" where
  "port_scan a [] i = -1"
| "port_scan a (p # ps) i = (if bus_addr p = a then int i else port_scan a ps (Suc i))"

definition oz_get_port_from_addr :: "oz_hcd \<Rightarrow> u8 \<Rightarrow> int" where
  "oz_get_port_from_addr h a = (if a \<noteq> 0 then port_scan a (ports h) 0 else conn_port h)"

subsection \<open>URB submission\<close>

text \<open>
  \<^verbatim>\<open>oz_hcd_urb_enqueue(hcd, urb, mem_flags)\<close>: the return value and the controller.
  \<open>link_rc\<close> is what \<^verbatim>\<open>usb_hcd_link_urb_to_ep\<close> of the bus core returns.
\<close>

definition oz_hcd_urb_enqueue :: "oz_hcd \<Rightarrow> urb \<Rightarrow> int \<Rightarrow> (int \<times> oz_hcd) option" where
  "oz_hcd_urb_enqueue h u link_rc =
     (if hc_state (hcd h) \<noteq> HC_STATE_RUNNING then Some (- ENODEV, h)
      else
        let port_ix = oz_get_port_from_addr h (pipe_device u)
        in if port_ix < 0 then Some (- ENODEV, h)
           else
             (case port_at h port_ix of
                None \<Rightarrow> None
              | Some port \<Rightarrow>
                  if port_flags port AND OZ_PORT_F_PRESENT = 0 then Some (- ENODEV, h)
                  else
                    let u1 = u\<lparr>hcpriv := Some (nat port_ix)\<rparr>
                    in (case oz_alloc_urb_link h of
                          (None, h1) \<Rightarrow> Some (- ENOMEM, h1)
                        | (Some l, h1) \<Rightarrow>
                            let urbl = l\<lparr>urbl_urb := u1\<rparr>
                            in if link_rc \<noteq> 0
                               then Some (link_rc, oz_free_urb_link h1 (Some urbl))
                               else Some (0, h1\<lparr>urb_pending_list :=
                                                    urb_pending_list h1 @ [urbl]\<rparr>))))"

subsection \<open>Endpoint enqueue\<close>

text \<open>
  \<^verbatim>\<open>oz_enqueue_ep_urb(port, ep_addr, in_dir, urb, req_id)\<close> for the port with index
  \<open>pi\<close>, at time \<open>now\<close>: the return value and the controller.
\<close>

definition oz_enqueue_ep_urb ::
  "oz_hcd \<Rightarrow> nat \<Rightarrow> u8 \<Rightarrow> bool \<Rightarrow> urb \<Rightarrow> u8 \<Rightarrow> int \<Rightarrow> (int \<times> oz_hcd) option" where
  "oz_enqueue_ep_urb h pi ep_addr in_dir u rid now =
     (if unat ep_addr \<ge> OZ_NB_ENDPOINTS then Some (- EINVAL, h)
      else
        (case oz_alloc_urb_link h of
           (None, h1) \<Rightarrow> Some (- ENOMEM, h1)
         | (Some l, h1) \<Rightarrow>
             let urbl = l\<lparr>submit_counter := 0, urbl_urb := u, req_id := rid,
                          urbl_ep_num := ep_addr\<rparr>
             in if unlinked u \<noteq> 0
                then Some (0, oz_free_urb_link (oz_complete_urb h1 u 0) (Some urbl))
                else
                  (case port_at h1 (int pi) of
                     None \<Rightarrow> None
                   | Some port \<Rightarrow>
                       (case (if in_dir then in_ep port (unat ep_addr)
                              else out_ep port (unat ep_addr)) of
                          None \<Rightarrow> Some (- EINVAL, oz_free_urb_link h1 (Some urbl))
                        | Some ep \<Rightarrow>
                            let put = (\<lambda>hh e.
                                  set_port hh (int pi)
                                    (if in_dir
                                     then port\<lparr>in_ep := (in_ep port)(unat ep_addr := Some e)\<rparr>
                                     else port\<lparr>out_ep := (out_ep port)(unat ep_addr := Some e)\<rparr>))
                            in if attrib ep AND USB_ENDPOINT_XFERTYPE_MASK = USB_ENDPOINT_XFER_INT
                                  \<and> buffered_units ep > 0
                               then
                                 (case oz_complete_buffered_urb
                                         (oz_free_urb_link h1 (Some urbl)) ep u of
                                    None \<Rightarrow> None
                                  | Some (h2, ep') \<Rightarrow> Some (0, put h2 ep'))
                               else if hpd port \<noteq> None
                               then Some (0, put h1 (oz_ep_queue_link now in_dir ep_addr urbl ep))
                               else Some (- EPIPE, oz_free_urb_link h1 (Some urbl))))))"


subsection \<open>Control requests\<close>

text \<open>
  \<^verbatim>\<open>oz_process_ep0_urb(ozhcd, urb, mem_flags)\<close> at time \<open>now\<close>: the controller after it.
  \<open>ctrl_rc\<close> is what \<^verbatim>\<open>oz_usb_control_req\<close> of the transport returns for the request
  when it is sent. The three results of the switch over the standard requests are the
  controller, the URB, the error code \<^verbatim>\<open>rc\<close> and the flag \<^verbatim>\<open>complete\<close>.
\<close>

definition oz_ep0_standard ::
  "oz_hcd \<Rightarrow> oz_port \<Rightarrow> urb \<Rightarrow> (oz_hcd \<times> urb \<times> int \<times> bool) option" where
  "oz_ep0_standard h port u =
     (let setup = setup_packet u
      in if bRequestType setup AND USB_TYPE_MASK \<noteq> USB_TYPE_STANDARD then Some (h, u, 0, False)
         else if bRequest setup = USB_REQ_SET_ADDRESS then
           (if conn_port h \<ge> 0 then
              (case port_at h (conn_port h) of
                 None \<Rightarrow> None
               | Some cp \<Rightarrow>
                   Some ((set_port h (conn_port h) (cp\<lparr>bus_addr := ucast (wValue setup)\<rparr>))
                           \<lparr>conn_port := -1\<rparr>, u, 0, True))
            else Some (h, u, 0, True))
         else if bRequest setup = USB_REQ_GET_CONFIGURATION then
           (if transfer_buffer_length u \<ge> 1 then
              (case store8 (transfer_buffer u) 0 (config_num port) of
                 None \<Rightarrow> None
               | Some tb \<Rightarrow> Some (h, u\<lparr>actual_length := 1, transfer_buffer := tb\<rparr>, 0, True))
            else Some (h, u, - EPIPE, False))
         else if bRequest setup = USB_REQ_GET_INTERFACE then
           (if transfer_buffer_length u \<ge> 1 then
              (let ix = unat (ucast (wIndex setup) :: u8)
               in if ix < length (iface port) then
                    (case store8 (transfer_buffer u) 0 (alt (iface port ! ix)) of
                       None \<Rightarrow> None
                     | Some tb \<Rightarrow>
                         Some (h, u\<lparr>actual_length := 1, transfer_buffer := tb\<rparr>, 0, True))
                  else None)
            else Some (h, u, - EPIPE, False))
         else Some (h, u, 0, False))"

definition oz_process_ep0_urb :: "oz_hcd \<Rightarrow> urb \<Rightarrow> int \<Rightarrow> int \<Rightarrow> oz_hcd option" where
  "oz_process_ep0_urb h u ctrl_rc now =
     (let port_ix = oz_get_port_from_addr h (pipe_device u)
      in if port_ix < 0 then Some (oz_complete_urb h u (- EPIPE))
         else
           (case port_at h port_ix of
              None \<Rightarrow> None
            | Some port \<Rightarrow>
                if port_flags port AND OZ_PORT_F_PRESENT = 0
                   \<or> port_flags port AND OZ_PORT_F_DYING \<noteq> 0
                then Some (oz_complete_urb h u (- EPIPE))
                else
                  let u1 = u\<lparr>hcpriv := Some (nat port_ix)\<rparr>;
                      rid = next_req_id port;
                      port1 = port\<lparr>next_req_id := next_req_id port + 1\<rparr>;
                      h1 = set_port h port_ix port1
                  in if hpd port1 = None then Some (oz_complete_urb h1 u1 (- EPIPE))
                     else
                       (case oz_ep0_standard h1 port1 u1 of
                          None \<Rightarrow> None
                        | Some (h2, u2, rc, complete) \<Rightarrow>
                            if rc = 0 \<and> \<not> complete then
                              (let setup = setup_packet u2;
                                   data_len = (if bRequestType setup AND USB_DIR_IN = 0
                                               then unat (wLength setup) else 0);
                                   u3 = u2\<lparr>actual_length := data_len\<rparr>
                               in if ctrl_rc \<noteq> 0 then Some (oz_complete_urb h2 u3 (- ENOMEM))
                                  else
                                    (case oz_enqueue_ep_urb h2 (nat port_ix) 0 False u3 rid now of
                                       None \<Rightarrow> None
                                     | Some (erc, h3) \<Rightarrow>
                                         if erc \<noteq> 0 then Some (oz_complete_urb h3 u3 (- ENOMEM))
                                         else Some h3))
                            else Some (oz_complete_urb h2 u2 rc))))"

subsection \<open>Deferred submission processing\<close>

text \<open>
  \<^verbatim>\<open>oz_urb_process(ozhcd, urb)\<close>: the return value and the controller. \<open>ctrl_rc\<close> and
  \<open>now\<close> are passed on. A URB whose \<^verbatim>\<open>hcpriv\<close> is null has no port to read.
\<close>

definition oz_urb_process :: "oz_hcd \<Rightarrow> urb \<Rightarrow> int \<Rightarrow> int \<Rightarrow> (int \<times> oz_hcd) option" where
  "oz_urb_process h u ctrl_rc now =
     (if transfer_buffer u = [] \<and> transfer_buffer_length u \<noteq> 0 then Some (- EINVAL, h)
      else
        (case hcpriv u of
           None \<Rightarrow> None
         | Some pi \<Rightarrow>
             (case port_at h (int pi) of
                None \<Rightarrow> None
              | Some port \<Rightarrow>
                  if port_flags port AND OZ_PORT_F_PRESENT = 0 then Some (- ENODEV, h)
                  else
                    let ep_addr = pipe_endpoint u
                    in if ep_addr \<noteq> 0 then
                         (case oz_enqueue_ep_urb h pi ep_addr (pipe_in u) u 0 now of
                            None \<Rightarrow> None
                          | Some (erc, h1) \<Rightarrow>
                              if erc \<noteq> 0 then Some (- ENOENT, h1) else Some (0, h1))
                       else
                         (case oz_process_ep0_urb h u ctrl_rc now of
                            None \<Rightarrow> None
                          | Some h1 \<Rightarrow> Some (0, h1)))))"

text \<open>
  \<^verbatim>\<open>oz_urb_process_tasklet\<close>: the loop takes the head of the pending list, frees its
  link, processes the URB and completes it when the result is not zero. \<open>pending\<close> is
  the pending list when the iteration starts; nothing in the body adds to it. \<open>ctrl_rc\<close>
  gives the result of \<^verbatim>\<open>oz_usb_control_req\<close> for the URB with a given id.
\<close>

fun oz_urb_process_pending ::
  "oz_urb_link list \<Rightarrow> oz_hcd \<Rightarrow> (nat \<Rightarrow> int) \<Rightarrow> int \<Rightarrow> oz_hcd option" where
  "oz_urb_process_pending [] h ctrl_rc now = Some h"
| "oz_urb_process_pending (urbl # rest) h ctrl_rc now =
     (let h1 = h\<lparr>urb_pending_list := rest\<rparr>;
          u = urbl_urb urbl;
          h2 = oz_free_urb_link h1 (Some urbl)
      in (case oz_urb_process h2 u (ctrl_rc (urb_id u)) now of
            None \<Rightarrow> None
          | Some (rc, h3) \<Rightarrow>
              oz_urb_process_pending rest
                (if rc \<noteq> 0 then oz_complete_urb h3 u rc else h3) ctrl_rc now))"

definition oz_urb_process_tasklet :: "oz_hcd \<Rightarrow> (nat \<Rightarrow> int) \<Rightarrow> int \<Rightarrow> oz_hcd option" where
  "oz_urb_process_tasklet h ctrl_rc now = oz_urb_process_pending (urb_pending_list h) h ctrl_rc now"


subsection \<open>Sequences of events on an OUT isochronous endpoint\<close>

text \<open>
  What happens to an OUT isochronous endpoint between its creation and its end: a
  heartbeat at a time \<open>ts\<close>, a link joining its queue at a time \<open>now\<close> (the end of
  \<^verbatim>\<open>oz_enqueue_ep_urb\<close>), and the removal of a URB by \<^verbatim>\<open>oz_remove_urb\<close>.
\<close>

datatype out_event = Heartbeat int | Queue oz_urb_link int | Cancel urb

fun out_step :: "oz_endpoint \<Rightarrow> out_event \<Rightarrow> oz_endpoint" where
  "out_step ep (Heartbeat ts) = fst (oz_hcd_heartbeat_isoc_out ts ep)"
| "out_step ep (Queue urbl now) = oz_ep_queue_link now False (urbl_ep_num urbl) urbl ep"
| "out_step ep (Cancel u) = snd (oz_remove_urb ep u)"

fun out_run :: "oz_endpoint \<Rightarrow> out_event list \<Rightarrow> oz_endpoint" where
  "out_run ep [] = ep"
| "out_run ep (e # es) = out_run (out_step ep e) es"

text \<open>
  At every heartbeat of the sequence, the credit and the milliseconds elapsed since the
  timestamp of the endpoint add up to less than \<open>2 ^ 31\<close>, so that the sum fits the
  \<^verbatim>\<open>int\<close> it is stored into.
\<close>

fun ticks_fit :: "oz_endpoint \<Rightarrow> out_event list \<Rightarrow> bool" where
  "ticks_fit ep [] = True"
| "ticks_fit ep (Heartbeat ts # es) =
     (credit ep + elapsed_ms ts 0 ep < 2 ^ 31 \<and> ticks_fit (out_step ep (Heartbeat ts)) es)"
| "ticks_fit ep (e # es) = ticks_fit (out_step ep e) es"

text \<open>The packets of a list of links.\<close>

definition packets :: "oz_urb_link list \<Rightarrow> int" where
  "packets xs = sum_list (map (\<lambda>urbl. number_of_packets (urbl_urb urbl)) xs)"


subsection \<open>Notions used to state the properties\<close>

text \<open>
  \<open>ring_seg b off m\<close> is the \<open>m\<close> bytes of the ring \<open>b\<close> from position \<open>off\<close> on,
  wrapping at the end; \<open>ring_put b off xs\<close> is the ring with \<open>xs\<close> stored from
  position \<open>off\<close> on, wrapping at the end.
\<close>

definition ring_seg :: "'a list \<Rightarrow> nat \<Rightarrow> nat \<Rightarrow> 'a list" where
  "ring_seg b off m = map (\<lambda>k. b ! ((off + k) mod length b)) [0..<m]"

definition ring_put :: "'a list \<Rightarrow> nat \<Rightarrow> 'a list \<Rightarrow> 'a list" where
  "ring_put b off xs =
     map (\<lambda>p. if (p + length b - off) mod length b < length xs
              then xs ! ((p + length b - off) mod length b) else b ! p) [0..<length b]"

text \<open>
  An endpoint with an allocated buffer: the pointer is set, the memory has
  \<^verbatim>\<open>buffer_size\<close> bytes and both cursors are inside it.
\<close>

definition ep_buffer_ok :: "oz_endpoint \<Rightarrow> bool" where
  "ep_buffer_ok ep \<longleftrightarrow>
     buffer ep \<noteq> [] \<and> int (length (buffer ep)) = buffer_size ep \<and>
     0 \<le> in_ix ep \<and> in_ix ep < buffer_size ep \<and>
     0 \<le> out_ix ep \<and> out_ix ep < buffer_size ep"

text \<open>The free space: the circular distance \<^verbatim>\<open>out_ix - in_ix - 1\<close>.\<close>

definition ring_space :: "oz_endpoint \<Rightarrow> int" where
  "ring_space ep = (out_ix ep - in_ix ep - 1) mod buffer_size ep"

text \<open>
  \<open>ring_holds ep xs\<close>: the bytes \<open>xs\<close> are what lies between the read cursor and the
  write cursor of a well-formed endpoint.
\<close>

definition ring_holds :: "oz_endpoint \<Rightarrow> u8 list \<Rightarrow> bool" where
  "ring_holds ep xs \<longleftrightarrow>
     ep_buffer_ok ep \<and> int (length xs) < buffer_size ep \<and>
     in_ix ep = (out_ix ep + int (length xs)) mod buffer_size ep \<and>
     ring_seg (buffer ep) (nat (out_ix ep)) (length xs) = xs"

text \<open>A unit as the ring stores it: the length byte, then the data.\<close>

definition stored_unit :: "u8 list \<Rightarrow> u8 list" where
  "stored_unit x = word_of_int (int (length x)) # x"

text \<open>
  Writing a sequence of units, every write succeeding (\<open>None\<close> when one of them
  returns -1); reading one unit into each URB of a sequence; and the round trip, whose
  result is what the URBs handed back hold: for each the first \<^verbatim>\<open>actual_length\<close>
  bytes of its transfer buffer.
\<close>

fun write_units :: "oz_endpoint \<Rightarrow> u8 list list \<Rightarrow> oz_endpoint option" where
  "write_units ep [] = Some ep"
| "write_units ep (x # xs) =
     (case oz_hcd_buffer_data ep x (int (length x)) of
        None \<Rightarrow> None
      | Some (rc, ep') \<Rightarrow> if rc = 0 then write_units ep' xs else None)"

fun read_units :: "oz_hcd \<Rightarrow> oz_endpoint \<Rightarrow> urb list \<Rightarrow> (oz_hcd \<times> oz_endpoint) option" where
  "read_units h ep [] = Some (h, ep)"
| "read_units h ep (u # us) =
     (case oz_complete_buffered_urb h ep u of
        None \<Rightarrow> None
      | Some (h', ep') \<Rightarrow> read_units h' ep' us)"

definition urb_data :: "urb \<times> int \<Rightarrow> u8 list" where
  "urb_data c = take (actual_length (fst c)) (transfer_buffer (fst c))"

definition round_trip ::
  "oz_hcd \<Rightarrow> oz_endpoint \<Rightarrow> u8 list list \<Rightarrow> urb list \<Rightarrow> u8 list list option" where
  "round_trip h ep xs us =
     (case write_units ep xs of
        None \<Rightarrow> None
      | Some ep1 \<Rightarrow>
          (case read_units h ep1 us of
             None \<Rightarrow> None
           | Some (h', ep2) \<Rightarrow>
               Some (map urb_data (drop (length (giveback (hcd h))) (giveback (hcd h'))))))"

text \<open>A URB that can receive \<open>n\<close> bytes: the buffer is there and has the length announced.\<close>

definition urb_room :: "urb \<Rightarrow> nat \<Rightarrow> bool" where
  "urb_room u n \<longleftrightarrow>
     n \<le> transfer_buffer_length u \<and> transfer_buffer_length u \<le> length (transfer_buffer u)"

subsection \<open>Values for the examples\<close>

text \<open>
  A URB with every field zero, a port as \<^verbatim>\<open>oz_plat_probe\<close> leaves it, and the
  controller after \<^verbatim>\<open>oz_plat_probe\<close> and \<^verbatim>\<open>oz_hcd_start\<close>.
\<close>

definition urb_zero :: urb where
  "urb_zero =
     \<lparr> urb_id = 0, pipe_device = 0, pipe_endpoint = 0, pipe_in = False, pipe_isoc = False,
       transfer_buffer = [], transfer_buffer_length = 0, actual_length = 0,
       number_of_packets = 0, iso_frame_desc = [], urb_start_frame = 0, error_count = 0,
       unlinked = 0, hcpriv = None,
       setup_packet = \<lparr> bRequestType = 0, bRequest = 0, wValue = 0, wIndex = 0, wLength = 0 \<rparr> \<rparr>"

definition port_probed :: oz_port where
  "port_probed =
     \<lparr> port_flags = 0, port_status = 0, hpd = None, bus_addr = 0xff, next_req_id = 0,
       config_num = 0, num_iface = 0, iface = [],
       out_ep = (\<lambda>i. None), in_ep = (\<lambda>i. None),
       isoc_out_ep = [], isoc_in_ep = [] \<rparr>"

definition hcd_started :: oz_hcd where
  "hcd_started =
     \<lparr> urb_pending_list = [], urb_cancel_list = [], orphanage = [], conn_port = -1,
       ports = replicate OZ_NB_PORTS port_probed, hcd_flags = 0,
       hcd = \<lparr> hc_state = HC_STATE_RUNNING, giveback = [] \<rparr>,
       g_link_pool = [], kmalloc_links = [] \<rparr>"

text \<open>
  A controller with two peers attached: port 1 has the bus address 5, port 2 is the
  connection port and has no address yet. And a SET_ADDRESS request for the address 9,
  sent to the device with the bus address \<open>dev\<close>.
\<close>

definition port_attached :: "nat \<Rightarrow> u8 \<Rightarrow> oz_port" where
  "port_attached peer a =
     port_probed\<lparr>port_flags := OZ_PORT_F_PRESENT OR OZ_PORT_F_CHANGED, hpd := Some peer,
                  bus_addr := a, out_ep := (\<lambda>i. if i = 0 then Some (oz_ep_alloc 0) else None)\<rparr>"

definition hcd_two_peers :: oz_hcd where
  "hcd_two_peers =
     hcd_started\<lparr>conn_port := 2,
                  ports := (ports hcd_started)[1 := port_attached 1 5, 2 := port_attached 2 0]\<rparr>"

definition urb_set_address :: "u8 \<Rightarrow> urb" where
  "urb_set_address dev =
     urb_zero\<lparr>urb_id := 7, pipe_device := dev,
               setup_packet := \<lparr> bRequestType = 0, bRequest = USB_REQ_SET_ADDRESS,
                                 wValue = 9, wIndex = 0, wLength = 0 \<rparr>\<rparr>"

text \<open>
  The IN endpoint with number \<open>n\<close> of the port with index \<open>pi\<close>. A link with every field
  zero, and the result 0 of \<^verbatim>\<open>oz_usb_control_req\<close> for every URB.
\<close>

definition ep_in :: "nat \<Rightarrow> nat \<Rightarrow> oz_hcd \<Rightarrow> oz_endpoint option" where
  "ep_in pi n h = (case port_at h (int pi) of None \<Rightarrow> None | Some p \<Rightarrow> in_ep p n)"

definition link_zero :: oz_urb_link where
  "link_zero = \<lparr> urbl_urb = urb_zero, urbl_port = None, req_id = 0, urbl_ep_num = 0,
                 submit_counter = 0 \<rparr>"

definition ctrl_ok :: "nat \<Rightarrow> int" where
  "ctrl_ok i = 0"

text \<open>
  An interrupt IN endpoint that holds one unit of three bytes, the controller with that
  endpoint as endpoint 1 of port 1 and one link that \<^verbatim>\<open>kmalloc\<close> can give, and a URB for
  that endpoint with a buffer of four bytes.
\<close>

definition ep_int_one_unit :: oz_endpoint where
  "ep_int_one_unit =
     oz_ep_alloc 8\<lparr>attrib := USB_ENDPOINT_XFER_INT, ep_num := 1,
                   buffer := [3, 1, 2, 3, 0, 0, 0, 0], in_ix := 4, buffered_units := 1\<rparr>"

definition hcd_int_unit :: oz_hcd where
  "hcd_int_unit =
     hcd_started\<lparr>ports := (ports hcd_started)
                    [1 := (port_attached 1 5)\<lparr>in_ep := (\<lambda>i. if i = 1 then Some ep_int_one_unit else None)\<rparr>],
                  kmalloc_links := [Some link_zero]\<rparr>"

definition urb_int_in :: urb where
  "urb_int_in =
     urb_zero\<lparr>urb_id := 3, pipe_device := 5, pipe_endpoint := 1, pipe_in := True,
               transfer_buffer := [0, 0, 0, 0], transfer_buffer_length := 4, hcpriv := Some 1\<rparr>"

text \<open>
  A URB for the OUT endpoint 2 of the device with the address 5, an endpoint that port 1
  does not have, and the controller with that URB pending.
\<close>

definition urb_ep2_out :: urb where
  "urb_ep2_out = urb_zero\<lparr>urb_id := 4, pipe_device := 5, pipe_endpoint := 2, hcpriv := Some 1\<rparr>"

definition hcd_pending :: oz_hcd where
  "hcd_pending = hcd_two_peers\<lparr>urb_pending_list := [link_zero\<lparr>urbl_urb := urb_ep2_out\<rparr>]\<rparr>"

text \<open>The same controller with a second URB for that endpoint pending behind the first.\<close>

definition hcd_pending_two :: oz_hcd where
  "hcd_pending_two =
     hcd_two_peers\<lparr>urb_pending_list := [link_zero\<lparr>urbl_urb := urb_ep2_out\<rparr>,
                                         link_zero\<lparr>urbl_urb := urb_ep2_out\<lparr>urb_id := 44\<rparr>\<rparr>]\<rparr>"

text \<open>
  An OUT isochronous endpoint as \<^verbatim>\<open>oz_build_endpoints_for_interface\<close> and the first
  \<^verbatim>\<open>oz_enqueue_ep_urb\<close> leave it (the credit ceiling 200, the credit 0, the timestamp 0),
  and a link with an isochronous URB of two packets.
\<close>

definition ep_isoc_out :: oz_endpoint where
  "ep_isoc_out =
     oz_ep_alloc 0\<lparr>attrib := USB_ENDPOINT_XFER_ISOC, ep_num := 2, credit_ceiling := 200,
                   credit := 0, ep_flags := OZ_F_EP_HAVE_STREAM\<rparr>"

definition link_iso2 :: oz_urb_link where
  "link_iso2 =
     link_zero\<lparr>urbl_urb := urb_zero\<lparr>urb_id := 5, pipe_device := 5, pipe_endpoint := 2,
                                      pipe_isoc := True, number_of_packets := 2\<rparr>,
                urbl_ep_num := 2\<rparr>"

text \<open>Two states of an endpoint with the same ring, write cursor, flags and limit of units.\<close>

definition same_ring :: "oz_endpoint \<Rightarrow> oz_endpoint \<Rightarrow> bool" where
  "same_ring ep' ep \<longleftrightarrow>
     buffer ep' = buffer ep \<and> buffer_size ep' = buffer_size ep \<and> in_ix ep' = in_ix ep \<and>
     ep_flags ep' = ep_flags ep \<and> max_buffer_units ep' = max_buffer_units ep"

text \<open>The buffering flag of an endpoint.\<close>

definition buffering :: "oz_endpoint \<Rightarrow> bool" where
  "buffering ep \<longleftrightarrow> ep_flags ep AND OZ_F_EP_BUFFERING \<noteq> 0"

text \<open>
  An IN isochronous endpoint that is not buffering, with the buffer of 24576 bytes that
  \<^verbatim>\<open>oz_build_endpoints_for_interface\<close> allocates: 95 units of 255 bytes are stored from
  the cursor 0, which leaves 255 bytes free, one less than another unit of 255 bytes
  needs. The peer allows 200 units. One URB of 100 packets is queued, more than the 95
  units that are buffered.
\<close>

definition link_iso_in :: oz_urb_link where
  "link_iso_in =
     link_zero\<lparr>urbl_urb := urb_zero\<lparr>urb_id := 6, pipe_device := 5, pipe_endpoint := 3,
                                      pipe_in := True, pipe_isoc := True,
                                      transfer_buffer := replicate 25600 0,
                                      transfer_buffer_length := 25600,
                                      number_of_packets := 100,
                                      iso_frame_desc :=
                                        replicate 100 \<lparr>iso_offset = 0, iso_actual_length = 0,
                                                       iso_status = 0\<rparr>\<rparr>,
                urbl_ep_num := 3\<rparr>"

definition ep_isoc_in_full :: oz_endpoint where
  "ep_isoc_in_full =
     oz_ep_alloc OZ_EP_BUFFER_SIZE_ISOC
       \<lparr>attrib := USB_ENDPOINT_XFER_ISOC, ep_num := 3, credit_ceiling := 200,
        urb_list := [link_iso_in],
        buffer := concat (replicate 95 (255 # replicate 255 7)) @ replicate 256 0,
        in_ix := 24320, buffered_units := 95, max_buffer_units := 200\<rparr>"

section \<open>Properties\<close>

subsection \<open>The ring, as lists\<close>

lemma ring_dist:
  "p < n \<Longrightarrow> off < n \<Longrightarrow> (p + n - off) mod n = (if off \<le> p then p - off else p + n - off)"
  for p n off :: nat
  by (auto simp: mod_if)

lemma ring_pos:
  "off < n \<Longrightarrow> k < n \<Longrightarrow> (off + k) mod n = (if off + k < n then off + k else off + k - n)"
  for k n off :: nat
  by (auto simp: mod_if)

lemma split_write_ring_put:
  assumes "length b = n" "off < n" "length xs = L" "L \<le> n" and c: "c = min (n - off) L"
    and b2: "b2 = take off b @ take c xs @ drop (off + c) b"
  shows "(if c < L then drop c xs @ drop (L - c) b2 else b2) = ring_put b off xs"
proof (rule nth_equalityI)
  show "length (if c < L then drop c xs @ drop (L - c) b2 else b2) = length (ring_put b off xs)"
    using assms by (auto simp: ring_put_def min_def)
next
  fix p assume "p < length (if c < L then drop c xs @ drop (L - c) b2 else b2)"
  then have p: "p < n" using assms by (auto simp: min_def split: if_splits)
  show "(if c < L then drop c xs @ drop (L - c) b2 else b2) ! p = ring_put b off xs ! p"
    using assms(1-4) p unfolding b2 c ring_put_def
    by (auto simp: nth_append ring_dist min_def add.commute)
qed

lemma split_read_ring_seg:
  assumes "length b = n" "off < n" "m \<le> n"
  defines "c \<equiv> min (n - off) m"
  shows "take c (drop off b) @ take (m - c) b = ring_seg b off m"
proof (rule nth_equalityI)
  show "length (take c (drop off b) @ take (m - c) b) = length (ring_seg b off m)"
    using assms by (auto simp: ring_seg_def min_def)
next
  fix p assume "p < length (take c (drop off b) @ take (m - c) b)"
  then have p: "p < m" using assms by (auto simp: min_def split: if_splits)
  show "(take c (drop off b) @ take (m - c) b) ! p = ring_seg b off m ! p"
    using assms(1-3) p unfolding c_def ring_seg_def
    by (auto simp: nth_append ring_pos min_def add.commute)
qed


lemma length_ring_put [simp]: "length (ring_put b off xs) = length b"
  by (simp add: ring_put_def)

lemma length_ring_seg [simp]: "length (ring_seg b off m) = m"
  by (simp add: ring_seg_def)

lemma ring_put_Cons:
  assumes "length b = n" "i < n" "Suc (length xs) \<le> n"
  shows "ring_put (b[i := x]) (if i + 1 = n then 0 else i + 1) xs = ring_put b i (x # xs)"
proof (rule nth_equalityI)
  show "length (ring_put (b[i := x]) (if i + 1 = n then 0 else i + 1) xs) = length (ring_put b i (x # xs))"
    by simp
next
  fix p assume "p < length (ring_put (b[i := x]) (if i + 1 = n then 0 else i + 1) xs)"
  then have p: "p < n" using assms by simp
  define off' where "off' = (if i + 1 = n then 0 else i + 1)"
  define q where "q = (p + n - i) mod n"
  define q' where "q' = (p + n - off') mod n"
  have off': "off' < n" using assms by (auto simp: off'_def)
  have q: "q = (if p = i then 0 else Suc q')"
    using assms p off' unfolding q_def q'_def by (auto simp: ring_dist off'_def)
  have q'i: "p = i \<Longrightarrow> \<not> q' < length xs"
    using assms p off' unfolding q'_def by (auto simp: ring_dist off'_def)
  have "ring_put (b[i := x]) off' xs ! p = (if q' < length xs then xs ! q' else (b[i := x]) ! p)"
    using assms p by (simp add: ring_put_def q'_def)
  also have "\<dots> = (if q < length (x # xs) then (x # xs) ! q else b ! p)"
    using q q'i assms p by auto
  also have "\<dots> = ring_put b i (x # xs) ! p"
    using assms p by (simp add: ring_put_def q_def)
  finally show "ring_put (b[i := x]) (if i + 1 = n then 0 else i + 1) xs ! p = ring_put b i (x # xs) ! p"
    by (simp add: off'_def)
qed

lemma ring_seg_ring_put:
  assumes "off < length b" "length xs \<le> length b"
  shows "ring_seg (ring_put b off xs) off (length xs) = xs"
  using assms by (auto intro!: nth_equalityI simp: ring_seg_def ring_put_def ring_pos ring_dist)

lemma ring_put_outside:
  assumes "off < length b" "length xs \<le> length b" "p < length b"
    and "\<forall>k<length xs. p \<noteq> (off + k) mod length b"
  shows "ring_put b off xs ! p = b ! p"
proof -
  have "\<not> (p + length b - off) mod length b < length xs"
  proof
    assume a: "(p + length b - off) mod length b < length xs"
    then have "p \<noteq> (off + (p + length b - off) mod length b) mod length b"
      using assms(4) by blast
    then show False using assms(1-3) by (auto simp: ring_dist ring_pos split: if_splits)
  qed
  then show ?thesis using assms(3) by (simp add: ring_put_def)
qed

lemma ring_seg_frame:
  assumes "off < length b" "m + length xs \<le> length b"
  shows "ring_seg (ring_put b ((off + m) mod length b) xs) off m = ring_seg b off m"
proof (rule nth_equalityI)
  show "length (ring_seg (ring_put b ((off + m) mod length b) xs) off m) = length (ring_seg b off m)"
    by simp
next
  fix j assume "j < length (ring_seg (ring_put b ((off + m) mod length b) xs) off m)"
  then have j: "j < m" by simp
  have "ring_put b ((off + m) mod length b) xs ! ((off + j) mod length b) = b ! ((off + j) mod length b)"
  proof (rule ring_put_outside)
    have pos: "0 < length b" using assms(1) by linarith
    show "(off + m) mod length b < length b" using pos by simp
    show "length xs \<le> length b" using assms by simp
    show "(off + j) mod length b < length b" using pos by simp
    show "\<forall>k<length xs. (off + j) mod length b \<noteq> ((off + m) mod length b + k) mod length b"
    proof (intro allI impI)
      fix k assume k: "k < length xs"
      have "(off + j) mod length b \<noteq> (off + m + k) mod length b"
      proof
        assume "(off + j) mod length b = (off + m + k) mod length b"
        then have "(off + m + k - (off + j)) mod length b = 0"
          using j by (metis add_leE less_or_eq_imp_le mod_eq_dvd_iff_nat dvd_imp_mod_0 nat_le_linear trans_le_add1 add_le_cancel_left)
        then show False using j k assms by (auto simp: mod_eq_0_iff_dvd dest!: dvd_imp_le)
      qed
      then show "(off + j) mod length b \<noteq> ((off + m) mod length b + k) mod length b"
        by (simp add: mod_add_left_eq)
    qed
  qed
  then show "ring_seg (ring_put b ((off + m) mod length b) xs) off m ! j = ring_seg b off m ! j"
    using j by (simp add: ring_seg_def)
qed

lemma ring_seg_append:
  "ring_seg b off (m + k) = ring_seg b off m @ ring_seg b ((off + m) mod length b) k"
  by (auto intro!: nth_equalityI simp: ring_seg_def nth_append mod_add_left_eq add.assoc)


lemma memcpy_Some:
  assumes "0 \<le> doff" "0 \<le> soff" "0 \<le> n" "soff + n \<le> int (length src)" "doff + n \<le> int (length dst)"
  shows "memcpy dst doff src soff n =
     Some (take (nat doff) dst @ take (nat n) (drop (nat soff) src) @ drop (nat doff + nat n) dst)"
proof -
  have len: "length (take (nat n) (drop (nat soff) src)) = nat n" using assms by auto
  show ?thesis using assms unfolding memcpy_def mem_read_def mem_write_def
    by (simp add: len del: length_take length_drop)
qed

lemma space_eq:
  assumes "ep_buffer_ok ep"
  shows "(let space0 = out_ix ep - in_ix ep - 1 in if space0 < 0 then space0 + buffer_size ep else space0)
         = ring_space ep"
proof -
  let ?s = "out_ix ep - in_ix ep - 1"
  have r: "- buffer_size ep \<le> ?s" "?s < buffer_size ep" using assms by (auto simp: ep_buffer_ok_def)
  show ?thesis
  proof (cases "?s < 0")
    case True
    then have "?s mod buffer_size ep = ?s + buffer_size ep"
      using r by (smt (verit) mod_add_self2 mod_pos_pos_trivial)
    then show ?thesis using True by (simp add: ring_space_def Let_def)
  next
    case False
    then have "?s mod buffer_size ep = ?s" using r by simp
    then show ?thesis using False by (simp add: ring_space_def Let_def)
  qed
qed

lemma s32_id: "- (2 ^ 31) \<le> x \<Longrightarrow> x < 2 ^ 31 \<Longrightarrow> s32 x = x"
  by (simp add: s32_def)

lemma s32_succ: "0 \<le> x \<Longrightarrow> x < 2147483647 \<Longrightarrow> s32 (x + 1) = x + 1"
  by (rule s32_id) simp_all

lemma oz_hcd_buffer_data_full:
  assumes "ep_buffer_ok ep" "ring_space ep < data_len + 1"
    and "0 \<le> data_len" "data_len < 2147483647"
  shows "oz_hcd_buffer_data ep data data_len = Some (-1, ep)"
  using assms(1,2) space_eq[OF assms(1)] s32_succ[OF assms(3,4)]
  by (simp add: oz_hcd_buffer_data_def Let_def ep_buffer_ok_def)

lemma oz_hcd_buffer_data_stored:
  assumes ok: "ep_buffer_ok ep" and sp: "\<not> ring_space ep < data_len + 1"
    and dl: "0 \<le> data_len" "data_len \<le> int (length data)" and mx: "data_len < 2147483647"
  shows "oz_hcd_buffer_data ep data data_len =
           Some (0, ep\<lparr>buffer := ring_put (buffer ep) (nat (in_ix ep))
                                    (word_of_int data_len # take (nat data_len) data),
                        in_ix := (in_ix ep + 1 + data_len) mod buffer_size ep,
                        buffered_units := buffered_units ep + 1\<rparr>)"
proof -
  define b where "b = buffer ep"
  define n where "n = length b"
  define i where "i = nat (in_ix ep)"
  define L where "L = nat data_len"
  define lb :: u8 where "lb = word_of_int data_len"
  have n: "buffer_size ep = int n" and i: "in_ix ep = int i" "i < n" and bne: "buffer ep \<noteq> []"
    and L: "data_len = int L" "L \<le> length data"
    using ok dl by (auto simp: ep_buffer_ok_def n_def b_def i_def L_def)
  have "ring_space ep < buffer_size ep"
    using ok by (simp add: ring_space_def ep_buffer_ok_def)
  then have Ln: "L + 2 \<le> n" using sp n L by linarith
  define ix1 where "ix1 = (if i + 1 = n then 0 else i + 1)"
  define c where "c = min (n - ix1) L"
  define b1 where "b1 = b[i := lb]"
  define b2 where "b2 = take ix1 b1 @ take c (take L data) @ drop (ix1 + c) b1"
  define b3 where "b3 = (if c < L then drop c (take L data) @ drop (L - c) b2 else b2)"
  have ix1: "ix1 < n" using i Ln by (auto simp: ix1_def)
  have cL: "c \<le> L" "ix1 + c \<le> n" using ix1 by (auto simp: c_def)
  have lb1: "length b1 = n" by (simp add: b1_def n_def)
  have lb2: "length b2 = n" using cL L ix1 lb1 by (auto simp: b2_def min_def)
  have s1: "store8 (buffer ep) (in_ix ep) (word_of_int data_len) = Some b1"
    using i by (simp add: store8_def b1_def b_def n_def lb_def)
  have ix1_int: "(if in_ix ep + 1 = buffer_size ep then 0 else in_ix ep + 1) = int ix1"
    using i n by (auto simp: ix1_def)
  have c_int: "(if buffer_size ep - int ix1 > data_len then data_len else buffer_size ep - int ix1) = int c"
    using n L ix1 by (auto simp: c_def min_def)
  have m1: "memcpy b1 (int ix1) data 0 (int c) = Some b2"
    using memcpy_Some[of "int ix1" 0 "int c" data b1] cL L lb1
    by (simp add: b2_def min_def)
  have m2: "c < L \<Longrightarrow> memcpy b2 0 data (int c) (int L - int c) = Some (drop c (take L data) @ drop (L - c) b2)"
    using memcpy_Some[of 0 "int c" "int L - int c" data b2] cL L lb2 Ln
    by (simp add: drop_take nat_diff_distrib')
  have b3: "b3 = ring_put b i (lb # take L data)"
  proof -
    have "b3 = ring_put b1 ix1 (take L data)"
      unfolding b3_def
      by (rule split_write_ring_put[OF lb1 ix1 _ _ c_def b2_def]) (use L Ln in auto)
    also have "\<dots> = ring_put b i (lb # take L data)"
      using ring_put_Cons[of b n i "take L data" lb] i Ln L
      by (simp add: b1_def ix1_def n_def)
    finally show ?thesis .
  qed
  have ixf: "(let ix2 = (if c < L then int L - int c else int ix1 + int c) in if ix2 = int n then 0 else ix2)
             = (int i + 1 + int L) mod int n"
  proof -
    have "(int i + 1 + int L) mod int n = int ((i + 1 + L) mod n)"
      by (simp add: zmod_int algebra_simps)
    moreover have "(i + 1 + L) mod n = (if i + 1 + L < n then i + 1 + L else i + 1 + L - n)"
      using i Ln by (auto simp: mod_if)
    ultimately show ?thesis using i Ln ix1
      by (auto simp: c_def ix1_def min_def Let_def)
  qed
  have sp': "\<not> (if out_ix ep - in_ix ep - 1 < 0 then out_ix ep - in_ix ep - 1 + buffer_size ep
                 else out_ix ep - in_ix ep - 1) < s32 (data_len + 1)"
    using sp space_eq[OF ok] s32_succ[OF dl(1) mx] by (simp add: Let_def)
  have m2': "(if int c < data_len
               then memcpy b2 0 data (int c) (data_len - int c) \<bind> (\<lambda>b. Some (b, data_len - int c))
               else Some (b2, int ix1 + int c))
             = Some (b3, if c < L then int L - int c else int ix1 + int c)"
    using m2 by (simp add: L(1) b3_def)
  have b3': "b3 = ring_put (buffer ep) (nat (in_ix ep)) (word_of_int data_len # take (nat data_len) data)"
    using b3 by (simp only: b_def i_def L_def lb_def)
  have ixf': "(if (if c < L then int L - int c else int ix1 + int c) = buffer_size ep then 0
               else (if c < L then int L - int c else int ix1 + int c))
              = (in_ix ep + 1 + data_len) mod buffer_size ep"
    using ixf by (simp only: Let_def n i(1) L(1))
  show ?thesis
    unfolding oz_hcd_buffer_data_def
    apply (simp only: Let_def bne sp' if_False s1 ix1_int c_int)
    apply (simp only: bind.bind_lunit m1 m2' split)
    apply (simp only: b3' ixf')
    done
qed


subsection \<open>Reading a unit, from the definition\<close>

lemma oz_buffered_unit_to_urb_read:
  assumes ok: "ep_buffer_ok ep"
    and A: "A = min (unat (buffer ep ! nat (out_ix ep))) (transfer_buffer_length u)"
    and fits: "int A \<le> buffer_size ep" and tb: "A \<le> length (transfer_buffer u)"
  shows "oz_buffered_unit_to_urb ep u =
           Some (ep\<lparr>out_ix := (out_ix ep + 1 + int A) mod buffer_size ep,
                    buffered_units := buffered_units ep - 1\<rparr>,
                 u\<lparr>transfer_buffer :=
                      ring_seg (buffer ep) (nat ((out_ix ep + 1) mod buffer_size ep)) A
                      @ drop A (transfer_buffer u),
                   actual_length := A\<rparr>)"
proof -
  define b where "b = buffer ep"
  define n where "n = length b"
  define out where "out = nat (out_ix ep)"
  define d where "d = b ! out"
  have n: "buffer_size ep = int n" and out: "out_ix ep = int out" "out < n"
    using ok by (auto simp: ep_buffer_ok_def n_def b_def out_def)
  have An: "A \<le> n" using fits n by simp
  define ox1 where "ox1 = (if out + 1 = n then 0 else out + 1)"
  define c where "c = min (n - ox1) A"
  define tb1 where "tb1 = take c (drop ox1 b) @ drop c (transfer_buffer u)"
  define tb2 where "tb2 = (if c < A then take c tb1 @ take (A - c) b @ drop A tb1 else tb1)"
  have ox1: "ox1 < n" using out by (auto simp: ox1_def)
  have cA: "c \<le> A" "ox1 + c \<le> n" using ox1 by (auto simp: c_def)
  have l1: "load8 (buffer ep) (out_ix ep) = Some d"
    using out by (simp add: load8_def d_def b_def n_def)
  have av: "(if uint d \<le> int (transfer_buffer_length u) then uint d else int (transfer_buffer_length u)) = int A"
  proof -
    have ud: "uint d = int (unat d)" by simp
    have A': "A = min (unat d) (transfer_buffer_length u)" using A by (simp add: d_def b_def out_def)
    show ?thesis unfolding ud A' by (simp add: min_def del: of_nat_unat)
  qed
  have ox1_int: "(if out_ix ep + 1 = buffer_size ep then 0 else out_ix ep + 1) = int ox1"
    using out n by (auto simp: ox1_def)
  have c_int: "(if buffer_size ep - int ox1 \<ge> int A then int A else buffer_size ep - int ox1) = int c"
    using n ox1 by (auto simp: c_def min_def)
  have ltb1: "length tb1 = length (transfer_buffer u)"
    using cA tb n_def by (auto simp: tb1_def min_def)
  have m1: "memcpy (transfer_buffer u) 0 (buffer ep) (int ox1) (int c) = Some tb1"
    using memcpy_Some[of 0 "int ox1" "int c" "buffer ep" "transfer_buffer u"] cA tb
    by (simp add: tb1_def b_def n_def)
  have m2: "c < A \<Longrightarrow> memcpy tb1 (int c) (buffer ep) 0 (int A - int c) = Some (take c tb1 @ take (A - c) b @ drop A tb1)"
    using memcpy_Some[of "int c" 0 "int A - int c" "buffer ep" tb1] cA tb An ltb1
    by (simp add: b_def n_def nat_diff_distrib')
  have m2': "(if int c < int A
               then memcpy tb1 (int c) (buffer ep) 0 (int A - int c) \<bind> (\<lambda>tb. Some (tb, int A - int c))
               else Some (tb1, int ox1 + int c))
             = Some (tb2, if c < A then int A - int c else int ox1 + int c)"
    using m2 by (simp add: tb2_def)
  have seg: "take c (drop ox1 b) @ take (A - c) b = ring_seg b ox1 A"
    by (rule split_read_ring_seg[of b n ox1 A, folded c_def]) (use ox1 An in \<open>auto simp: n_def\<close>)
  have tb2: "tb2 = ring_seg b ox1 A @ drop A (transfer_buffer u)"
  proof (cases "c < A")
    case True
    have len1: "length (take c (drop ox1 b)) = c" using cA by (simp add: n_def)
    have "take c tb1 = take c (drop ox1 b)" using len1 by (simp add: tb1_def del: length_take)
    moreover have "drop A tb1 = drop A (transfer_buffer u)"
      using True len1 by (simp add: tb1_def del: length_take length_drop)
    ultimately show ?thesis using True seg by (simp add: tb2_def)
  next
    case False
    then have "c = A" using cA by simp
    then show ?thesis using seg False by (simp add: tb2_def tb1_def)
  qed
  have ox1m: "nat ((out_ix ep + 1) mod buffer_size ep) = ox1"
  proof -
    have "(int out + 1) mod int n = int ((out + 1) mod n)" by (simp add: zmod_int algebra_simps)
    moreover have "(out + 1) mod n = ox1" using out by (auto simp: ox1_def mod_if)
    ultimately show ?thesis using out n by simp
  qed
  have ixf: "(if (if c < A then int A - int c else int ox1 + int c) = buffer_size ep then 0
               else (if c < A then int A - int c else int ox1 + int c))
              = (out_ix ep + 1 + int A) mod buffer_size ep"
  proof -
    have "(int out + 1 + int A) mod int n = int ((out + 1 + A) mod n)"
      by (simp add: zmod_int algebra_simps)
    moreover have "(out + 1 + A) mod n = (if out + 1 + A < n then out + 1 + A else if out + 1 + A < 2 * n then out + 1 + A - n else 0)"
      using out An by (auto simp: mod_if)
    ultimately show ?thesis using out An ox1 n
      by (auto simp: c_def ox1_def min_def)
  qed
  have tb2': "tb2 = ring_seg (buffer ep) (nat ((out_ix ep + 1) mod buffer_size ep)) A @ drop A (transfer_buffer u)"
    using tb2 by (simp only: ox1m b_def)
  show ?thesis
    unfolding oz_buffered_unit_to_urb_def
    apply (simp only: l1 bind.bind_lunit Let_def av ox1_int c_int)
    apply (simp only: m1 bind.bind_lunit m2' split)
    apply (simp only: tb2' ixf nat_int)
    done
qed


subsection \<open>Draining a unit into a short URB\<close>

lemma oz_complete_urb_giveback:
  "\<exists>u'. giveback (hcd (oz_complete_urb h u st)) = giveback (hcd h) @ [(u', st)] \<and>
        transfer_buffer u' = transfer_buffer u \<and> actual_length u' = actual_length u \<and>
        urb_id u' = urb_id u \<and> hcpriv u' = None"
  by (auto simp: oz_complete_urb_def oz_uncancel_urb_def oz_free_urb_link_def Let_def
           split: prod.splits option.splits)

lemma oz_complete_urb_frame:
  "ports (oz_complete_urb h u st) = ports h"
  "conn_port (oz_complete_urb h u st) = conn_port h"
  "urb_pending_list (oz_complete_urb h u st) = urb_pending_list h"
  "orphanage (oz_complete_urb h u st) = orphanage h"
  "kmalloc_links (oz_complete_urb h u st) = kmalloc_links h"
  "hc_state (hcd (oz_complete_urb h u st)) = hc_state (hcd h)"
  by (auto simp: oz_complete_urb_def oz_uncancel_urb_def oz_free_urb_link_def Let_def
           split: prod.splits option.splits)

text \<open>
  C9. When the unit at the read cursor has the stored length \<open>L\<close> and the URB's
  \<^verbatim>\<open>transfer_buffer_length\<close> is \<open>B < L\<close>, \<^verbatim>\<open>oz_complete_buffered_urb\<close> copies the
  first \<open>B\<close> bytes of the unit and no more, sets \<^verbatim>\<open>actual_length\<close> to \<open>B\<close>, completes the
  URB with status 0 and decrements the count of buffered units; the read cursor advances
  by \<open>1 + B\<close> modulo \<^verbatim>\<open>buffer_size\<close>, which is not the position after the whole unit.
  The unit fits the buffer (\<open>L < buffer_size\<close>), as every unit that
  \<^verbatim>\<open>oz_hcd_buffer_data\<close> stored does.
\<close>

theorem oz_complete_buffered_urb_short:
  assumes ok: "ep_buffer_ok ep"
    and L: "L = unat (buffer ep ! nat (out_ix ep))" and fits: "int L < buffer_size ep"
    and B: "B = transfer_buffer_length u" and tb: "B \<le> length (transfer_buffer u)"
    and short: "B < L"
  shows "\<exists>h' ep' u'. oz_complete_buffered_urb h ep u = Some (h', ep') \<and>
           giveback (hcd h') = giveback (hcd h) @ [(u', 0)] \<and>
           transfer_buffer u' =
             ring_seg (buffer ep) (nat ((out_ix ep + 1) mod buffer_size ep)) B
             @ drop B (transfer_buffer u) \<and>
           actual_length u' = B \<and>
           buffered_units ep' = buffered_units ep - 1 \<and>
           out_ix ep' = (out_ix ep + 1 + int B) mod buffer_size ep \<and>
           out_ix ep' \<noteq> (out_ix ep + 1 + int L) mod buffer_size ep \<and>
           in_ix ep' = in_ix ep \<and> buffer ep' = buffer ep"
proof -
  have A: "B = min (unat (buffer ep ! nat (out_ix ep))) (transfer_buffer_length u)"
    using short L B by simp
  have fitsB: "int B \<le> buffer_size ep" using short fits by simp
  let ?ep = "ep\<lparr>out_ix := (out_ix ep + 1 + int B) mod buffer_size ep,
                 buffered_units := buffered_units ep - 1\<rparr>"
  let ?u = "u\<lparr>transfer_buffer :=
               ring_seg (buffer ep) (nat ((out_ix ep + 1) mod buffer_size ep)) B
               @ drop B (transfer_buffer u),
             actual_length := B\<rparr>"
  have rd: "oz_buffered_unit_to_urb ep u = Some (?ep, ?u)"
    by (rule oz_buffered_unit_to_urb_read[OF ok A fitsB tb])
  have cb: "oz_complete_buffered_urb h ep u = Some (oz_complete_urb h ?u 0, ?ep)"
    by (simp add: oz_complete_buffered_urb_def rd)
  obtain u' where u': "giveback (hcd (oz_complete_urb h ?u 0)) = giveback (hcd h) @ [(u', 0)]"
    "transfer_buffer u' = transfer_buffer ?u" "actual_length u' = actual_length ?u"
    using oz_complete_urb_giveback[of h ?u 0] by blast
  have ne: "(out_ix ep + 1 + int B) mod buffer_size ep \<noteq> (out_ix ep + 1 + int L) mod buffer_size ep"
  proof
    assume "(out_ix ep + 1 + int B) mod buffer_size ep = (out_ix ep + 1 + int L) mod buffer_size ep"
    then have "buffer_size ep dvd (out_ix ep + 1 + int L) - (out_ix ep + 1 + int B)"
      by (metis mod_eq_dvd_iff)
    then have "buffer_size ep dvd int L - int B" by simp
    then have "buffer_size ep \<le> int L - int B" using short by (intro zdvd_imp_le) auto
    then show False using fits by simp
  qed
  show ?thesis
    using cb u' ne by auto
qed

theorem oz_complete_buffered_urb_short_witness:
  "ep_buffer_ok (oz_ep_alloc 8\<lparr>buffer := [2, 3, 0, 0, 0, 0, 3, 1], in_ix := 2, out_ix := 6,
                                buffered_units := 1\<rparr>) \<and>
   (\<exists>h' ep' u'.
      oz_complete_buffered_urb hcd_started
        (oz_ep_alloc 8\<lparr>buffer := [2, 3, 0, 0, 0, 0, 3, 1], in_ix := 2, out_ix := 6,
                        buffered_units := 1\<rparr>)
        (urb_zero\<lparr>transfer_buffer := [0, 0], transfer_buffer_length := 2\<rparr>) = Some (h', ep') \<and>
      giveback (hcd h') = [(u', 0)] \<and> transfer_buffer u' = [1, 2] \<and> actual_length u' = 2 \<and>
      buffered_units ep' = 0 \<and> out_ix ep' = 1)"
proof -
  let ?e = "oz_ep_alloc 8\<lparr>buffer := [2, 3, 0, 0, 0, 0, 3, 1], in_ix := 2, out_ix := 6,
                           buffered_units := 1\<rparr>"
  let ?u = "urb_zero\<lparr>transfer_buffer := [0, 0], transfer_buffer_length := 2\<rparr>"
  have ok: "ep_buffer_ok ?e" by (simp add: ep_buffer_ok_def oz_ep_alloc_def)
  have L: "(3::nat) = unat (buffer ?e ! nat (out_ix ?e))" by (simp add: oz_ep_alloc_def)
  have fits: "int 3 < buffer_size ?e" by (simp add: oz_ep_alloc_def)
  have B: "(2::nat) = transfer_buffer_length ?u" and tb: "(2::nat) \<le> length (transfer_buffer ?u)"
    by simp_all
  have seg: "ring_seg (buffer ?e) (nat ((out_ix ?e + 1) mod buffer_size ?e)) 2 = [1, 2]"
    by (simp add: oz_ep_alloc_def ring_seg_def upt_rec)
  show ?thesis
    using oz_complete_buffered_urb_short[OF ok L fits B tb, of hcd_started] ok seg
    by (auto simp: oz_ep_alloc_def hcd_started_def)
qed



subsection \<open>What the ring holds, across writes and reads\<close>

lemma ring_holds_empty:
  "ep_buffer_ok ep \<Longrightarrow> in_ix ep = out_ix ep \<Longrightarrow> ring_holds ep []"
  by (auto simp: ring_holds_def ep_buffer_ok_def ring_seg_def)

lemma ring_space_holds:
  assumes "ring_holds ep xs"
  shows "ring_space ep = buffer_size ep - 1 - int (length xs)"
proof -
  let ?n = "buffer_size ep" and ?m = "int (length xs)"
  have n: "0 < ?n" "?m < ?n" "0 \<le> ?m" and i: "in_ix ep = (out_ix ep + ?m) mod ?n"
    using assms by (auto simp: ring_holds_def ep_buffer_ok_def)
  have "(out_ix ep - in_ix ep - 1) mod ?n = (out_ix ep - (out_ix ep + ?m) - 1) mod ?n"
    unfolding i by (metis mod_diff_left_eq mod_diff_right_eq)
  also have "\<dots> = (?n - 1 - ?m) mod ?n"
    by (metis (no_types, opaque_lifting) add_diff_cancel_left' diff_diff_eq2 diff_minus_eq_add
        minus_diff_eq mod_add_self1 add.commute diff_diff_eq uminus_add_conv_diff)
  also have "\<dots> = ?n - 1 - ?m" using n by simp
  finally show ?thesis by (simp add: ring_space_def)
qed


lemma length_stored_unit [simp]: "length (stored_unit x) = Suc (length x)"
  by (simp add: stored_unit_def)

lemma write_holds:
  assumes h: "ring_holds ep xs"
    and w: "oz_hcd_buffer_data ep x (int (length x)) = Some (0, ep')"
    and mx: "length x \<le> 255"
  shows "ring_holds ep' (xs @ stored_unit x) \<and> out_ix ep' = out_ix ep \<and>
         buffered_units ep' = buffered_units ep + 1"
proof -
  define n where "n = length (buffer ep)"
  define m where "m = length xs"
  define out where "out = nat (out_ix ep)"
  have ok: "ep_buffer_ok ep" using h by (simp add: ring_holds_def)
  have n: "buffer_size ep = int n" "0 < n" and out: "out_ix ep = int out" "out < n"
    and mn: "m < n" and i: "in_ix ep = (int out + int m) mod int n"
    and seg: "ring_seg (buffer ep) out m = xs"
    using h by (auto simp: ring_holds_def ep_buffer_ok_def n_def m_def out_def)
  have inn: "nat (in_ix ep) = (out + m) mod n"
  proof -
    have "(int out + int m) mod int n = int ((out + m) mod n)" by (simp add: zmod_int)
    then show ?thesis unfolding i by simp
  qed
  have sp: "\<not> ring_space ep < int (length x) + 1"
  proof
    assume "ring_space ep < int (length x) + 1"
    then have "oz_hcd_buffer_data ep x (int (length x)) = Some (-1, ep)"
      using mx by (intro oz_hcd_buffer_data_full[OF ok]) simp_all
    then show False using w by simp
  qed
  then have room: "m + length x + 2 \<le> n"
    using ring_space_holds[OF h] n by (simp add: m_def)
  let ?b = "ring_put (buffer ep) (nat (in_ix ep)) (stored_unit x)"
  have ep': "ep' = ep\<lparr>buffer := ?b, in_ix := (in_ix ep + 1 + int (length x)) mod buffer_size ep,
                       buffered_units := buffered_units ep + 1\<rparr>"
    using oz_hcd_buffer_data_stored[OF ok sp, of x] w mx by (simp add: stored_unit_def)
  have s1: "ring_seg ?b out m = xs"
    using ring_seg_frame[of out "buffer ep" m "stored_unit x"] out room seg
    by (simp add: inn n_def)
  have s2: "ring_seg ?b ((out + m) mod n) (Suc (length x)) = stored_unit x"
    using ring_seg_ring_put[of "(out + m) mod n" "buffer ep" "stored_unit x"] n room
    by (simp add: inn n_def)
  have "ring_seg ?b out (m + Suc (length x)) = xs @ stored_unit x"
    using ring_seg_append[of ?b out m "Suc (length x)"] s1 s2 by (simp add: n_def)
  moreover have "(in_ix ep + 1 + int (length x)) mod int n = (int out + int (m + Suc (length x))) mod int n"
  proof -
    have "(in_ix ep + 1 + int (length x)) mod int n
            = ((int out + int m) mod int n + (1 + int (length x))) mod int n"
      by (simp add: i add.assoc)
    also have "\<dots> = (int out + int m + (1 + int (length x))) mod int n"
      by (rule mod_add_left_eq)
    also have "int out + int m + (1 + int (length x)) = int out + int (m + Suc (length x))"
      by simp
    finally show ?thesis .
  qed
  moreover have "ring_put (buffer ep) (nat (in_ix ep)) (stored_unit x) \<noteq> []"
    using n by (metis length_ring_put length_greater_0_conv n_def)
  ultimately show ?thesis
    using room n(2) out(2) unfolding ep' ring_holds_def ep_buffer_ok_def
    by (simp add: n(1) out(1) m_def[symmetric] n_def[symmetric])
qed


lemma write_units_holds:
  "ring_holds ep xs \<Longrightarrow> write_units ep units = Some ep1 \<Longrightarrow>
   \<forall>x\<in>set units. length x \<le> 255 \<Longrightarrow>
   ring_holds ep1 (xs @ concat (map stored_unit units)) \<and> out_ix ep1 = out_ix ep \<and>
   buffered_units ep1 = buffered_units ep + int (length units)"
proof (induction units arbitrary: ep xs)
  case Nil
  then show ?case by simp
next
  case (Cons x units)
  from Cons.prems(2) obtain ep' where
    w: "oz_hcd_buffer_data ep x (int (length x)) = Some (0, ep')" and
    r: "write_units ep' units = Some ep1"
    by (auto split: option.splits prod.splits if_splits)
  have mx: "length x \<le> 255" and rest: "\<forall>x\<in>set units. length x \<le> 255"
    using Cons.prems(3) by simp_all
  from write_holds[OF Cons.prems(1) w mx] Cons.IH[OF _ r rest, of "xs @ stored_unit x"]
  show ?case by simp
qed

lemma unat_length_byte: "length x \<le> 255 \<Longrightarrow> unat (word_of_int (int (length x)) :: u8) = length x"
  by (simp add: unat_of_nat)

lemma read_holds:
  assumes h: "ring_holds ep (stored_unit x @ rest)" and x: "length x \<le> 255"
    and room: "urb_room u (length x)"
  shows "\<exists>ep' u'. oz_buffered_unit_to_urb ep u = Some (ep', u') \<and>
           ring_holds ep' rest \<and> buffered_units ep' = buffered_units ep - 1 \<and>
           transfer_buffer u' = x @ drop (length x) (transfer_buffer u) \<and>
           actual_length u' = length x"
proof -
  define n where "n = length (buffer ep)"
  define out where "out = nat (out_ix ep)"
  define L where "L = length x"
  define r where "r = length rest"
  have ok: "ep_buffer_ok ep" using h by (simp add: ring_holds_def)
  have n: "buffer_size ep = int n" "0 < n" and out: "out_ix ep = int out" "out < n"
    and mn: "Suc L + r < n" and i: "in_ix ep = (int out + int (Suc L + r)) mod int n"
    and seg: "ring_seg (buffer ep) out (Suc L + r) = stored_unit x @ rest"
    using h by (auto simp: ring_holds_def ep_buffer_ok_def n_def out_def L_def r_def)
  have app: "ring_seg (buffer ep) out (Suc L + r)
               = ring_seg (buffer ep) out 1 @ ring_seg (buffer ep) ((out + 1) mod n) L
                 @ ring_seg (buffer ep) ((out + 1 + L) mod n) r"
  proof -
    have "ring_seg (buffer ep) out (1 + (L + r))
            = ring_seg (buffer ep) out 1 @ ring_seg (buffer ep) ((out + 1) mod n) (L + r)"
      unfolding n_def by (rule ring_seg_append)
    also have "ring_seg (buffer ep) ((out + 1) mod n) (L + r)
            = ring_seg (buffer ep) ((out + 1) mod n) L
              @ ring_seg (buffer ep) (((out + 1) mod n + L) mod n) r"
      unfolding n_def by (rule ring_seg_append)
    also have "((out + 1) mod n + L) mod n = (out + 1 + L) mod n"
      by (rule mod_add_left_eq)
    finally show ?thesis by simp
  qed
  have parts: "ring_seg (buffer ep) out 1 = [word_of_int (int L)]"
       "ring_seg (buffer ep) ((out + 1) mod n) L = x"
       "ring_seg (buffer ep) ((out + 1 + L) mod n) r = rest"
  proof -
    have e: "ring_seg (buffer ep) out 1 @ (ring_seg (buffer ep) ((out + 1) mod n) L
               @ ring_seg (buffer ep) ((out + 1 + L) mod n) r)
             = [word_of_int (int L)] @ (x @ rest)"
      using seg unfolding app by (simp add: stored_unit_def L_def)
    have e1: "ring_seg (buffer ep) out 1 = [word_of_int (int L)] \<and>
              ring_seg (buffer ep) ((out + 1) mod n) L
               @ ring_seg (buffer ep) ((out + 1 + L) mod n) r = x @ rest"
      by (rule append_eq_append_conv[THEN iffD1, OF _ e]) simp
    then show "ring_seg (buffer ep) out 1 = [word_of_int (int L)]" by simp
    have e2: "ring_seg (buffer ep) ((out + 1) mod n) L = x \<and>
              ring_seg (buffer ep) ((out + 1 + L) mod n) r = rest"
      by (rule append_eq_append_conv[THEN iffD1, OF _ conjunct2[OF e1]]) (simp add: L_def)
    then show "ring_seg (buffer ep) ((out + 1) mod n) L = x"
      "ring_seg (buffer ep) ((out + 1 + L) mod n) r = rest" by simp_all
  qed
  have hd: "buffer ep ! out = word_of_int (int L)"
    using parts(1) out by (simp add: ring_seg_def n_def)
  have A: "L = min (unat (buffer ep ! nat (out_ix ep))) (transfer_buffer_length u)"
    using hd x room unat_length_byte[of x] by (simp add: out(1) L_def urb_room_def)
  have fits: "int L \<le> buffer_size ep" using mn n by simp
  have tb: "L \<le> length (transfer_buffer u)" using room by (simp add: urb_room_def L_def)
  have o1: "nat ((out_ix ep + 1) mod buffer_size ep) = (out + 1) mod n"
  proof -
    have "(int out + 1) mod int n = int ((out + 1) mod n)" by (simp add: zmod_int algebra_simps)
    then show ?thesis by (simp add: out(1) n(1))
  qed
  let ?o = "(out_ix ep + 1 + int L) mod buffer_size ep"
  have o2: "nat ?o = (out + 1 + L) mod n" and o2i: "?o = int ((out + 1 + L) mod n)"
  proof -
    show "?o = int ((out + 1 + L) mod n)" by (simp add: out(1) n(1) zmod_int algebra_simps)
    then show "nat ?o = (out + 1 + L) mod n" by simp
  qed
  have rd: "oz_buffered_unit_to_urb ep u =
           Some (ep\<lparr>out_ix := ?o, buffered_units := buffered_units ep - 1\<rparr>,
                 u\<lparr>transfer_buffer := x @ drop L (transfer_buffer u), actual_length := L\<rparr>)"
    using oz_buffered_unit_to_urb_read[OF ok A fits tb] parts(2) by (simp add: o1 n_def)
  have cur: "in_ix ep = (?o + int r) mod int n"
  proof -
    have "(?o + int r) mod int n = ((int out + 1 + int L) mod int n + int r) mod int n"
      by (simp add: out(1) n(1))
    also have "\<dots> = (int out + 1 + int L + int r) mod int n" by (rule mod_add_left_eq)
    also have "int out + 1 + int L + int r = int out + int (Suc L + r)" by simp
    finally show ?thesis using i by simp
  qed
  have "ring_holds (ep\<lparr>out_ix := ?o, buffered_units := buffered_units ep - 1\<rparr>) rest"
    using ok mn n(2) parts(3) cur unfolding ring_holds_def ep_buffer_ok_def
    by (simp add: o2[unfolded n(1)] n(1) r_def[symmetric] n_def[symmetric])
  then show ?thesis using rd by (simp add: L_def)
qed

lemma read_units_holds:
  "ring_holds ep (concat (map stored_unit units)) \<Longrightarrow> \<forall>x\<in>set units. length x \<le> 255 \<Longrightarrow>
   list_all2 (\<lambda>u x. urb_room u (length x)) urbs units \<Longrightarrow>
   \<exists>h' ep' cs. read_units h ep urbs = Some (h', ep') \<and>
      giveback (hcd h') = giveback (hcd h) @ cs \<and> map urb_data cs = units \<and>
      ring_holds ep' [] \<and> buffered_units ep' = buffered_units ep - int (length units)"
proof (induction units arbitrary: ep h urbs)
  case Nil
  then show ?case by simp
next
  case (Cons x units)
  from Cons.prems(3) obtain u us where urbs: "urbs = u # us" and
    room: "urb_room u (length x)" and rest: "list_all2 (\<lambda>u x. urb_room u (length x)) us units"
    by (auto simp: list_all2_Cons2)
  from Cons.prems(1) have h: "ring_holds ep (stored_unit x @ concat (map stored_unit units))"
    by simp
  from read_holds[OF h _ room] Cons.prems(2) obtain ep1 u1 where
    rd: "oz_buffered_unit_to_urb ep u = Some (ep1, u1)" and
    h1: "ring_holds ep1 (concat (map stored_unit units))" and
    b1: "buffered_units ep1 = buffered_units ep - 1" and
    t1: "transfer_buffer u1 = x @ drop (length x) (transfer_buffer u)" "actual_length u1 = length x"
    by auto
  obtain c where c: "giveback (hcd (oz_complete_urb h u1 0)) = giveback (hcd h) @ [(c, 0)]"
    "transfer_buffer c = transfer_buffer u1" "actual_length c = actual_length u1"
    using oz_complete_urb_giveback[of h u1 0] by blast
  have cd: "urb_data (c, 0) = x" using c t1 by (simp add: urb_data_def)
  from Cons.IH[OF h1 _ rest, of "oz_complete_urb h u1 0"] Cons.prems(2)
  obtain h' ep' cs where
    r: "read_units (oz_complete_urb h u1 0) ep1 us = Some (h', ep')" and
    g: "giveback (hcd h') = giveback (hcd (oz_complete_urb h u1 0)) @ cs" and
    m: "map urb_data cs = units" and e: "ring_holds ep' []" and
    b: "buffered_units ep' = buffered_units ep1 - int (length units)"
    by auto
  have "read_units h ep urbs = Some (h', ep')"
    using rd r by (simp add: urbs oz_complete_buffered_urb_def)
  moreover have "giveback (hcd h') = giveback (hcd h) @ ((c, 0) # cs)" using g c by simp
  moreover have "map urb_data ((c, 0) # cs) = x # units" using cd m by simp
  ultimately show ?case using e b b1 by (intro exI[of _ h'] exI[of _ ep'] exI[of _ "(c, 0) # cs"]) simp
qed


subsection \<open>Examples, evaluated\<close>

lemmas mem_defs = load8_def store8_def memcpy_def mem_read_def mem_write_def

lemma replicate_8: "replicate 8 x = [x, x, x, x, x, x, x, x]"
  by (simp add: numeral_eq_Suc)

lemma example_write_wrap: "oz_hcd_buffer_data (oz_ep_alloc 8\<lparr>in_ix := 6, out_ix := 6\<rparr>) [1, 2, 3] 3
   = Some (0, oz_ep_alloc 8\<lparr>buffer := [2, 3, 0, 0, 0, 0, 3, 1], in_ix := 2, out_ix := 6, buffered_units := 1\<rparr>)"
  by (simp add: oz_hcd_buffer_data_def oz_ep_alloc_def mem_defs Let_def replicate_8 s32_def)

lemma example_write_second: "oz_hcd_buffer_data (oz_ep_alloc 8\<lparr>buffer := [2, 3, 0, 0, 0, 0, 3, 1], in_ix := 2, out_ix := 6, buffered_units := 1\<rparr>) [4] 1
   = Some (0, oz_ep_alloc 8\<lparr>buffer := [2, 3, 1, 4, 0, 0, 3, 1], in_ix := 4, out_ix := 6, buffered_units := 2\<rparr>)"
  by (simp add: oz_hcd_buffer_data_def oz_ep_alloc_def mem_defs Let_def s32_def)

lemma example_read_short: "oz_buffered_unit_to_urb (oz_ep_alloc 8\<lparr>buffer := [2, 3, 0, 0, 0, 0, 3, 1], in_ix := 2, out_ix := 6, buffered_units := 1\<rparr>)
     (urb_zero\<lparr>transfer_buffer := [0, 0], transfer_buffer_length := 2\<rparr>)
   = Some (oz_ep_alloc 8\<lparr>buffer := [2, 3, 0, 0, 0, 0, 3, 1], in_ix := 2, out_ix := 1, buffered_units := 0\<rparr>,
           urb_zero\<lparr>transfer_buffer := [1, 2], transfer_buffer_length := 2, actual_length := 2\<rparr>)"
  by (simp add: oz_buffered_unit_to_urb_def oz_ep_alloc_def urb_zero_def mem_defs Let_def)

lemma example_round_trip_short_urb: "round_trip hcd_started (oz_ep_alloc 8\<lparr>in_ix := 6, out_ix := 6\<rparr>) [[1, 2, 3]]
      [urb_zero\<lparr>transfer_buffer := [0, 0], transfer_buffer_length := 2\<rparr>] = Some [[1, 2]]"
  apply (simp add: round_trip_def example_write_wrap example_read_short oz_complete_buffered_urb_def)
  apply (simp add: oz_complete_urb_def oz_uncancel_urb_def oz_free_urb_link_def hcd_started_def
        urb_zero_def urb_data_def Let_def)
  done

lemma example_round_trip_256: "round_trip hcd_started (oz_ep_alloc 512) [replicate 256 1]
      [urb_zero\<lparr>transfer_buffer := replicate 256 0, transfer_buffer_length := 256\<rparr>] = Some [[]]"
proof -
  let ?e = "oz_ep_alloc 512"
  let ?x = "replicate 256 (1::u8)"
  let ?u = "urb_zero\<lparr>transfer_buffer := replicate 256 0, transfer_buffer_length := 256\<rparr>"
  let ?e1 = "?e\<lparr>buffer := ring_put (buffer ?e) (nat (in_ix ?e)) (word_of_int 256 # take (nat 256) ?x),
                 in_ix := (in_ix ?e + 1 + 256) mod buffer_size ?e,
                 buffered_units := buffered_units ?e + 1\<rparr>"
  have ok: "ep_buffer_ok ?e" by (simp add: ep_buffer_ok_def oz_ep_alloc_def)
  have sp: "\<not> ring_space ?e < 256 + 1" by (simp add: ring_space_def oz_ep_alloc_def)
  have w: "oz_hcd_buffer_data ?e ?x 256 = Some (0, ?e1)"
    by (rule oz_hcd_buffer_data_stored[OF ok sp]) simp_all
  have ok1: "ep_buffer_ok ?e1" by (simp add: ep_buffer_ok_def oz_ep_alloc_def ring_put_def)
  have hd: "buffer ?e1 ! nat (out_ix ?e1) = 0"
    by (simp add: oz_ep_alloc_def ring_put_def)
  have A: "(0::nat) = min (unat (buffer ?e1 ! nat (out_ix ?e1))) (transfer_buffer_length ?u)"
    unfolding hd by simp
  let ?e2 = "?e1\<lparr>out_ix := (out_ix ?e1 + 1 + int 0) mod buffer_size ?e1,
                  buffered_units := buffered_units ?e1 - 1\<rparr>"
  let ?u2 = "?u\<lparr>transfer_buffer :=
                  ring_seg (buffer ?e1) (nat ((out_ix ?e1 + 1) mod buffer_size ?e1)) 0
                  @ drop 0 (transfer_buffer ?u),
                actual_length := 0\<rparr>"
  have rd: "oz_buffered_unit_to_urb ?e1 ?u = Some (?e2, ?u2)"
    by (rule oz_buffered_unit_to_urb_read[OF ok1 A]) (simp_all add: oz_ep_alloc_def)
  obtain c where c: "giveback (hcd (oz_complete_urb hcd_started ?u2 0)) = giveback (hcd hcd_started) @ [(c, 0)]"
    "actual_length c = actual_length ?u2"
    using oz_complete_urb_giveback[of hcd_started ?u2 0] by blast
  have g0: "giveback (hcd hcd_started) = []" by (simp add: hcd_started_def)
  have "write_units ?e [?x] = Some ?e1" using w by simp
  moreover have "read_units hcd_started ?e1 [?u] = Some (oz_complete_urb hcd_started ?u2 0, ?e2)"
    using rd by (simp add: oz_complete_buffered_urb_def)
  ultimately show ?thesis
    using c g0 by (simp add: round_trip_def urb_data_def)
qed

subsection \<open>The round trip\<close>

text \<open>
  C2, as the code has it. Units of at most 255 bytes each, written by
  \<^verbatim>\<open>oz_hcd_buffer_data\<close> into a ring whose cursors coincide, every write succeeding, and
  read back in order by \<^verbatim>\<open>oz_complete_buffered_urb\<close> into URBs that each have room for
  the unit they receive, come back with their bytes and their lengths, wherever the cursors
  were, so also when a unit wraps past the end of the buffer.
\<close>

theorem ring_round_trip:
  assumes "ep_buffer_ok ep" and "in_ix ep = out_ix ep"
    and "\<forall>x\<in>set units. length x \<le> 255"
    and "write_units ep units \<noteq> None"
    and "list_all2 (\<lambda>u x. urb_room u (length x)) urbs units"
  shows "round_trip h ep units urbs = Some units"
proof -
  from assms(4) obtain ep1 where w: "write_units ep units = Some ep1" by auto
  have "ring_holds ep []" using assms(1,2) by (rule ring_holds_empty)
  from write_units_holds[OF this w assms(3)] have h1: "ring_holds ep1 (concat (map stored_unit units))"
    by simp
  from read_units_holds[OF h1 assms(3,5), of h] obtain h' ep' cs where
    r: "read_units h ep1 urbs = Some (h', ep')" and
    g: "giveback (hcd h') = giveback (hcd h) @ cs" and m: "map urb_data cs = units"
    by blast
  show ?thesis using w r g m by (simp add: round_trip_def)
qed

theorem ring_round_trip_witness:
  "ep_buffer_ok (oz_ep_alloc 8\<lparr>in_ix := 6, out_ix := 6\<rparr>) \<and>
   write_units (oz_ep_alloc 8\<lparr>in_ix := 6, out_ix := 6\<rparr>) [[1, 2, 3], [4]] \<noteq> None \<and>
   round_trip hcd_started (oz_ep_alloc 8\<lparr>in_ix := 6, out_ix := 6\<rparr>) [[1, 2, 3], [4]]
     [urb_zero\<lparr>transfer_buffer := [0, 0, 0], transfer_buffer_length := 3\<rparr>,
      urb_zero\<lparr>transfer_buffer := [0, 0], transfer_buffer_length := 2\<rparr>]
   = Some [[1, 2, 3], [4]]"
proof -
  let ?e = "oz_ep_alloc 8\<lparr>in_ix := 6, out_ix := 6\<rparr>"
  have ok: "ep_buffer_ok ?e" and eq: "in_ix ?e = out_ix ?e"
    by (simp_all add: ep_buffer_ok_def oz_ep_alloc_def)
  have w: "write_units ?e [[1, 2, 3], [4]] \<noteq> None"
    by (simp add: example_write_wrap example_write_second)
  show ?thesis
    using ring_round_trip[OF ok eq _ w, of
        "[urb_zero\<lparr>transfer_buffer := [0, 0, 0], transfer_buffer_length := 3\<rparr>,
          urb_zero\<lparr>transfer_buffer := [0, 0], transfer_buffer_length := 2\<rparr>]" hcd_started] ok w
    by (simp add: urb_room_def)
qed

text \<open>
  C2 as stated fails: a unit of 256 bytes is written with success and read back as a unit
  of no bytes, since the length byte holds 256 modulo 256; and a unit of three bytes read
  into a URB of two bytes comes back as two bytes.
\<close>

theorem ring_round_trip_counterexample:
  "round_trip hcd_started (oz_ep_alloc 512) [replicate 256 1]
     [urb_zero\<lparr>transfer_buffer := replicate 256 0, transfer_buffer_length := 256\<rparr>] = Some [[]] \<and>
   round_trip hcd_started (oz_ep_alloc 8\<lparr>in_ix := 6, out_ix := 6\<rparr>) [[1, 2, 3]]
     [urb_zero\<lparr>transfer_buffer := [0, 0], transfer_buffer_length := 2\<rparr>] = Some [[1, 2]]"
  using example_round_trip_256 example_round_trip_short_urb by simp


subsection \<open>What the pool and the completion leave alone\<close>

lemma oz_free_urb_link_frame [simp]:
  "ports (oz_free_urb_link h l) = ports h" "hcd (oz_free_urb_link h l) = hcd h"
  "conn_port (oz_free_urb_link h l) = conn_port h"
  "urb_pending_list (oz_free_urb_link h l) = urb_pending_list h"
  "urb_cancel_list (oz_free_urb_link h l) = urb_cancel_list h"
  by (auto simp: oz_free_urb_link_def split: option.splits)

lemma oz_alloc_urb_link_frame:
  assumes "oz_alloc_urb_link h = (r, h1)"
  shows "ports h1 = ports h" "hcd h1 = hcd h" "conn_port h1 = conn_port h"
    "urb_pending_list h1 = urb_pending_list h" "urb_cancel_list h1 = urb_cancel_list h"
  using assms by (auto simp: oz_alloc_urb_link_def split: list.splits)

lemma port_at_cong: "ports h1 = ports h \<Longrightarrow> port_at h1 i = port_at h i"
  by (simp add: port_at_def)

lemma oz_enqueue_ep_urb_error:
  assumes "oz_enqueue_ep_urb h pi ep_addr in_dir u rid now = Some (rc, h1)" and "rc \<noteq> 0"
  shows "rc \<in> {- EINVAL, - ENOMEM, - EPIPE}" and "hcd h1 = hcd h" and "ports h1 = ports h"
  using assms
  by (auto simp: oz_enqueue_ep_urb_def Let_def oz_alloc_urb_link_frame
           split: if_splits prod.splits option.splits)


lemma port_at_set_port:
  "port_at h i = Some p \<Longrightarrow> port_at (set_port h i q) i = Some q"
  by (auto simp: port_at_def set_port_def split: if_splits)

lemma set_port_frame [simp]:
  "hcd (set_port h i q) = hcd h" "conn_port (set_port h i q) = conn_port h"
  "length (ports (set_port h i q)) = length (ports h)"
  by (simp_all add: set_port_def)


subsection \<open>URB submission without a device\<close>

text \<open>
  C1. \<^verbatim>\<open>oz_hcd_urb_enqueue\<close> returns \<^verbatim>\<open>-ENODEV\<close> and leaves the controller, so also
  the pending list, as it was, when the host controller is not in the running state, when
  the bus address of the URB resolves to no port, or when the port it resolves to has its
  present flag clear.
\<close>

theorem oz_hcd_urb_enqueue_no_device:
  assumes "hc_state (hcd h) \<noteq> HC_STATE_RUNNING \<or>
           oz_get_port_from_addr h (pipe_device u) < 0 \<or>
           (\<exists>port. port_at h (oz_get_port_from_addr h (pipe_device u)) = Some port \<and>
                   port_flags port AND OZ_PORT_F_PRESENT = 0)"
  shows "oz_hcd_urb_enqueue h u link_rc = Some (- ENODEV, h)"
  using assms by (auto simp: oz_hcd_urb_enqueue_def Let_def)

theorem oz_hcd_urb_enqueue_no_device_witness:
  "port_at (hcd_started\<lparr>ports := (ports hcd_started)[2 := port_probed\<lparr>bus_addr := 5\<rparr>]\<rparr>)
     (oz_get_port_from_addr (hcd_started\<lparr>ports := (ports hcd_started)[2 := port_probed\<lparr>bus_addr := 5\<rparr>]\<rparr>)
        (pipe_device (urb_zero\<lparr>pipe_device := 5, pipe_endpoint := 1\<rparr>)))
     = Some (port_probed\<lparr>bus_addr := 5\<rparr>) \<and>
   port_flags (port_probed\<lparr>bus_addr := 5\<rparr>) AND OZ_PORT_F_PRESENT = 0 \<and>
   oz_hcd_urb_enqueue (hcd_started\<lparr>ports := (ports hcd_started)[2 := port_probed\<lparr>bus_addr := 5\<rparr>]\<rparr>)
     (urb_zero\<lparr>pipe_device := 5, pipe_endpoint := 1\<rparr>) 0
     = Some (- ENODEV, hcd_started\<lparr>ports := (ports hcd_started)[2 := port_probed\<lparr>bus_addr := 5\<rparr>]\<rparr>) \<and>
   urb_pending_list (hcd_started\<lparr>ports := (ports hcd_started)[2 := port_probed\<lparr>bus_addr := 5\<rparr>]\<rparr>) = []"
proof -
  let ?h = "hcd_started\<lparr>ports := (ports hcd_started)[2 := port_probed\<lparr>bus_addr := 5\<rparr>]\<rparr>"
  let ?u = "urb_zero\<lparr>pipe_device := 5, pipe_endpoint := 1\<rparr>"
  have ix: "oz_get_port_from_addr ?h (pipe_device ?u) = 2"
    by (simp add: oz_get_port_from_addr_def hcd_started_def OZ_NB_PORTS_def replicate_8
          port_probed_def urb_zero_def)
  have pa: "port_at ?h 2 = Some (port_probed\<lparr>bus_addr := 5\<rparr>)"
    by (simp add: port_at_def hcd_started_def OZ_NB_PORTS_def)
  have fl: "port_flags (port_probed\<lparr>bus_addr := 5\<rparr>) AND OZ_PORT_F_PRESENT = 0"
    by (simp add: port_probed_def)
  show ?thesis
    using oz_hcd_urb_enqueue_no_device[of ?h ?u 0] ix pa fl
    by (simp add: hcd_started_def)
qed


subsection \<open>SET_ADDRESS\<close>

lemma ports_two_peers:
  "ports hcd_two_peers = [port_probed, port_attached 1 5, port_attached 2 0, port_probed,
                          port_probed, port_probed, port_probed, port_probed]"
  by (simp add: hcd_two_peers_def hcd_started_def OZ_NB_PORTS_def replicate_8)

lemma conn_two_peers: "conn_port hcd_two_peers = 2"
  by (simp add: hcd_two_peers_def)

lemma example_resolve:
  "oz_get_port_from_addr hcd_two_peers 5 = 1" "oz_get_port_from_addr hcd_two_peers 0 = 2"
  by (simp_all add: oz_get_port_from_addr_def ports_two_peers port_probed_def port_attached_def
        conn_two_peers)

lemma example_set_address_other_port:
  "map_option (map bus_addr \<circ> ports) (oz_process_ep0_urb hcd_two_peers (urb_set_address 5) 0 0)
     = Some [0xff, 5, 9, 0xff, 0xff, 0xff, 0xff, 0xff]"
  "map_option conn_port (oz_process_ep0_urb hcd_two_peers (urb_set_address 5) 0 0) = Some (- 1)"
  "map_option (map snd \<circ> giveback \<circ> hcd)
     (oz_process_ep0_urb hcd_two_peers (urb_set_address 5) 0 0) = Some [0]"
  apply (simp_all add: oz_process_ep0_urb_def example_resolve urb_set_address_def urb_zero_def Let_def
      port_at_def ports_two_peers)
  apply (simp_all add: port_attached_def port_probed_def OZ_PORT_F_PRESENT_def OZ_PORT_F_CHANGED_def
      OZ_PORT_F_DYING_def set_port_def ports_two_peers oz_ep0_standard_def Let_def
      USB_TYPE_MASK_def USB_TYPE_STANDARD_def USB_REQ_SET_ADDRESS_def port_at_def conn_two_peers)
  apply (simp_all add: oz_complete_urb_def oz_uncancel_urb_def oz_free_urb_link_def Let_def
      hcd_two_peers_def hcd_started_def)
  done

lemma oz_complete_urb_ports:
  "ports (oz_complete_urb h u st) = ports h" "conn_port (oz_complete_urb h u st) = conn_port h"
  by (rule oz_complete_urb_frame)+

text \<open>
  C6, as the code has it. When a SET_ADDRESS request is processed for a port (present, not
  dying, its peer attached), the URB is completed at once with status 0. If there is a
  connection port, the requested address (the low byte of \<^verbatim>\<open>wValue\<close>) is assigned to the
  connection port, whichever port the URB was resolved to, and the connection-port slot
  is cleared; no other port changes its address. If there is none, no address changes.
  A URB sent to the bus address 0 resolves to the connection port itself.
\<close>

theorem oz_process_ep0_urb_set_address:
  assumes port: "port_at h (oz_get_port_from_addr h (pipe_device u)) = Some port"
    and present: "port_flags port AND OZ_PORT_F_PRESENT \<noteq> 0"
    and alive: "port_flags port AND OZ_PORT_F_DYING = 0"
    and peer: "hpd port \<noteq> None"
    and std: "bRequestType (setup_packet u) AND USB_TYPE_MASK = USB_TYPE_STANDARD"
    and req: "bRequest (setup_packet u) = USB_REQ_SET_ADDRESS"
    and cp: "conn_port h < int (length (ports h))"
  shows "\<exists>h' u'. oz_process_ep0_urb h u ctrl_rc now = Some h' \<and>
           giveback (hcd h') = giveback (hcd h) @ [(u', 0)] \<and> urb_id u' = urb_id u \<and>
           length (ports h') = length (ports h) \<and>
           (0 \<le> conn_port h \<longrightarrow>
              conn_port h' = -1 \<and>
              (\<forall>i < length (ports h).
                 bus_addr (ports h' ! i) =
                   (if int i = conn_port h then ucast (wValue (setup_packet u))
                    else bus_addr (ports h ! i)))) \<and>
           (conn_port h < 0 \<longrightarrow>
              conn_port h' = conn_port h \<and>
              (\<forall>i < length (ports h). bus_addr (ports h' ! i) = bus_addr (ports h ! i)))"
proof -
  let ?ix = "oz_get_port_from_addr h (pipe_device u)"
  have ix: "0 \<le> ?ix" "?ix < int (length (ports h))" and p: "port = ports h ! nat ?ix"
    using port by (auto simp: port_at_def split: if_splits)
  let ?u1 = "u\<lparr>hcpriv := Some (nat ?ix)\<rparr>"
  let ?p1 = "port\<lparr>next_req_id := next_req_id port + 1\<rparr>"
  let ?h1 = "set_port h ?ix ?p1"
  have h1: "conn_port ?h1 = conn_port h" "length (ports ?h1) = length (ports h)"
    "giveback (hcd ?h1) = giveback (hcd h)"
    "\<And>i. i < length (ports h) \<Longrightarrow> bus_addr (ports ?h1 ! i) = bus_addr (ports h ! i)"
    using ix p by (auto simp: set_port_def nth_list_update)
  show ?thesis
  proof (cases "0 \<le> conn_port h")
    case True
    let ?c = "conn_port h"
    let ?cp = "ports ?h1 ! nat ?c"
    let ?h2 = "(set_port ?h1 ?c (?cp\<lparr>bus_addr := ucast (wValue (setup_packet u))\<rparr>))\<lparr>conn_port := -1\<rparr>"
    have pc: "port_at ?h1 ?c = Some ?cp" using True cp h1 by (simp add: port_at_def)
    have st: "oz_ep0_standard ?h1 ?p1 ?u1 = Some (?h2, ?u1, 0, True)"
      using std req True pc by (simp add: oz_ep0_standard_def Let_def USB_TYPE_STANDARD_def h1(1))
    have r: "oz_process_ep0_urb h u ctrl_rc now = Some (oz_complete_urb ?h2 ?u1 0)"
      using ix port present alive peer st
      by (auto simp: oz_process_ep0_urb_def Let_def)
    obtain u' where u': "giveback (hcd (oz_complete_urb ?h2 ?u1 0)) = giveback (hcd ?h2) @ [(u', 0)]"
      "urb_id u' = urb_id ?u1"
      using oz_complete_urb_giveback[of ?h2 ?u1 0] by blast
    have g2: "giveback (hcd ?h2) = giveback (hcd h)" using h1 by (simp add: set_port_def)
    have b: "\<forall>i < length (ports h). bus_addr (ports ?h2 ! i) =
               (if int i = ?c then ucast (wValue (setup_packet u)) else bus_addr (ports h ! i))"
      using True cp h1 by (auto simp: set_port_def nth_list_update)
    show ?thesis
      using True r u' g2 b h1(2)
      by (auto simp: oz_complete_urb_frame set_port_def)
  next
    case False
    have st: "oz_ep0_standard ?h1 ?p1 ?u1 = Some (?h1, ?u1, 0, True)"
      using std req False by (simp add: oz_ep0_standard_def Let_def USB_TYPE_STANDARD_def h1(1))
    have r: "oz_process_ep0_urb h u ctrl_rc now = Some (oz_complete_urb ?h1 ?u1 0)"
      using ix port present alive peer st
      by (auto simp: oz_process_ep0_urb_def Let_def)
    obtain u' where u': "giveback (hcd (oz_complete_urb ?h1 ?u1 0)) = giveback (hcd ?h1) @ [(u', 0)]"
      "urb_id u' = urb_id ?u1"
      using oz_complete_urb_giveback[of ?h1 ?u1 0] by blast
    show ?thesis
      using False r u' h1
      by (auto simp: oz_complete_urb_frame)
  qed
qed

theorem oz_process_ep0_urb_set_address_witness:
  "port_at hcd_two_peers (oz_get_port_from_addr hcd_two_peers (pipe_device (urb_set_address 0)))
     = Some (port_attached 2 0) \<and>
   (\<exists>h' u'. oz_process_ep0_urb hcd_two_peers (urb_set_address 0) 0 0 = Some h' \<and>
            giveback (hcd h') = [(u', 0)] \<and> conn_port h' = -1 \<and>
            bus_addr (ports h' ! 2) = 9 \<and> bus_addr (ports h' ! 1) = 5)"
proof -
  let ?u = "urb_set_address 0"
  have dev: "pipe_device ?u = 0" by (simp add: urb_set_address_def)
  have port: "port_at hcd_two_peers (oz_get_port_from_addr hcd_two_peers (pipe_device ?u))
                = Some (port_attached 2 0)"
    by (simp add: dev example_resolve port_at_def ports_two_peers)
  have present: "port_flags (port_attached 2 0) AND OZ_PORT_F_PRESENT \<noteq> 0"
    and alive: "port_flags (port_attached 2 0) AND OZ_PORT_F_DYING = 0"
    and peer: "hpd (port_attached 2 0) \<noteq> None"
    by (simp_all add: port_attached_def OZ_PORT_F_PRESENT_def OZ_PORT_F_CHANGED_def
          OZ_PORT_F_DYING_def)
  have std: "bRequestType (setup_packet ?u) AND USB_TYPE_MASK = USB_TYPE_STANDARD"
    and req: "bRequest (setup_packet ?u) = USB_REQ_SET_ADDRESS"
    by (simp_all add: urb_set_address_def USB_TYPE_STANDARD_def)
  have cp: "conn_port hcd_two_peers < int (length (ports hcd_two_peers))"
    by (simp add: conn_two_peers ports_two_peers)
  have g: "giveback (hcd hcd_two_peers) = []" by (simp add: hcd_two_peers_def hcd_started_def)
  have w: "ucast (wValue (setup_packet ?u)) = (9 :: u8)" by (simp add: urb_set_address_def)
  have b1: "bus_addr (ports hcd_two_peers ! 1) = 5"
    by (simp add: ports_two_peers port_attached_def)
  from oz_process_ep0_urb_set_address[OF port present alive peer std req cp, of 0 0]
  obtain h' u' where r: "oz_process_ep0_urb hcd_two_peers ?u 0 0 = Some h'"
    "giveback (hcd h') = giveback (hcd hcd_two_peers) @ [(u', 0)]"
    "conn_port h' = -1"
    "\<forall>i<length (ports hcd_two_peers). bus_addr (ports h' ! i) =
        (if int i = conn_port hcd_two_peers then ucast (wValue (setup_packet ?u))
         else bus_addr (ports hcd_two_peers ! i))"
    by (auto simp: conn_two_peers)
  have "bus_addr (ports h' ! 2) = 9" "bus_addr (ports h' ! 1) = 5"
    using r(4) w b1 by (simp_all add: conn_two_peers ports_two_peers)
  then show ?thesis using port r g by auto
qed

text \<open>
  C6 as stated fails: a SET_ADDRESS request sent to the device with the address 5, which
  is port 1, while port 2 is the connection port, assigns the address 9 to port 2 and
  clears the connection-port slot, though port 1 is not the connection port.
\<close>

theorem oz_process_ep0_urb_set_address_counterexample:
  "oz_get_port_from_addr hcd_two_peers (pipe_device (urb_set_address 5)) = 1 \<and>
   conn_port hcd_two_peers = 2 \<and>
   map_option (map bus_addr \<circ> ports) (oz_process_ep0_urb hcd_two_peers (urb_set_address 5) 0 0)
     = Some [0xff, 5, 9, 0xff, 0xff, 0xff, 0xff, 0xff] \<and>
   map_option conn_port (oz_process_ep0_urb hcd_two_peers (urb_set_address 5) 0 0) = Some (- 1) \<and>
   map_option (map snd \<circ> giveback \<circ> hcd)
     (oz_process_ep0_urb hcd_two_peers (urb_set_address 5) 0 0) = Some [0]"
  using example_set_address_other_port
  by (simp add: example_resolve conn_two_peers urb_set_address_def)


subsection \<open>Endpoint enqueue on an interrupt endpoint with buffered data\<close>

lemma ports_int_unit:
  "ports hcd_int_unit = [port_probed,
     (port_attached 1 5)\<lparr>in_ep := (\<lambda>i. if i = 1 then Some ep_int_one_unit else None)\<rparr>,
     port_probed, port_probed, port_probed, port_probed, port_probed, port_probed]"
  by (simp add: hcd_int_unit_def hcd_started_def OZ_NB_PORTS_def replicate_8)

lemma result_fst: "map_option fst r = Some a \<Longrightarrow> r = Some (a, snd (the r))"
  by (cases r) auto

lemma example_enqueue_unlinked:
  "oz_enqueue_ep_urb hcd_int_unit 1 1 True (urb_int_in\<lparr>unlinked := - 104\<rparr>) 0 0
   = Some (0, hcd_int_unit\<lparr>kmalloc_links := [],
                 hcd := \<lparr>hc_state = HC_STATE_RUNNING,
                         giveback = [(urb_int_in\<lparr>unlinked := - 104, hcpriv := None\<rparr>, 0)]\<rparr>,
                 g_link_pool := [link_zero\<lparr>submit_counter := 0,
                                   urbl_urb := urb_int_in\<lparr>unlinked := - 104\<rparr>,
                                   req_id := 0, urbl_ep_num := 1\<rparr>]\<rparr>)"
  apply (simp add: oz_enqueue_ep_urb_def OZ_NB_ENDPOINTS_def oz_alloc_urb_link_def Let_def)
  apply (simp add: hcd_int_unit_def hcd_started_def urb_int_in_def urb_zero_def
      oz_complete_urb_def oz_uncancel_urb_def oz_free_urb_link_def Let_def OZ_MAX_LINK_POOL_SIZE_def)
  done

lemma example_enqueue_no_memory:
  "oz_enqueue_ep_urb (hcd_int_unit\<lparr>kmalloc_links := []\<rparr>) 1 1 True urb_int_in 0 0
   = Some (- ENOMEM, hcd_int_unit\<lparr>kmalloc_links := []\<rparr>)"
  by (simp add: oz_enqueue_ep_urb_def OZ_NB_ENDPOINTS_def oz_alloc_urb_link_def Let_def
      hcd_int_unit_def hcd_started_def)

lemma example_ep_in_unchanged:
  "ep_in 1 1 (hcd_int_unit\<lparr>kmalloc_links := [],
                 hcd := \<lparr>hc_state = HC_STATE_RUNNING,
                         giveback = [(urb_int_in\<lparr>unlinked := - 104, hcpriv := None\<rparr>, 0)]\<rparr>,
                 g_link_pool := [link_zero\<lparr>submit_counter := 0,
                                   urbl_urb := urb_int_in\<lparr>unlinked := - 104\<rparr>,
                                   req_id := 0, urbl_ep_num := 1\<rparr>]\<rparr>) = Some ep_int_one_unit"
  by (simp add: ep_in_def port_at_def ports_int_unit)

text \<open>
  C7, as the code has it. A call of \<^verbatim>\<open>oz_enqueue_ep_urb\<close> with an endpoint number below
  16, for which a link is allocated and whose URB is not marked unlinked, that targets an
  existing interrupt endpoint with a buffered unit (the buffer well formed, the unit at
  the read cursor fitting it) drains that unit into the URB: as many of its bytes as the
  URB's \<^verbatim>\<open>transfer_buffer_length\<close> takes. The URB is completed at once with status 0,
  the queue of the endpoint is as it was, the read cursor has advanced past what was
  copied, and the count of buffered units has gone down by one.
\<close>

theorem oz_enqueue_ep_urb_buffered_interrupt:
  assumes ep_addr: "unat ep_addr < OZ_NB_ENDPOINTS"
    and alloc: "fst (oz_alloc_urb_link h) \<noteq> None"
    and live: "unlinked u = 0"
    and port: "port_at h (int pi) = Some port"
    and ep: "(if in_dir then in_ep port else out_ep port) (unat ep_addr) = Some ep"
    and intr: "attrib ep AND USB_ENDPOINT_XFERTYPE_MASK = USB_ENDPOINT_XFER_INT"
    and units: "0 < buffered_units ep"
    and ok: "ep_buffer_ok ep"
    and fits: "uint (buffer ep ! nat (out_ix ep)) < buffer_size ep"
    and tb: "transfer_buffer_length u \<le> length (transfer_buffer u)"
    and A: "A = min (unat (buffer ep ! nat (out_ix ep))) (transfer_buffer_length u)"
  shows "\<exists>h' u' port'.
           oz_enqueue_ep_urb h pi ep_addr in_dir u rid now = Some (0, h') \<and>
           giveback (hcd h') = giveback (hcd h) @ [(u', 0)] \<and> urb_id u' = urb_id u \<and>
           actual_length u' = A \<and>
           transfer_buffer u' =
             ring_seg (buffer ep) (nat ((out_ix ep + 1) mod buffer_size ep)) A
             @ drop A (transfer_buffer u) \<and>
           port_at h' (int pi) = Some port' \<and>
           (if in_dir then in_ep port' else out_ep port') (unat ep_addr) =
             Some (ep\<lparr>out_ix := (out_ix ep + 1 + int A) mod buffer_size ep,
                      buffered_units := buffered_units ep - 1\<rparr>)"
proof -
  obtain l h1 where al: "oz_alloc_urb_link h = (Some l, h1)"
    using alloc by (cases "oz_alloc_urb_link h") auto
  note fr = oz_alloc_urb_link_frame[OF al]
  let ?urbl = "l\<lparr>submit_counter := 0, urbl_urb := u, req_id := rid, urbl_ep_num := ep_addr\<rparr>"
  let ?h2 = "oz_free_urb_link h1 (Some ?urbl)"
  let ?ep = "ep\<lparr>out_ix := (out_ix ep + 1 + int A) mod buffer_size ep,
                 buffered_units := buffered_units ep - 1\<rparr>"
  let ?u = "u\<lparr>transfer_buffer :=
               ring_seg (buffer ep) (nat ((out_ix ep + 1) mod buffer_size ep)) A
               @ drop A (transfer_buffer u),
             actual_length := A\<rparr>"
  have "A \<le> unat (buffer ep ! nat (out_ix ep))" using A by simp
  then have "int A \<le> uint (buffer ep ! nat (out_ix ep))"
    by (metis of_nat_le_iff of_nat_unat)
  then have fitsA: "int A \<le> buffer_size ep" using fits by linarith
  have tbA: "A \<le> length (transfer_buffer u)" using tb A by simp
  have rd: "oz_buffered_unit_to_urb ep u = Some (?ep, ?u)"
    by (rule oz_buffered_unit_to_urb_read[OF ok A fitsA tbA])
  have cb: "oz_complete_buffered_urb ?h2 ep u = Some (oz_complete_urb ?h2 ?u 0, ?ep)"
    by (simp add: oz_complete_buffered_urb_def rd)
  have p1: "port_at h1 (int pi) = Some port" using port port_at_cong[OF fr(1)] by simp
  let ?port = "(if in_dir then port\<lparr>in_ep := (in_ep port)(unat ep_addr := Some ?ep)\<rparr>
               else port\<lparr>out_ep := (out_ep port)(unat ep_addr := Some ?ep)\<rparr>)"
  let ?h' = "set_port (oz_complete_urb ?h2 ?u 0) (int pi) ?port"
  have r: "oz_enqueue_ep_urb h pi ep_addr in_dir u rid now = Some (0, ?h')"
    using ep_addr al live p1 ep intr units cb
    by (auto simp: oz_enqueue_ep_urb_def Let_def)
  obtain u' where u': "giveback (hcd (oz_complete_urb ?h2 ?u 0)) = giveback (hcd ?h2) @ [(u', 0)]"
    "transfer_buffer u' = transfer_buffer ?u" "actual_length u' = actual_length ?u"
    "urb_id u' = urb_id ?u"
    using oz_complete_urb_giveback[of ?h2 ?u 0] by blast
  have pc: "port_at (oz_complete_urb ?h2 ?u 0) (int pi) = Some port"
    using p1 port_at_cong[of "oz_complete_urb ?h2 ?u 0" h1 "int pi"]
    by (simp add: oz_complete_urb_frame)
  have "port_at ?h' (int pi) = Some ?port" by (rule port_at_set_port[OF pc])
  moreover have "(if in_dir then in_ep ?port else out_ep ?port) (unat ep_addr) = Some ?ep"
    by simp
  moreover have "giveback (hcd ?h') = giveback (hcd h) @ [(u', 0)]"
    using u'(1) fr(2) by simp
  ultimately show ?thesis using r u' by (intro exI[of _ ?h'] exI[of _ u'] exI[of _ ?port]) simp
qed

theorem oz_enqueue_ep_urb_buffered_interrupt_witness:
  "ep_buffer_ok ep_int_one_unit \<and> 0 < buffered_units ep_int_one_unit \<and>
   (\<exists>h' u' port'.
      oz_enqueue_ep_urb hcd_int_unit 1 1 True urb_int_in 0 0 = Some (0, h') \<and>
      giveback (hcd h') = [(u', 0)] \<and> actual_length u' = 3 \<and>
      transfer_buffer u' = [1, 2, 3, 0] \<and> port_at h' 1 = Some port' \<and>
      map_option buffered_units (in_ep port' 1) = Some 0 \<and>
      map_option urb_list (in_ep port' 1) = Some [] \<and>
      map_option out_ix (in_ep port' 1) = Some 4)"
proof -
  let ?port = "(port_attached 1 5)\<lparr>in_ep := (\<lambda>i. if i = 1 then Some ep_int_one_unit else None)\<rparr>"
  have a1: "unat (1 :: u8) < OZ_NB_ENDPOINTS" by (simp add: OZ_NB_ENDPOINTS_def)
  have a2: "fst (oz_alloc_urb_link hcd_int_unit) \<noteq> None"
    by (simp add: oz_alloc_urb_link_def hcd_int_unit_def hcd_started_def)
  have a3: "unlinked urb_int_in = 0" by (simp add: urb_int_in_def urb_zero_def)
  have a4: "port_at hcd_int_unit (int 1) = Some ?port"
    by (simp add: port_at_def ports_int_unit)
  have a5: "(if True then in_ep ?port else out_ep ?port) (unat (1 :: u8)) = Some ep_int_one_unit"
    by simp
  have a6: "attrib ep_int_one_unit AND USB_ENDPOINT_XFERTYPE_MASK = USB_ENDPOINT_XFER_INT"
    by (simp add: ep_int_one_unit_def USB_ENDPOINT_XFERTYPE_MASK_def USB_ENDPOINT_XFER_INT_def)
  have a7: "0 < buffered_units ep_int_one_unit" by (simp add: ep_int_one_unit_def)
  have a8: "ep_buffer_ok ep_int_one_unit"
    by (simp add: ep_int_one_unit_def ep_buffer_ok_def oz_ep_alloc_def)
  have a9: "uint (buffer ep_int_one_unit ! nat (out_ix ep_int_one_unit)) < buffer_size ep_int_one_unit"
    by (simp add: ep_int_one_unit_def oz_ep_alloc_def)
  have a10: "transfer_buffer_length urb_int_in \<le> length (transfer_buffer urb_int_in)"
    by (simp add: urb_int_in_def)
  have a11: "(3 :: nat) = min (unat (buffer ep_int_one_unit ! nat (out_ix ep_int_one_unit)))
                             (transfer_buffer_length urb_int_in)"
    by (simp add: ep_int_one_unit_def oz_ep_alloc_def urb_int_in_def)
  have seg: "ring_seg (buffer ep_int_one_unit)
               (nat ((out_ix ep_int_one_unit + 1) mod buffer_size ep_int_one_unit)) 3
             @ drop 3 (transfer_buffer urb_int_in) = [1, 2, 3, 0]"
    by (simp add: ep_int_one_unit_def oz_ep_alloc_def urb_int_in_def ring_seg_def upt_rec)
  have g: "giveback (hcd hcd_int_unit) = []" by (simp add: hcd_int_unit_def hcd_started_def)
  have e: "buffered_units ep_int_one_unit - 1 = 0" "urb_list ep_int_one_unit = []"
    "(out_ix ep_int_one_unit + 1 + int 3) mod buffer_size ep_int_one_unit = 4"
    by (simp_all add: ep_int_one_unit_def oz_ep_alloc_def)
  from oz_enqueue_ep_urb_buffered_interrupt[OF a1 a2 a3 a4 a5 a6 a7 a8 a9 a10 a11, of 0 0]
  obtain h' u' port' where r:
    "oz_enqueue_ep_urb hcd_int_unit 1 1 True urb_int_in 0 0 = Some (0, h')"
    "giveback (hcd h') = giveback (hcd hcd_int_unit) @ [(u', 0)]"
    "actual_length u' = 3"
    "transfer_buffer u' = ring_seg (buffer ep_int_one_unit)
               (nat ((out_ix ep_int_one_unit + 1) mod buffer_size ep_int_one_unit)) 3
             @ drop 3 (transfer_buffer urb_int_in)"
    "port_at h' (int 1) = Some port'"
    "in_ep port' (unat (1 :: u8)) =
       Some (ep_int_one_unit\<lparr>out_ix := (out_ix ep_int_one_unit + 1 + int 3) mod buffer_size ep_int_one_unit,
                              buffered_units := buffered_units ep_int_one_unit - 1\<rparr>)"
    by auto
  show ?thesis
    using a8 a7 r g seg e
    by (intro conjI exI[of _ h'] exI[of _ u'] exI[of _ port']) simp_all
qed

text \<open>
  C7 as stated fails: for a URB that was unlinked before the call, the call completes the
  URB with status 0 and drains nothing, and the endpoint keeps its buffered unit; and
  when no link can be allocated, the call returns \<^verbatim>\<open>-ENOMEM\<close> and changes nothing.
\<close>

theorem oz_enqueue_ep_urb_buffered_interrupt_counterexample:
  "map_option fst (oz_enqueue_ep_urb hcd_int_unit 1 1 True (urb_int_in\<lparr>unlinked := - 104\<rparr>) 0 0)
     = Some 0 \<and>
   map_option (map (actual_length \<circ> fst) \<circ> giveback \<circ> hcd \<circ> snd)
     (oz_enqueue_ep_urb hcd_int_unit 1 1 True (urb_int_in\<lparr>unlinked := - 104\<rparr>) 0 0) = Some [0] \<and>
   Option.bind (map_option snd
     (oz_enqueue_ep_urb hcd_int_unit 1 1 True (urb_int_in\<lparr>unlinked := - 104\<rparr>) 0 0)) (ep_in 1 1)
     = Some ep_int_one_unit \<and>
   buffered_units ep_int_one_unit = 1 \<and>
   oz_enqueue_ep_urb (hcd_int_unit\<lparr>kmalloc_links := []\<rparr>) 1 1 True urb_int_in 0 0
     = Some (- ENOMEM, hcd_int_unit\<lparr>kmalloc_links := []\<rparr>)"
  apply (simp only: example_enqueue_unlinked example_enqueue_no_memory option.map_sel
      option.simps fst_conv snd_conv bind.bind_lunit example_ep_in_unchanged)
  apply (simp add: urb_int_in_def urb_zero_def ep_int_one_unit_def)
  done


subsection \<open>Errors of endpoint enqueue in deferred processing\<close>

lemma oz_alloc_after_free:
  "\<exists>l h'. oz_alloc_urb_link (oz_free_urb_link h (Some urbl)) = (Some l, h') \<and> hcd h' = hcd h \<and>
          ports h' = ports h"
  by (auto simp: oz_alloc_urb_link_def oz_free_urb_link_def OZ_MAX_LINK_POOL_SIZE_def
      split: list.splits)

lemma oz_enqueue_ep_urb_after_free:
  assumes "oz_enqueue_ep_urb (oz_free_urb_link h (Some urbl)) pi ep_addr in_dir u rid now
             = Some (rc, h1)" and "rc \<noteq> 0"
  shows "rc \<in> {- EINVAL, - EPIPE}"
proof -
  from oz_alloc_after_free[of h urbl] obtain l h' where
    a: "oz_alloc_urb_link (oz_free_urb_link h (Some urbl)) = (Some l, h')" by blast
  show ?thesis using assms
    by (auto simp: oz_enqueue_ep_urb_def a Let_def split: if_splits option.splits)
qed

lemma oz_complete_urb_grows:
  "\<exists>more. giveback (hcd (oz_complete_urb h u st)) = giveback (hcd h) @ more"
  using oz_complete_urb_giveback[of h u st] by blast

lemma oz_enqueue_ep_urb_grows:
  assumes "oz_enqueue_ep_urb h pi ep_addr in_dir u rid now = Some (rc, h1)"
  shows "\<exists>more. giveback (hcd h1) = giveback (hcd h) @ more"
proof (cases "rc = 0")
  case False
  from oz_enqueue_ep_urb_error(2)[OF assms False] show ?thesis by simp
next
  case True
  obtain r h0 where a: "oz_alloc_urb_link h = (r, h0)" by (cases "oz_alloc_urb_link h")
  note f = oz_alloc_urb_link_frame[OF a]
  have c: "\<And>hh uu st. hcd hh = hcd h \<Longrightarrow>
             \<exists>more. giveback (hcd (oz_complete_urb hh uu st)) = giveback (hcd h) @ more"
    using oz_complete_urb_grows by metis
  show ?thesis using assms f(2) c
    by (auto simp: oz_enqueue_ep_urb_def a Let_def oz_complete_buffered_urb_def
        bind_eq_Some_conv split: if_splits option.splits)
qed


lemma oz_ep0_standard_frame:
  "oz_ep0_standard h port u = Some (h2, u2, rc, c) \<Longrightarrow> hcd h2 = hcd h"
  by (auto simp: oz_ep0_standard_def Let_def split: if_splits option.splits)

lemma oz_process_ep0_urb_grows:
  assumes "oz_process_ep0_urb h u ctrl_rc now = Some h1"
  shows "\<exists>more. giveback (hcd h1) = giveback (hcd h) @ more"
proof -
  have c: "\<And>hh uu st. hcd hh = hcd h \<Longrightarrow>
             \<exists>more. giveback (hcd (oz_complete_urb hh uu st)) = giveback (hcd h) @ more"
    using oz_complete_urb_grows by metis
  have e: "\<And>hh pi ea ind uu rid rc h3. hcd hh = hcd h \<Longrightarrow>
             oz_enqueue_ep_urb hh pi ea ind uu rid now = Some (rc, h3) \<Longrightarrow>
             \<exists>more. giveback (hcd h3) = giveback (hcd h) @ more"
    using oz_enqueue_ep_urb_grows by metis
  have e2: "\<And>hh pi ea ind uu rid rc h3 st. hcd hh = hcd h \<Longrightarrow>
             oz_enqueue_ep_urb hh pi ea ind uu rid now = Some (rc, h3) \<Longrightarrow> rc \<noteq> 0 \<Longrightarrow>
             \<exists>more. giveback (hcd (oz_complete_urb h3 uu st)) = giveback (hcd h) @ more"
    using oz_enqueue_ep_urb_error(2) c by metis
  show ?thesis
  proof (cases "oz_get_port_from_addr h (pipe_device u) < 0")
    case True
    then show ?thesis using assms c by (auto simp: oz_process_ep0_urb_def Let_def)
  next
    case False
    then obtain port where p: "port_at h (oz_get_port_from_addr h (pipe_device u)) = Some port"
      using assms by (auto simp: oz_process_ep0_urb_def Let_def split: option.splits)
    let ?ix = "oz_get_port_from_addr h (pipe_device u)"
    let ?h1 = "set_port h ?ix (port\<lparr>next_req_id := next_req_id port + 1\<rparr>)"
    have h1: "hcd ?h1 = hcd h" by simp
    show ?thesis
    proof (cases "port_flags port AND OZ_PORT_F_PRESENT = 0
                   \<or> port_flags port AND OZ_PORT_F_DYING \<noteq> 0 \<or> hpd port = None")
      case True
      then show ?thesis using assms False p c h1
        by (auto simp: oz_process_ep0_urb_def Let_def split: if_splits)
    next
      case ok: False
      then obtain h2 u2 rc cm where
        s: "oz_ep0_standard ?h1 (port\<lparr>next_req_id := next_req_id port + 1\<rparr>)
              (u\<lparr>hcpriv := Some (nat ?ix)\<rparr>) = Some (h2, u2, rc, cm)"
        using assms False p
        by (auto simp: oz_process_ep0_urb_def Let_def split: if_splits option.splits)
      have h2: "hcd h2 = hcd h" using oz_ep0_standard_frame[OF s] by simp
      show ?thesis using assms False p ok s c[OF h2] e[OF h2] e2[OF h2]
        by (auto simp: oz_process_ep0_urb_def Let_def split: if_splits option.splits)
    qed
  qed
qed

lemma oz_urb_process_grows:
  assumes "oz_urb_process h u ctrl_rc now = Some (rc, h1)"
  shows "\<exists>more. giveback (hcd h1) = giveback (hcd h) @ more"
  using assms oz_enqueue_ep_urb_grows[of h _ _ _ u 0 now] oz_process_ep0_urb_grows[of h u ctrl_rc now]
  by (auto simp: oz_urb_process_def Let_def split: if_splits option.splits)

lemma oz_urb_process_pending_grows:
  "oz_urb_process_pending q h ctrl_rc now = Some h' \<Longrightarrow>
   \<exists>more. giveback (hcd h') = giveback (hcd h) @ more"
proof (induction q arbitrary: h)
  case Nil
  then show ?case by simp
next
  case (Cons urbl rest)
  let ?u = "urbl_urb urbl"
  let ?h2 = "oz_free_urb_link (h\<lparr>urb_pending_list := rest\<rparr>) (Some urbl)"
  from Cons.prems obtain rc h3 where
    p: "oz_urb_process ?h2 ?u (ctrl_rc (urb_id ?u)) now = Some (rc, h3)" and
    r: "oz_urb_process_pending rest (if rc \<noteq> 0 then oz_complete_urb h3 ?u rc else h3) ctrl_rc now
          = Some h'"
    by (auto simp: Let_def split: option.splits)
  from oz_urb_process_grows[OF p] obtain m1 where
    m1: "giveback (hcd h3) = giveback (hcd h) @ m1" by auto
  from oz_complete_urb_grows[of h3 ?u rc] obtain m2 where
    m2: "giveback (hcd (oz_complete_urb h3 ?u rc)) = giveback (hcd h3) @ m2" by blast
  from Cons.IH[OF r] obtain m3 where
    m3: "giveback (hcd h') =
           giveback (hcd (if rc \<noteq> 0 then oz_complete_urb h3 ?u rc else h3)) @ m3" by blast
  show ?case using m1 m2 m3 by (cases "rc = 0") auto
qed

lemma example_pending_enqueue:
  "map_option fst
     (oz_enqueue_ep_urb
        (oz_free_urb_link (hcd_pending\<lparr>urb_pending_list := []\<rparr>)
           (Some (link_zero\<lparr>urbl_urb := urb_ep2_out\<rparr>)))
        1 2 False urb_ep2_out 0 0) = Some (- EINVAL)"
  apply (simp add: oz_enqueue_ep_urb_def OZ_NB_ENDPOINTS_def oz_alloc_urb_link_def
      oz_free_urb_link_def OZ_MAX_LINK_POOL_SIZE_def hcd_pending_def Let_def)
  apply (simp add: hcd_two_peers_def hcd_started_def urb_ep2_out_def urb_zero_def port_at_def
      OZ_NB_PORTS_def replicate_8 port_attached_def port_probed_def)
  done

lemma example_process_no_memory:
  "map_option fst (oz_enqueue_ep_urb hcd_two_peers 1 2 False urb_ep2_out 0 0) = Some (- ENOMEM)"
  "map_option fst (oz_urb_process hcd_two_peers urb_ep2_out 0 0) = Some (- ENOENT)"
  apply (simp_all add: oz_urb_process_def oz_enqueue_ep_urb_def OZ_NB_ENDPOINTS_def
      oz_alloc_urb_link_def Let_def urb_ep2_out_def urb_zero_def port_at_def ports_two_peers)
  apply (simp_all add: hcd_two_peers_def hcd_started_def port_attached_def port_probed_def
      OZ_PORT_F_PRESENT_def OZ_PORT_F_CHANGED_def ENOMEM_def ENOENT_def)
  done

lemma example_tasklet_no_endpoint:
  "map_option (map snd \<circ> giveback \<circ> hcd) (oz_urb_process_tasklet hcd_pending ctrl_ok 0)
     = Some [- ENOENT]"
  apply (simp add: oz_urb_process_tasklet_def hcd_pending_def Let_def)
  apply (simp add: oz_urb_process_def oz_enqueue_ep_urb_def OZ_NB_ENDPOINTS_def
      oz_alloc_urb_link_def oz_free_urb_link_def OZ_MAX_LINK_POOL_SIZE_def Let_def
      urb_ep2_out_def urb_zero_def port_at_def ports_two_peers)
  apply (simp add: hcd_two_peers_def hcd_started_def port_attached_def port_probed_def
      OZ_PORT_F_PRESENT_def OZ_PORT_F_CHANGED_def OZ_NB_PORTS_def replicate_8
      oz_complete_urb_def oz_uncancel_urb_def oz_free_urb_link_def Let_def ENOENT_def EINVAL_def)
  done

lemma example_pending_two_enqueue:
  "map_option fst
     (oz_enqueue_ep_urb
        (oz_free_urb_link
           (hcd_pending_two\<lparr>urb_pending_list :=
                               [link_zero\<lparr>urbl_urb := urb_ep2_out\<lparr>urb_id := 44\<rparr>\<rparr>]\<rparr>)
           (Some (link_zero\<lparr>urbl_urb := urb_ep2_out\<rparr>)))
        1 2 False urb_ep2_out 0 0) = Some (- EINVAL)"
  apply (simp add: oz_enqueue_ep_urb_def OZ_NB_ENDPOINTS_def oz_alloc_urb_link_def
      oz_free_urb_link_def OZ_MAX_LINK_POOL_SIZE_def hcd_pending_two_def Let_def)
  apply (simp add: hcd_two_peers_def hcd_started_def urb_ep2_out_def urb_zero_def port_at_def
      OZ_NB_PORTS_def replicate_8 port_attached_def port_probed_def)
  done

lemma example_tasklet_two:
  "map_option (map (apfst urb_id) \<circ> giveback \<circ> hcd)
     (oz_urb_process_tasklet hcd_pending_two ctrl_ok 0)
     = Some [(4, - ENOENT), (44, - ENOENT)]"
  apply (simp add: oz_urb_process_tasklet_def hcd_pending_two_def Let_def)
  apply (simp add: oz_urb_process_def oz_enqueue_ep_urb_def OZ_NB_ENDPOINTS_def
      oz_alloc_urb_link_def oz_free_urb_link_def OZ_MAX_LINK_POOL_SIZE_def Let_def
      urb_ep2_out_def urb_zero_def port_at_def ports_two_peers)
  apply (simp add: hcd_two_peers_def hcd_started_def port_attached_def port_probed_def
      OZ_PORT_F_PRESENT_def OZ_PORT_F_CHANGED_def OZ_NB_PORTS_def replicate_8
      oz_complete_urb_def oz_uncancel_urb_def oz_free_urb_link_def Let_def ENOENT_def EINVAL_def
      OZ_MAX_LINK_POOL_SIZE_def oz_alloc_urb_link_def port_at_def
      oz_urb_process_def oz_enqueue_ep_urb_def OZ_NB_ENDPOINTS_def urb_ep2_out_def urb_zero_def)
  done

text \<open>
  C5, as the code has it. Take a URB for an endpoint other than 0, its buffer valid, its
  port present. Whenever \<^verbatim>\<open>oz_urb_process\<close> calls \<^verbatim>\<open>oz_enqueue_ep_urb\<close> for it and the
  call returns an error, which is \<^verbatim>\<open>-EINVAL\<close>, \<^verbatim>\<open>-ENOMEM\<close> or \<^verbatim>\<open>-EPIPE\<close>,
  \<^verbatim>\<open>oz_urb_process\<close> returns \<^verbatim>\<open>-ENOENT\<close>, whatever the error was. And in every
  iteration of the loop of \<^verbatim>\<open>oz_urb_process_tasklet\<close>, whatever is pending behind the
  entry it takes, the URB is completed at once with the status \<^verbatim>\<open>-ENOENT\<close>, the loop
  goes on with the rest of the list from there, and that completion is still the next one
  handed back when the loop ends; so it is for the tasklet and the first pending URB. In
  the loop the link of the entry has just been freed, so the allocation of
  \<^verbatim>\<open>oz_enqueue_ep_urb\<close> finds a link and the error there is \<^verbatim>\<open>-EINVAL\<close> or \<^verbatim>\<open>-EPIPE\<close>.
\<close>

theorem oz_urb_process_tasklet_enqueue_error:
  assumes nc: "pipe_endpoint u \<noteq> 0"
    and buf: "transfer_buffer u \<noteq> [] \<or> transfer_buffer_length u = 0"
    and priv: "hcpriv u = Some pi"
  shows
    "(port_at h0 (int pi) = Some port0 \<and> port_flags port0 AND OZ_PORT_F_PRESENT \<noteq> 0 \<and>
      oz_enqueue_ep_urb h0 pi (pipe_endpoint u) (pipe_in u) u 0 now = Some (rc0, h0') \<and>
      rc0 \<noteq> 0 \<longrightarrow>
        rc0 \<in> {- EINVAL, - ENOMEM, - EPIPE} \<and>
        oz_urb_process h0 u c0 now = Some (- ENOENT, h0')) \<and>
     (urbl_urb urbl = u \<and>
      port_at h (int pi) = Some port \<and> port_flags port AND OZ_PORT_F_PRESENT \<noteq> 0 \<and>
      oz_enqueue_ep_urb (oz_free_urb_link (h\<lparr>urb_pending_list := rest\<rparr>) (Some urbl)) pi
        (pipe_endpoint u) (pipe_in u) u 0 now = Some (rc, h1) \<and>
      rc \<noteq> 0 \<longrightarrow>
        rc \<in> {- EINVAL, - EPIPE} \<and>
        oz_urb_process_pending (urbl # rest) h ctrl_rc now =
          oz_urb_process_pending rest (oz_complete_urb h1 u (- ENOENT)) ctrl_rc now \<and>
        (\<exists>u'. giveback (hcd (oz_complete_urb h1 u (- ENOENT)))
                 = giveback (hcd h) @ [(u', - ENOENT)] \<and> urb_id u' = urb_id u) \<and>
        (\<forall>h'. oz_urb_process_pending (urbl # rest) h ctrl_rc now = Some h' \<longrightarrow>
           (\<exists>u' more. giveback (hcd h') = giveback (hcd h) @ (u', - ENOENT) # more \<and>
                      urb_id u' = urb_id u)) \<and>
        (urb_pending_list h = urbl # rest \<longrightarrow>
           oz_urb_process_tasklet h ctrl_rc now =
             oz_urb_process_pending rest (oz_complete_urb h1 u (- ENOENT)) ctrl_rc now \<and>
           (\<forall>h'. oz_urb_process_tasklet h ctrl_rc now = Some h' \<longrightarrow>
              (\<exists>u' more. giveback (hcd h') = giveback (hcd h) @ (u', - ENOENT) # more \<and>
                         urb_id u' = urb_id u))))"
proof (rule conjI; rule impI)
  assume a: "port_at h0 (int pi) = Some port0 \<and> port_flags port0 AND OZ_PORT_F_PRESENT \<noteq> 0 \<and>
      oz_enqueue_ep_urb h0 pi (pipe_endpoint u) (pipe_in u) u 0 now = Some (rc0, h0') \<and>
      rc0 \<noteq> 0"
  then have enq: "oz_enqueue_ep_urb h0 pi (pipe_endpoint u) (pipe_in u) u 0 now = Some (rc0, h0')"
    and err: "rc0 \<noteq> 0" by simp_all
  have "oz_urb_process h0 u c0 now = Some (- ENOENT, h0')"
    using nc buf priv a by (auto simp: oz_urb_process_def Let_def)
  then show "rc0 \<in> {- EINVAL, - ENOMEM, - EPIPE} \<and>
        oz_urb_process h0 u c0 now = Some (- ENOENT, h0')"
    using oz_enqueue_ep_urb_error(1)[OF enq err] by simp
next
  let ?h2 = "oz_free_urb_link (h\<lparr>urb_pending_list := rest\<rparr>) (Some urbl)"
  let ?loop = "oz_urb_process_pending (urbl # rest) h ctrl_rc now"
  let ?next = "oz_urb_process_pending rest (oz_complete_urb h1 u (- ENOENT)) ctrl_rc now"
  assume b: "urbl_urb urbl = u \<and>
      port_at h (int pi) = Some port \<and> port_flags port AND OZ_PORT_F_PRESENT \<noteq> 0 \<and>
      oz_enqueue_ep_urb ?h2 pi (pipe_endpoint u) (pipe_in u) u 0 now = Some (rc, h1) \<and>
      rc \<noteq> 0"
  then have uu: "urbl_urb urbl = u"
    and port: "port_at h (int pi) = Some port"
    and present: "port_flags port AND OZ_PORT_F_PRESENT \<noteq> 0"
    and enq: "oz_enqueue_ep_urb ?h2 pi (pipe_endpoint u) (pipe_in u) u 0 now = Some (rc, h1)"
    and err: "rc \<noteq> 0" by simp_all
  note e = oz_enqueue_ep_urb_error[OF enq err]
  have rcs: "rc \<in> {- EINVAL, - EPIPE}" by (rule oz_enqueue_ep_urb_after_free[OF enq err])
  have p2: "port_at ?h2 (int pi) = Some port"
    using port port_at_cong[of ?h2 h "int pi"] by simp
  have up: "oz_urb_process ?h2 u (ctrl_rc (urb_id u)) now = Some (- ENOENT, h1)"
    using nc buf priv p2 present enq err by (auto simp: oz_urb_process_def Let_def)
  have t: "?loop = ?next"
    using up uu by (simp add: Let_def ENOENT_def)
  obtain u' where u': "giveback (hcd (oz_complete_urb h1 u (- ENOENT)))
                         = giveback (hcd h1) @ [(u', - ENOENT)]" "urb_id u' = urb_id u"
    using oz_complete_urb_giveback[of h1 u "- ENOENT"] by blast
  have g1: "giveback (hcd h1) = giveback (hcd h)" using e(2) by simp
  have now1: "\<exists>u'. giveback (hcd (oz_complete_urb h1 u (- ENOENT)))
                 = giveback (hcd h) @ [(u', - ENOENT)] \<and> urb_id u' = urb_id u"
    using u' g1 by auto
  have fin: "\<forall>h'. ?loop = Some h' \<longrightarrow>
           (\<exists>u' more. giveback (hcd h') = giveback (hcd h) @ (u', - ENOENT) # more \<and>
                      urb_id u' = urb_id u)"
  proof (intro allI impI)
    fix h' assume "?loop = Some h'"
    then have "?next = Some h'" using t by simp
    from oz_urb_process_pending_grows[OF this] obtain more where
      "giveback (hcd h') = giveback (hcd (oz_complete_urb h1 u (- ENOENT))) @ more" by blast
    then have "giveback (hcd h') = giveback (hcd h) @ (u', - ENOENT) # more"
      using u'(1) g1 by simp
    then show "\<exists>u' more. giveback (hcd h') = giveback (hcd h) @ (u', - ENOENT) # more \<and>
                      urb_id u' = urb_id u"
      using u'(2) by blast
  qed
  have tk: "urb_pending_list h = urbl # rest \<longrightarrow>
           oz_urb_process_tasklet h ctrl_rc now = ?next \<and>
           (\<forall>h'. oz_urb_process_tasklet h ctrl_rc now = Some h' \<longrightarrow>
              (\<exists>u' more. giveback (hcd h') = giveback (hcd h) @ (u', - ENOENT) # more \<and>
                         urb_id u' = urb_id u))"
  proof
    assume pend: "urb_pending_list h = urbl # rest"
    have "oz_urb_process_tasklet h ctrl_rc now = ?loop"
      by (simp only: oz_urb_process_tasklet_def pend)
    then show "oz_urb_process_tasklet h ctrl_rc now = ?next \<and>
           (\<forall>h'. oz_urb_process_tasklet h ctrl_rc now = Some h' \<longrightarrow>
              (\<exists>u' more. giveback (hcd h') = giveback (hcd h) @ (u', - ENOENT) # more \<and>
                         urb_id u' = urb_id u))"
      using t fin by simp
  qed
  from rcs t now1 fin tk
  show "rc \<in> {- EINVAL, - EPIPE} \<and> ?loop = ?next \<and>
        (\<exists>u'. giveback (hcd (oz_complete_urb h1 u (- ENOENT)))
                 = giveback (hcd h) @ [(u', - ENOENT)] \<and> urb_id u' = urb_id u) \<and>
        (\<forall>h'. ?loop = Some h' \<longrightarrow>
           (\<exists>u' more. giveback (hcd h') = giveback (hcd h) @ (u', - ENOENT) # more \<and>
                      urb_id u' = urb_id u)) \<and>
        (urb_pending_list h = urbl # rest \<longrightarrow>
           oz_urb_process_tasklet h ctrl_rc now = ?next \<and>
           (\<forall>h'. oz_urb_process_tasklet h ctrl_rc now = Some h' \<longrightarrow>
              (\<exists>u' more. giveback (hcd h') = giveback (hcd h) @ (u', - ENOENT) # more \<and>
                         urb_id u' = urb_id u)))"
    by (intro conjI)
qed

theorem oz_urb_process_tasklet_enqueue_error_witness:
  "pipe_endpoint urb_ep2_out \<noteq> 0 \<and> transfer_buffer_length urb_ep2_out = 0 \<and>
   hcpriv urb_ep2_out = Some 1 \<and>
   port_at hcd_two_peers 1 = Some (port_attached 1 5) \<and>
   port_flags (port_attached 1 5) AND OZ_PORT_F_PRESENT \<noteq> 0 \<and>
   map_option fst (oz_enqueue_ep_urb hcd_two_peers 1 2 False urb_ep2_out 0 0) = Some (- ENOMEM) \<and>
   map_option fst (oz_urb_process hcd_two_peers urb_ep2_out 0 0) = Some (- ENOENT) \<and>
   urb_pending_list hcd_pending_two =
     [link_zero\<lparr>urbl_urb := urb_ep2_out\<rparr>, link_zero\<lparr>urbl_urb := urb_ep2_out\<lparr>urb_id := 44\<rparr>\<rparr>] \<and>
   port_at hcd_pending_two 1 = Some (port_attached 1 5) \<and>
   map_option fst
     (oz_enqueue_ep_urb
        (oz_free_urb_link
           (hcd_pending_two\<lparr>urb_pending_list :=
                               [link_zero\<lparr>urbl_urb := urb_ep2_out\<lparr>urb_id := 44\<rparr>\<rparr>]\<rparr>)
           (Some (link_zero\<lparr>urbl_urb := urb_ep2_out\<rparr>)))
        1 2 False urb_ep2_out 0 0) = Some (- EINVAL) \<and>
   (\<exists>h' u' more. oz_urb_process_tasklet hcd_pending_two ctrl_ok 0 = Some h' \<and>
                 giveback (hcd h') = (u', - ENOENT) # more \<and> urb_id u' = 4)"
proof -
  let ?l1 = "link_zero\<lparr>urbl_urb := urb_ep2_out\<rparr>"
  let ?l2 = "link_zero\<lparr>urbl_urb := urb_ep2_out\<lparr>urb_id := 44\<rparr>\<rparr>"
  let ?ra = "oz_enqueue_ep_urb hcd_two_peers 1 2 False urb_ep2_out 0 0"
  let ?r = "oz_enqueue_ep_urb
        (oz_free_urb_link (hcd_pending_two\<lparr>urb_pending_list := [?l2]\<rparr>) (Some ?l1))
        1 2 False urb_ep2_out 0 0"
  have nc: "pipe_endpoint urb_ep2_out \<noteq> 0" and pe: "pipe_endpoint urb_ep2_out = 2"
    and pin: "pipe_in urb_ep2_out = False"
    by (simp_all add: urb_ep2_out_def urb_zero_def)
  have tbl: "transfer_buffer_length urb_ep2_out = 0" by (simp add: urb_ep2_out_def urb_zero_def)
  then have buf: "transfer_buffer urb_ep2_out \<noteq> [] \<or> transfer_buffer_length urb_ep2_out = 0"
    by simp
  have priv: "hcpriv urb_ep2_out = Some 1" by (simp add: urb_ep2_out_def)
  have port0: "port_at hcd_two_peers (int 1) = Some (port_attached 1 5)"
    by (simp add: port_at_def ports_two_peers)
  have port: "port_at hcd_pending_two (int 1) = Some (port_attached 1 5)"
    by (simp add: port_at_def hcd_pending_two_def ports_two_peers)
  have present: "port_flags (port_attached 1 5) AND OZ_PORT_F_PRESENT \<noteq> 0"
    by (simp add: port_attached_def OZ_PORT_F_PRESENT_def OZ_PORT_F_CHANGED_def)
  have pend: "urb_pending_list hcd_pending_two = ?l1 # [?l2]" by (simp add: hcd_pending_two_def)
  have u1: "urbl_urb ?l1 = urb_ep2_out" by simp
  have enq0: "oz_enqueue_ep_urb hcd_two_peers 1 (pipe_endpoint urb_ep2_out)
                (pipe_in urb_ep2_out) urb_ep2_out 0 0 = Some (- ENOMEM, snd (the ?ra))"
    using result_fst[OF example_process_no_memory(1)] by (simp add: pe pin)
  have enq: "oz_enqueue_ep_urb
        (oz_free_urb_link (hcd_pending_two\<lparr>urb_pending_list := [?l2]\<rparr>) (Some ?l1)) 1
        (pipe_endpoint urb_ep2_out) (pipe_in urb_ep2_out) urb_ep2_out 0 0
      = Some (- EINVAL, snd (the ?r))"
    using result_fst[OF example_pending_two_enqueue] by (simp add: pe pin)
  have err0: "- ENOMEM \<noteq> 0" and err: "- EINVAL \<noteq> 0" by (simp_all add: ENOMEM_def EINVAL_def)
  have g: "giveback (hcd hcd_pending_two) = []"
    by (simp add: hcd_pending_two_def hcd_two_peers_def hcd_started_def)
  have id: "urb_id urb_ep2_out = 4" by (simp add: urb_ep2_out_def)
  obtain hf where hf: "oz_urb_process_tasklet hcd_pending_two ctrl_ok 0 = Some hf"
    using example_tasklet_two by (cases "oz_urb_process_tasklet hcd_pending_two ctrl_ok 0") auto
  note t = oz_urb_process_tasklet_enqueue_error
             [OF nc buf priv, where ?h0.0 = hcd_two_peers and ?port0.0 = "port_attached 1 5"
                and now = 0 and ?rc0.0 = "- ENOMEM" and ?h0'.0 = "snd (the ?ra)" and ?c0.0 = 0
                and h = hcd_pending_two and urbl = ?l1 and rest = "[?l2]"
                and port = "port_attached 1 5" and rc = "- EINVAL" and ?h1.0 = "snd (the ?r)"
                and ctrl_rc = ctrl_ok]
  from t port0 present enq0 err0 have
    p0: "oz_urb_process hcd_two_peers urb_ep2_out 0 0 = Some (- ENOENT, snd (the ?ra))"
    by blast
  from t pend u1 port present enq err hf have
    "\<exists>u' more. giveback (hcd hf) = giveback (hcd hcd_pending_two) @ (u', - ENOENT) # more \<and>
               urb_id u' = urb_id urb_ep2_out"
    by blast
  then have fin: "\<exists>h' u' more. oz_urb_process_tasklet hcd_pending_two ctrl_ok 0 = Some h' \<and>
                 giveback (hcd h') = (u', - ENOENT) # more \<and> urb_id u' = 4"
    using hf g id by auto
  show ?thesis
    using nc tbl priv port0 port present example_process_no_memory(1) p0 pend
      example_pending_two_enqueue fin
    by simp
qed

text \<open>
  C5 as stated fails. With the pool empty and no memory, \<^verbatim>\<open>oz_enqueue_ep_urb\<close> returns
  \<^verbatim>\<open>-ENOMEM\<close> and \<^verbatim>\<open>oz_urb_process\<close> returns \<^verbatim>\<open>-ENOENT\<close>; and a pending URB for an
  endpoint that does not exist, for which \<^verbatim>\<open>oz_enqueue_ep_urb\<close> returns \<^verbatim>\<open>-EINVAL\<close>, is
  completed by the tasklet with \<^verbatim>\<open>-ENOENT\<close>.
\<close>

theorem oz_urb_process_tasklet_enqueue_error_counterexample:
  "map_option fst (oz_enqueue_ep_urb hcd_two_peers 1 2 False urb_ep2_out 0 0) = Some (- ENOMEM) \<and>
   map_option fst (oz_urb_process hcd_two_peers urb_ep2_out 0 0) = Some (- ENOENT) \<and>
   map_option fst
     (oz_enqueue_ep_urb
        (oz_free_urb_link (hcd_pending\<lparr>urb_pending_list := []\<rparr>)
           (Some (link_zero\<lparr>urbl_urb := urb_ep2_out\<rparr>)))
        1 2 False urb_ep2_out 0 0) = Some (- EINVAL) \<and>
   map_option (map snd \<circ> giveback \<circ> hcd) (oz_urb_process_tasklet hcd_pending ctrl_ok 0)
     = Some [- ENOENT] \<and>
   - ENOENT \<noteq> - ENOMEM \<and> - ENOENT \<noteq> - EINVAL"
  using example_process_no_memory example_pending_enqueue example_tasklet_no_endpoint
  by (simp add: ENOENT_def ENOMEM_def EINVAL_def)


subsection \<open>Writing a unit\<close>

text \<open>
  For an endpoint with an allocated buffer, \<^verbatim>\<open>oz_hcd_buffer_data\<close> called with
  \<open>data_len\<close> bytes of data, \<open>data_len\<close> below the largest \<^verbatim>\<open>int\<close>, returns -1 and leaves the endpoint (buffer, cursors and
  count of buffered units) as it was exactly when the free space, the circular distance
  \<^verbatim>\<open>out_ix - in_ix - 1\<close> modulo \<^verbatim>\<open>buffer_size\<close>, is less than \<open>data_len + 1\<close>. Otherwise
  it returns 0, the ring holds the length byte followed by the data from the old write
  cursor on, the rest of the buffer and the read cursor are unchanged, the write cursor
  has advanced by \<open>data_len + 1\<close> and the count of buffered units has grown by one.
\<close>

lemma oz_hcd_buffer_data_full_or_stored:
  assumes "ep_buffer_ok ep" and "0 \<le> data_len" and "data_len \<le> int (length data)"
    and "data_len < 2147483647"
  shows "\<exists>rc ep'. oz_hcd_buffer_data ep data data_len = Some (rc, ep') \<and>
           (rc = -1 \<longleftrightarrow> ring_space ep < data_len + 1) \<and>
           (rc = -1 \<longrightarrow> ep' = ep) \<and>
           (rc \<noteq> -1 \<longrightarrow>
              rc = 0 \<and>
              ring_seg (buffer ep') (nat (in_ix ep)) (nat data_len + 1)
                = word_of_int data_len # take (nat data_len) data \<and>
              (\<forall>p < length (buffer ep).
                 (\<forall>k < nat data_len + 1. p \<noteq> (nat (in_ix ep) + k) mod length (buffer ep))
                 \<longrightarrow> buffer ep' ! p = buffer ep ! p) \<and>
              length (buffer ep') = length (buffer ep) \<and>
              in_ix ep' = (in_ix ep + 1 + data_len) mod buffer_size ep \<and>
              out_ix ep' = out_ix ep \<and>
              buffered_units ep' = buffered_units ep + 1 \<and>
              ep' = ep\<lparr>buffer := buffer ep', in_ix := in_ix ep',
                        buffered_units := buffered_units ep'\<rparr>)"
proof (cases "ring_space ep < data_len + 1")
  case True
  then show ?thesis
    using oz_hcd_buffer_data_full[OF assms(1) True assms(2,4)] by simp
next
  case False
  let ?xs = "word_of_int data_len # take (nat data_len) data"
  let ?b = "ring_put (buffer ep) (nat (in_ix ep)) ?xs"
  let ?ep = "ep\<lparr>buffer := ?b, in_ix := (in_ix ep + 1 + data_len) mod buffer_size ep,
                 buffered_units := buffered_units ep + 1\<rparr>"
  have st: "oz_hcd_buffer_data ep data data_len = Some (0, ?ep)"
    by (rule oz_hcd_buffer_data_stored[OF assms(1) False assms(2,3,4)])
  have len: "length ?xs = nat data_len + 1" using assms(2,3) by simp
  have "ring_space ep < buffer_size ep"
    using assms(1) by (simp add: ring_space_def ep_buffer_ok_def)
  then have "int (nat data_len + 1) \<le> int (length (buffer ep))"
    using False assms(1,2) unfolding ep_buffer_ok_def by linarith
  then have fits: "length ?xs \<le> length (buffer ep)"
    using len by linarith
  have off: "nat (in_ix ep) < length (buffer ep)"
    using assms(1) unfolding ep_buffer_ok_def by linarith
  have seg: "ring_seg ?b (nat (in_ix ep)) (nat data_len + 1) = ?xs"
    using ring_seg_ring_put[OF off fits] len by simp
  have out: "\<forall>p < length (buffer ep).
               (\<forall>k < nat data_len + 1. p \<noteq> (nat (in_ix ep) + k) mod length (buffer ep))
               \<longrightarrow> ?b ! p = buffer ep ! p"
    using ring_put_outside[OF off fits] len by simp
  show ?thesis
    using False seg out by (simp add: st)
qed

lemma oz_hcd_buffer_data_full_or_stored_example:
  "ep_buffer_ok (oz_ep_alloc 8\<lparr>in_ix := 6, out_ix := 6\<rparr>) \<and>
   (\<exists>ep'. oz_hcd_buffer_data (oz_ep_alloc 8\<lparr>in_ix := 6, out_ix := 6\<rparr>) [1, 2, 3] 3 = Some (0, ep') \<and>
          ring_seg (buffer ep') 6 4 = [3, 1, 2, 3] \<and> in_ix ep' = 2 \<and> buffered_units ep' = 1) \<and>
   oz_hcd_buffer_data (oz_ep_alloc 8\<lparr>in_ix := 6, out_ix := 2\<rparr>) [1, 2, 3] 3
     = Some (-1, oz_ep_alloc 8\<lparr>in_ix := 6, out_ix := 2\<rparr>)"
proof -
  let ?e1 = "oz_ep_alloc 8\<lparr>in_ix := 6, out_ix := 6\<rparr>"
  let ?e2 = "oz_ep_alloc 8\<lparr>in_ix := 6, out_ix := 2\<rparr>"
  have ok1: "ep_buffer_ok ?e1" and ok2: "ep_buffer_ok ?e2"
    by (simp_all add: ep_buffer_ok_def oz_ep_alloc_def)
  have s1: "\<not> ring_space ?e1 < 3 + 1" and s2: "ring_space ?e2 < 3 + 1"
    by (simp_all add: ring_space_def oz_ep_alloc_def)
  have b1: "buffer_size ?e1 = 8" "in_ix ?e1 = 6" "buffered_units ?e1 = 0"
    by (simp_all add: oz_ep_alloc_def)
  show ?thesis
    using oz_hcd_buffer_data_full_or_stored[of ?e1 3 "[1, 2, 3]"]
          oz_hcd_buffer_data_full_or_stored[of ?e2 3 "[1, 2, 3]"] ok1 ok2 s1 s2
    by (auto simp: b1)
qed


subsection \<open>The credit of an OUT isochronous endpoint\<close>

lemma elapsed_ms_nonneg: "0 \<le> elapsed_ms ts extra ep"
  by (simp add: elapsed_ms_def u64_def NSEC_PER_MSEC_def pos_imp_zdiv_nonneg_iff)

lemma credit_add_fits:
  "0 \<le> cr \<Longrightarrow> 0 \<le> ms \<Longrightarrow> cr + ms < 2 ^ 31 \<Longrightarrow> credit_add cr ms = cr + ms"
  by (simp add: credit_add_def u64_def s32_def)

lemma packets_simps [simp]:
  "packets [] = 0"
  "packets (x # xs) = number_of_packets (urbl_urb x) + packets xs"
  by (simp_all add: packets_def)

lemma oz_isoc_out_release_nonneg:
  "0 \<le> cr \<Longrightarrow> oz_isoc_out_release cr q = (c, q', xfr) \<Longrightarrow>
   0 \<le> c \<and> xfr @ q' = q \<and> (cr = 0 \<longrightarrow> xfr = [])"
proof (induction cr q arbitrary: c q' xfr rule: oz_isoc_out_release.induct)
  case (1 cr)
  then show ?case by simp
next
  case (2 cr urbl rest)
  let ?n = "number_of_packets (urbl_urb urbl)"
  consider "cr = 0" | "cr \<noteq> 0" "s32 (cr + 1) < ?n" | "cr \<noteq> 0" "\<not> s32 (cr + 1) < ?n"
    by blast
  then show ?case
  proof cases
    case 1
    then show ?thesis using "2.prems" by auto
  next
    case 2
    then show ?thesis using "2.prems" by auto
  next
    case 3
    define cr2 where "cr2 = (if s32 (cr - ?n) < 0 then 0 else s32 (cr - ?n))"
    obtain c0 q0 x0 where rec: "oz_isoc_out_release cr2 rest = (c0, q0, x0)"
      by (cases "oz_isoc_out_release cr2 rest") auto
    have res: "c = c0" "q' = q0" "xfr = urbl # x0"
      using "2.prems"(2) 3 rec by (auto simp: Let_def cr2_def)
    have "0 \<le> cr2" by (simp add: cr2_def)
    from "2.IH"[OF 3(1) 3(2) refl cr2_def this rec]
    show ?thesis using res 3 by simp
  qed
qed

lemma oz_isoc_out_release_packets:
  "0 \<le> cr \<Longrightarrow> cr < 2 ^ 31 - 1 \<Longrightarrow> \<forall>urbl\<in>set q. 0 \<le> number_of_packets (urbl_urb urbl) \<Longrightarrow>
   oz_isoc_out_release cr q = (c, q', xfr) \<Longrightarrow>
   (\<forall>i<length xfr. number_of_packets (urbl_urb (xfr ! i)) \<le> cr - packets (take i xfr) + 1) \<and>
   c = max 0 (cr - packets xfr) \<and>
   (q' \<noteq> [] \<longrightarrow> c = 0 \<or> c + 1 < number_of_packets (urbl_urb (hd q')))"
proof (induction cr q arbitrary: c q' xfr rule: oz_isoc_out_release.induct)
  case (1 cr)
  then show ?case by simp
next
  case (2 cr urbl rest)
  let ?n = "number_of_packets (urbl_urb urbl)"
  have s1: "s32 (cr + 1) = cr + 1" using "2.prems"(1,2) by (intro s32_id) auto
  have n0: "0 \<le> ?n" using "2.prems"(3) by simp
  consider "cr = 0" | "cr \<noteq> 0" "s32 (cr + 1) < ?n" | "cr \<noteq> 0" "\<not> s32 (cr + 1) < ?n"
    by blast
  then show ?case
  proof cases
    case 1
    then show ?thesis using "2.prems" by auto
  next
    case 2
    then show ?thesis using "2.prems" s1 by auto
  next
    case 3
    define cr2 where "cr2 = (if s32 (cr - ?n) < 0 then 0 else s32 (cr - ?n))"
    obtain c0 q0 x0 where rec: "oz_isoc_out_release cr2 rest = (c0, q0, x0)"
      by (cases "oz_isoc_out_release cr2 rest") auto
    have res: "c = c0" "q' = q0" "xfr = urbl # x0"
      using "2.prems"(4) 3 rec by (auto simp: Let_def cr2_def)
    have le: "?n \<le> cr + 1" using 3 s1 by simp
    have "s32 (cr - ?n) = cr - ?n" using le n0 "2.prems"(1,2) by (intro s32_id) auto
    then have cr2: "cr2 = max 0 (cr - ?n)" by (auto simp: cr2_def)
    have b: "0 \<le> cr2" "cr2 < 2 ^ 31 - 1" using cr2 n0 "2.prems"(1,2) by auto
    have r: "\<forall>urbl\<in>set rest. 0 \<le> number_of_packets (urbl_urb urbl)" using "2.prems"(3) by simp
    note ih = "2.IH"[OF 3(1) 3(2) refl cr2_def b r rec]
    have stop: "cr - ?n < 0 \<Longrightarrow> x0 = []"
    proof -
      assume "cr - ?n < 0"
      then have "cr2 = 0" using cr2 by simp
      then show "x0 = []" using rec by (cases rest) auto
    qed
    have p1: "\<forall>i<length xfr. number_of_packets (urbl_urb (xfr ! i)) \<le> cr - packets (take i xfr) + 1"
    proof (intro allI impI)
      fix i assume i: "i < length xfr"
      show "number_of_packets (urbl_urb (xfr ! i)) \<le> cr - packets (take i xfr) + 1"
      proof (cases i)
        case 0
        then show ?thesis using res le by simp
      next
        case (Suc j)
        then have j: "j < length x0" using i res by simp
        then have "x0 \<noteq> []" by auto
        then have c2: "cr2 = cr - ?n" using stop cr2 by fastforce
        have "number_of_packets (urbl_urb (x0 ! j)) \<le> cr2 - packets (take j x0) + 1"
          using ih j by blast
        then show ?thesis using Suc res c2 by simp
      qed
    qed
    have p2: "c = max 0 (cr - packets xfr)"
    proof (cases "cr - ?n < 0")
      case True
      then show ?thesis using stop ih cr2 res by simp
    next
      case False
      then show ?thesis using ih cr2 res by simp
    qed
    have p3: "q' \<noteq> [] \<longrightarrow> c = 0 \<or> c + 1 < number_of_packets (urbl_urb (hd q'))"
      using ih res by blast
    show ?thesis using p1 p2 p3 by blast
  qed
qed


lemma oz_hcd_heartbeat_isoc_out_tick:
  assumes "0 \<le> credit ep" and "credit ep + elapsed_ms ts 0 ep < 2 ^ 31"
  shows "oz_hcd_heartbeat_isoc_out ts ep =
           (case oz_isoc_out_release (min (credit ep + elapsed_ms ts 0 ep) (credit_ceiling ep))
                   (urb_list ep) of
              (c, q, xfr) \<Rightarrow> (ep\<lparr>credit := c, timestamp := ts, urb_list := q\<rparr>, xfr))"
proof -
  have "credit_add (credit ep) (elapsed_ms ts 0 ep) = credit ep + elapsed_ms ts 0 ep"
    using assms elapsed_ms_nonneg by (intro credit_add_fits) auto
  then show ?thesis using assms(1)
    by (simp add: oz_hcd_heartbeat_isoc_out_def Let_def min_def not_less)
qed

lemma out_step_credit:
  assumes "0 \<le> credit_ceiling ep" and "0 \<le> credit ep" and "ticks_fit ep (e # es)"
  shows "0 \<le> credit (out_step ep e) \<and> credit_ceiling (out_step ep e) = credit_ceiling ep \<and>
         ticks_fit (out_step ep e) es"
proof (cases e)
  case (Heartbeat ts)
  let ?cr = "min (credit ep + elapsed_ms ts 0 ep) (credit_ceiling ep)"
  have fit: "credit ep + elapsed_ms ts 0 ep < 2 ^ 31" using assms(3) Heartbeat by simp
  obtain c q xfr where r: "oz_isoc_out_release ?cr (urb_list ep) = (c, q, xfr)"
    by (cases "oz_isoc_out_release ?cr (urb_list ep)") auto
  have "0 \<le> ?cr" using assms(1,2) elapsed_ms_nonneg[of ts 0 ep] by simp
  from oz_isoc_out_release_nonneg[OF this r] have "0 \<le> c" by simp
  then show ?thesis
    using assms(3) Heartbeat oz_hcd_heartbeat_isoc_out_tick[OF assms(2) fit] r by simp
next
  case (Queue urbl now)
  then show ?thesis using assms by (simp add: oz_ep_queue_link_def Let_def)
next
  case (Cancel u)
  then show ?thesis using assms
    by (auto simp: oz_remove_urb_def Let_def split: prod.splits option.splits)
qed

lemma out_run_credit:
  "0 \<le> credit_ceiling ep \<Longrightarrow> 0 \<le> credit ep \<Longrightarrow> ticks_fit ep es \<Longrightarrow>
   0 \<le> credit (out_run ep es)"
proof (induction es arbitrary: ep)
  case Nil
  then show ?case by simp
next
  case (Cons e es)
  from out_step_credit[OF Cons.prems] Cons.IH[of "out_step ep e"] Cons.prems(1)
  show ?case by simp
qed

text \<open>
  C3, as the code has it. Take an OUT isochronous endpoint whose credit is not negative
  and whose credit ceiling is not negative and below \<open>2 ^ 31 - 1\<close> (the code sets 200).
  Across any sequence of heartbeats, links joining the queue and removals of URBs, the
  credit stays non-negative, as long as at every heartbeat the credit and the milliseconds
  elapsed add up to less than \<open>2 ^ 31\<close>. In one heartbeat the credit first grows by the
  milliseconds elapsed, up to the ceiling; the links released are a prefix of the queue,
  in order; none is released when that credit is zero; and, the packet counts of the queue
  not being negative, a link is released only if its packet count is at most one more
  than the credit left at that moment, and the credit ends as what it was minus the
  packets released, but not below zero.
\<close>

theorem isoc_out_credit:
  assumes "0 \<le> credit_ceiling ep" and "credit_ceiling ep < 2 ^ 31 - 1" and "0 \<le> credit ep"
  shows "(ticks_fit ep es \<longrightarrow> 0 \<le> credit (out_run ep es)) \<and>
         (credit ep + elapsed_ms ts 0 ep < 2 ^ 31 \<longrightarrow>
            (\<exists>c q xfr.
               oz_hcd_heartbeat_isoc_out ts ep
                 = (ep\<lparr>credit := c, timestamp := ts, urb_list := q\<rparr>, xfr) \<and>
               0 \<le> c \<and> xfr @ q = urb_list ep \<and>
               (min (credit ep + elapsed_ms ts 0 ep) (credit_ceiling ep) = 0 \<longrightarrow> xfr = []) \<and>
               ((\<forall>urbl\<in>set (urb_list ep). 0 \<le> number_of_packets (urbl_urb urbl)) \<longrightarrow>
                  (\<forall>i<length xfr.
                     number_of_packets (urbl_urb (xfr ! i))
                       \<le> min (credit ep + elapsed_ms ts 0 ep) (credit_ceiling ep)
                           - packets (take i xfr) + 1) \<and>
                  c = max 0 (min (credit ep + elapsed_ms ts 0 ep) (credit_ceiling ep)
                             - packets xfr))))"
proof (intro conjI impI)
  assume "ticks_fit ep es"
  then show "0 \<le> credit (out_run ep es)" using assms(1,3) by (intro out_run_credit)
next
  assume fit: "credit ep + elapsed_ms ts 0 ep < 2 ^ 31"
  let ?cr = "min (credit ep + elapsed_ms ts 0 ep) (credit_ceiling ep)"
  obtain c q xfr where r: "oz_isoc_out_release ?cr (urb_list ep) = (c, q, xfr)"
    by (cases "oz_isoc_out_release ?cr (urb_list ep)") auto
  have cr0: "0 \<le> ?cr" using assms(1,3) elapsed_ms_nonneg[of ts 0 ep] by simp
  have cr1: "?cr < 2 ^ 31 - 1" using assms(2) by simp
  note a = oz_isoc_out_release_nonneg[OF cr0 r]
  have b: "(\<forall>urbl\<in>set (urb_list ep). 0 \<le> number_of_packets (urbl_urb urbl)) \<longrightarrow>
           (\<forall>i<length xfr. number_of_packets (urbl_urb (xfr ! i)) \<le> ?cr - packets (take i xfr) + 1) \<and>
           c = max 0 (?cr - packets xfr)"
    using oz_isoc_out_release_packets[OF cr0 cr1 _ r] by blast
  have "oz_hcd_heartbeat_isoc_out ts ep = (ep\<lparr>credit := c, timestamp := ts, urb_list := q\<rparr>, xfr)"
    using oz_hcd_heartbeat_isoc_out_tick[OF assms(3) fit] r by simp
  then show "\<exists>c q xfr.
               oz_hcd_heartbeat_isoc_out ts ep
                 = (ep\<lparr>credit := c, timestamp := ts, urb_list := q\<rparr>, xfr) \<and>
               0 \<le> c \<and> xfr @ q = urb_list ep \<and>
               (?cr = 0 \<longrightarrow> xfr = []) \<and>
               ((\<forall>urbl\<in>set (urb_list ep). 0 \<le> number_of_packets (urbl_urb urbl)) \<longrightarrow>
                  (\<forall>i<length xfr.
                     number_of_packets (urbl_urb (xfr ! i)) \<le> ?cr - packets (take i xfr) + 1) \<and>
                  c = max 0 (?cr - packets xfr))"
    using a b by blast
qed

lemma example_tick_clamp:
  "oz_hcd_heartbeat_isoc_out 1000000 (ep_isoc_out\<lparr>urb_list := [link_iso2]\<rparr>)
     = (ep_isoc_out\<lparr>urb_list := [], credit := 0, timestamp := 1000000\<rparr>, [link_iso2])"
  by (simp add: oz_hcd_heartbeat_isoc_out_def ep_isoc_out_def oz_ep_alloc_def link_iso2_def
      link_zero_def urb_zero_def credit_add_def elapsed_ms_def u64_def s32_def NSEC_PER_MSEC_def
      Let_def)

lemma example_tick_wrap:
  "credit (fst (oz_hcd_heartbeat_isoc_out (2147483648 * 1000000) ep_isoc_out)) = - 2147483648"
  by (simp add: oz_hcd_heartbeat_isoc_out_def ep_isoc_out_def oz_ep_alloc_def
      credit_add_def elapsed_ms_def u64_def s32_def NSEC_PER_MSEC_def Let_def)


theorem isoc_out_credit_witness:
  "0 \<le> credit_ceiling (ep_isoc_out\<lparr>urb_list := [link_iso2]\<rparr>) \<and>
   0 \<le> credit (ep_isoc_out\<lparr>urb_list := [link_iso2]\<rparr>) \<and>
   ticks_fit (ep_isoc_out\<lparr>urb_list := [link_iso2]\<rparr>)
     [Queue link_iso2 0, Heartbeat 1000000, Cancel (urbl_urb link_iso2), Heartbeat 9000000] \<and>
   0 \<le> credit (out_run (ep_isoc_out\<lparr>urb_list := [link_iso2]\<rparr>)
     [Queue link_iso2 0, Heartbeat 1000000, Cancel (urbl_urb link_iso2), Heartbeat 9000000]) \<and>
   credit (ep_isoc_out\<lparr>urb_list := [link_iso2]\<rparr>)
     + elapsed_ms 1000000 0 (ep_isoc_out\<lparr>urb_list := [link_iso2]\<rparr>) < 2 ^ 31 \<and>
   (\<exists>c q xfr. oz_hcd_heartbeat_isoc_out 1000000 (ep_isoc_out\<lparr>urb_list := [link_iso2]\<rparr>)
        = (ep_isoc_out\<lparr>urb_list := [link_iso2], credit := c, timestamp := 1000000,
                        urb_list := q\<rparr>, xfr) \<and>
      0 \<le> c \<and> xfr @ q = [link_iso2])"
proof -
  let ?e = "ep_isoc_out\<lparr>urb_list := [link_iso2]\<rparr>"
  let ?es = "[Queue link_iso2 0, Heartbeat 1000000, Cancel (urbl_urb link_iso2), Heartbeat 9000000]"
  have a: "0 \<le> credit_ceiling ?e" "credit_ceiling ?e < 2 ^ 31 - 1" "0 \<le> credit ?e"
    by (simp_all add: ep_isoc_out_def oz_ep_alloc_def)
  have q: "oz_ep_queue_link 0 False (urbl_ep_num link_iso2) link_iso2 ?e
             = ep_isoc_out\<lparr>urb_list := [link_iso2, link_iso2]\<rparr>"
    by (simp add: oz_ep_queue_link_def ep_isoc_out_def oz_ep_alloc_def Let_def)
  have h1: "oz_hcd_heartbeat_isoc_out 1000000 (ep_isoc_out\<lparr>urb_list := [link_iso2, link_iso2]\<rparr>)
     = (ep_isoc_out\<lparr>urb_list := [link_iso2], credit := 0, timestamp := 1000000\<rparr>, [link_iso2])"
    by (simp add: oz_hcd_heartbeat_isoc_out_def ep_isoc_out_def oz_ep_alloc_def link_iso2_def
      link_zero_def urb_zero_def credit_add_def elapsed_ms_def u64_def s32_def NSEC_PER_MSEC_def
      Let_def)
  have c1: "snd (oz_remove_urb
                   (ep_isoc_out\<lparr>urb_list := [link_iso2], credit := 0, timestamp := 1000000\<rparr>)
                   (urbl_urb link_iso2))
            = ep_isoc_out\<lparr>urb_list := [], credit := 0, timestamp := 1000000\<rparr>"
    by (simp add: oz_remove_urb_def ep_isoc_out_def oz_ep_alloc_def link_iso2_def link_zero_def
      urb_zero_def s32_def Let_def)
  have fit: "ticks_fit ?e ?es"
    apply (simp add: q h1 c1)
    apply (simp add: ep_isoc_out_def oz_ep_alloc_def elapsed_ms_def u64_def NSEC_PER_MSEC_def)
    done
  have f0: "credit ?e + elapsed_ms 1000000 0 ?e < 2 ^ 31"
    by (simp add: ep_isoc_out_def oz_ep_alloc_def elapsed_ms_def u64_def NSEC_PER_MSEC_def)
  have ul: "urb_list ?e = [link_iso2]" by simp
  show ?thesis
    using isoc_out_credit[OF a, of ?es 1000000] fit f0 a(1,3) unfolding ul by blast
qed

text \<open>
  C3 as stated fails. An endpoint whose credit is 1 after the accrual releases a URB of two
  packets, and its credit is then 0: it went down by one, not by the two packets released.
  And a heartbeat 2147483648 milliseconds after the timestamp stores a negative credit,
  since the 64-bit count of milliseconds is added into an \<^verbatim>\<open>int\<close>.
\<close>

theorem isoc_out_credit_counterexample:
  "credit_add (credit (ep_isoc_out\<lparr>urb_list := [link_iso2]\<rparr>))
     (elapsed_ms 1000000 0 (ep_isoc_out\<lparr>urb_list := [link_iso2]\<rparr>)) = 1 \<and>
   number_of_packets (urbl_urb link_iso2) = 2 \<and>
   oz_hcd_heartbeat_isoc_out 1000000 (ep_isoc_out\<lparr>urb_list := [link_iso2]\<rparr>)
     = (ep_isoc_out\<lparr>urb_list := [], credit := 0, timestamp := 1000000\<rparr>, [link_iso2]) \<and>
   credit (fst (oz_hcd_heartbeat_isoc_out (2147483648 * 1000000) ep_isoc_out)) = - 2147483648"
  using example_tick_clamp example_tick_wrap
  by (simp add: ep_isoc_out_def oz_ep_alloc_def link_iso2_def credit_add_def elapsed_ms_def
      u64_def s32_def NSEC_PER_MSEC_def)


subsection \<open>The IN isochronous loops keep the ring well formed\<close>

lemma buffering_set [simp]: "buffering (ep\<lparr>ep_flags := ep_flags ep OR OZ_F_EP_BUFFERING\<rparr>)"
  by (simp add: buffering_def) (simp add: OZ_F_EP_BUFFERING_def)

lemma buffering_clear [simp]:
  "\<not> buffering (ep\<lparr>ep_flags := ep_flags ep AND NOT OZ_F_EP_BUFFERING\<rparr>)"
  by (simp add: buffering_def and.assoc)



lemma ring_after_unit_range:
  assumes "ep_buffer_ok ep" and "0 \<le> len" and "len \<le> 255" and "255 < buffer_size ep"
  shows "0 \<le> ring_after_unit ep len \<and> ring_after_unit ep len < buffer_size ep"
  using assms
  by (auto simp: ep_buffer_ok_def ring_after_unit_def ring_first_copy_def ring_after_length_def
        Let_def)

lemma uint_byte_range: "0 \<le> uint (d :: u8) \<and> uint d \<le> 255"
  using uint_lt2p[of d] by simp

lemma ep_buffer_ok_out_ix:
  "ep_buffer_ok ep \<Longrightarrow> 0 \<le> x \<Longrightarrow> x < buffer_size ep \<Longrightarrow> ep_buffer_ok (ep\<lparr>out_ix := x\<rparr>)"
  by (simp add: ep_buffer_ok_def)

lemma oz_isoc_in_packets_ok:
  "ep_buffer_ok ep \<Longrightarrow> 255 < buffer_size ep \<Longrightarrow> oz_isoc_in_packets k i ep u = Some (ep', u') \<Longrightarrow>
   ep_buffer_ok ep' \<and> same_ring ep' ep \<and> buffered_units ep' = buffered_units ep"
proof (induction k arbitrary: i ep u ep' u')
  case 0
  then show ?case by (simp add: same_ring_def)
next
  case (Suc k)
  from Suc.prems(3) obtain d tb2 where
    d: "load8 (buffer ep) (out_ix ep) = Some d" and
    r: "oz_isoc_in_packets k (Suc i) (ep\<lparr>out_ix := ring_after_unit ep (uint d)\<rparr>)
          (u\<lparr>transfer_buffer := tb2,
             iso_frame_desc := (iso_frame_desc u)
               [i := \<lparr>iso_offset = actual_length u, iso_actual_length = nat (uint d),
                      iso_status = 0\<rparr>],
             actual_length := (actual_length u + nat (uint d)) mod 2 ^ 32\<rparr>) = Some (ep', u')"
    by (auto simp: Let_def split: option.splits)
  let ?ep = "ep\<lparr>out_ix := ring_after_unit ep (uint d)\<rparr>"
  have ok: "ep_buffer_ok ?ep"
    using ring_after_unit_range[OF Suc.prems(1) _ _ Suc.prems(2), of "uint d"] uint_byte_range[of d]
      Suc.prems(1) by (intro ep_buffer_ok_out_ix) auto
  have sz: "255 < buffer_size ?ep" using Suc.prems(2) by simp
  from Suc.IH[OF ok sz r] show ?case by (simp add: same_ring_def)
qed

lemma oz_isoc_in_drain_ok:
  "ep_buffer_ok ep \<Longrightarrow> 255 < buffer_size ep \<Longrightarrow> oz_isoc_in_drain q ep = Some (ep', q', xfr) \<Longrightarrow>
   ep_buffer_ok ep' \<and> same_ring ep' ep"
proof (induction q arbitrary: ep ep' q' xfr)
  case Nil
  then show ?case by (simp add: same_ring_def)
next
  case (Cons urbl rest)
  let ?u = "urbl_urb urbl" let ?n = "number_of_packets (urbl_urb urbl)"
  show ?case
  proof (cases "buffered_units ep < ?n")
    case True
    then show ?thesis using Cons.prems by (auto simp: Let_def same_ring_def)
  next
    case False
    from Cons.prems(3) False obtain ep1 u1 ep3 q3 x3 where
      p: "oz_isoc_in_packets (nat ?n) 0 ep (?u\<lparr>actual_length := 0\<rparr>) = Some (ep1, u1)" and
      r: "oz_isoc_in_drain rest
            (ep1\<lparr>buffered_units := s32 (buffered_units ep1 - ?n),
                  start_frame := s32 (start_frame ep1 + ?n),
                  credit := s32 (credit ep1 - ?n),
                  credit2 := s32 (credit2 ep1 + ?n)\<rparr>) = Some (ep3, q3, x3)" and
      e: "ep' = ep3"
      by (auto simp: Let_def split: option.splits prod.splits)
    let ?ep2 = "ep1\<lparr>buffered_units := s32 (buffered_units ep1 - ?n),
                  start_frame := s32 (start_frame ep1 + ?n),
                  credit := s32 (credit ep1 - ?n),
                  credit2 := s32 (credit2 ep1 + ?n)\<rparr>"
    note a = oz_isoc_in_packets_ok[OF Cons.prems(1,2) p]
    have ok2: "ep_buffer_ok ?ep2" using a by (simp add: ep_buffer_ok_def)
    have sz2: "255 < buffer_size ?ep2" using a Cons.prems(2) by (simp add: same_ring_def)
    from Cons.IH[OF ok2 sz2 r] a e show ?thesis by (simp add: same_ring_def)
  qed
qed

lemma oz_discard_units_ok:
  "ep_buffer_ok ep \<Longrightarrow> 255 < buffer_size ep \<Longrightarrow>
   \<exists>ep'. oz_discard_units ep = Some ep' \<and> ep_buffer_ok ep' \<and> same_ring ep' ep \<and>
         buffered_units ep' = min (buffered_units ep) (uint (max_buffer_units ep))"
proof (induction ep rule: oz_discard_units.induct)
  case (1 ep)
  show ?case
  proof (cases "buffered_units ep > uint (max_buffer_units ep)")
    case False
    then show ?thesis using "1.prems"
      by (subst oz_discard_units.simps) (simp add: same_ring_def)
  next
    case True
    obtain d where d: "load8 (buffer ep) (out_ix ep) = Some d"
      using "1.prems"(1) by (auto simp: load8_def ep_buffer_ok_def)
    let ?ep = "ep\<lparr>out_ix := ring_after_unit ep (uint d), buffered_units := buffered_units ep - 1\<rparr>"
    have ok: "ep_buffer_ok ?ep"
      using ring_after_unit_range[OF "1.prems"(1) _ _ "1.prems"(2), of "uint d"]
        uint_byte_range[of d] "1.prems"(1) by (simp add: ep_buffer_ok_def)
    have sz: "255 < buffer_size ?ep" using "1.prems"(2) by simp
    from "1.IH"[OF True d ok sz] obtain ep' where
      r: "oz_discard_units ?ep = Some ep'" "ep_buffer_ok ep'" "same_ring ep' ?ep"
         "buffered_units ep' = min (buffered_units ?ep) (uint (max_buffer_units ?ep))"
      by blast
    have "oz_discard_units ep = Some ep'"
      using True d r(1) by (subst oz_discard_units.simps) simp
    then show ?thesis using r True by (auto simp: same_ring_def)
  qed
qed


subsection \<open>The buffering flag of an IN isochronous endpoint\<close>




















subsection \<open>The cursors stay inside the buffer\<close>

lemma ep_buffer_ok_cursors:
  assumes "ep_buffer_ok ep" and "length b = length (buffer ep)"
    and "0 \<le> i" "i < buffer_size ep" and "0 \<le> x" "x < buffer_size ep"
  shows "ep_buffer_ok (ep\<lparr>buffer := b, in_ix := i, out_ix := x\<rparr>)"
proof -
  have "b \<noteq> []" using assms(1,2) by (auto simp: ep_buffer_ok_def)
  then show ?thesis using assms by (simp add: ep_buffer_ok_def)
qed

lemma oz_hcd_buffer_data_ok:
  assumes ok: "ep_buffer_ok ep" and dl: "0 \<le> data_len" "data_len \<le> int (length data)"
    and mx: "data_len < 2147483647"
  shows "\<exists>rc ep'. oz_hcd_buffer_data ep data data_len = Some (rc, ep') \<and>
           ep_buffer_ok ep' \<and> buffer_size ep' = buffer_size ep \<and> out_ix ep' = out_ix ep \<and>
           max_buffer_units ep' = max_buffer_units ep"
proof (cases "ring_space ep < data_len + 1")
  case True
  from oz_hcd_buffer_data_full[OF ok True dl(1) mx, of data] ok show ?thesis by simp
next
  case False
  let ?b = "ring_put (buffer ep) (nat (in_ix ep)) (word_of_int data_len # take (nat data_len) data)"
  let ?i = "(in_ix ep + 1 + data_len) mod buffer_size ep"
  have pos: "0 < buffer_size ep" using ok by (auto simp: ep_buffer_ok_def)
  have "ep_buffer_ok (ep\<lparr>buffer := ?b, in_ix := ?i, out_ix := out_ix ep\<rparr>)"
    using ok pos by (intro ep_buffer_ok_cursors) (auto simp: ep_buffer_ok_def)
  then have "ep_buffer_ok (ep\<lparr>buffer := ?b, in_ix := ?i,
                               buffered_units := buffered_units ep + 1\<rparr>)"
    by (simp add: ep_buffer_ok_def)
  then show ?thesis using oz_hcd_buffer_data_stored[OF ok False dl mx] by simp
qed

lemma oz_buffered_unit_to_urb_ok:
  assumes ok: "ep_buffer_ok ep" and sz: "255 < buffer_size ep"
    and tb: "transfer_buffer_length u \<le> length (transfer_buffer u)"
  shows "\<exists>ep' u'. oz_buffered_unit_to_urb ep u = Some (ep', u') \<and>
           ep_buffer_ok ep' \<and> buffer_size ep' = buffer_size ep \<and> in_ix ep' = in_ix ep"
proof -
  define A where "A = min (unat (buffer ep ! nat (out_ix ep))) (transfer_buffer_length u)"
  have "unat (buffer ep ! nat (out_ix ep)) \<le> 255"
    using unsigned_less[of "buffer ep ! nat (out_ix ep)", where 'a = nat] by simp
  then have a: "int A \<le> buffer_size ep" "A \<le> length (transfer_buffer u)"
    using sz tb by (auto simp: A_def)
  let ?x = "(out_ix ep + 1 + int A) mod buffer_size ep"
  have pos: "0 < buffer_size ep" using sz by simp
  have "ep_buffer_ok (ep\<lparr>out_ix := ?x\<rparr>)"
    using ok pos by (intro ep_buffer_ok_out_ix) auto
  then have "ep_buffer_ok (ep\<lparr>out_ix := ?x, buffered_units := buffered_units ep - 1\<rparr>)"
    by (simp add: ep_buffer_ok_def)
  then show ?thesis using oz_buffered_unit_to_urb_read[OF ok A_def a] by simp
qed

lemma oz_complete_buffered_urb_ok:
  assumes ok: "ep_buffer_ok ep" and sz: "255 < buffer_size ep"
    and tb: "transfer_buffer_length u \<le> length (transfer_buffer u)"
  shows "\<exists>h' ep'. oz_complete_buffered_urb h ep u = Some (h', ep') \<and>
           ep_buffer_ok ep' \<and> buffer_size ep' = buffer_size ep"
proof -
  from oz_buffered_unit_to_urb_ok[OF assms] obtain ep' u' where
    "oz_buffered_unit_to_urb ep u = Some (ep', u')" "ep_buffer_ok ep'"
    "buffer_size ep' = buffer_size ep" by blast
  then show ?thesis by (simp add: oz_complete_buffered_urb_def)
qed

lemma oz_hcd_heartbeat_isoc_in_ok:
  assumes ok: "ep_buffer_ok ep" and sz: "255 < buffer_size ep"
    and hb: "oz_hcd_heartbeat_isoc_in ts ep = Some (ep', xfr)"
  shows "ep_buffer_ok ep' \<and> buffer_size ep' = buffer_size ep"
proof (cases "ep_flags ep AND OZ_F_EP_BUFFERING \<noteq> 0")
  case True
  then have "ep' = ep \<or> ep' = ep\<lparr>ep_flags := ep_flags ep AND NOT OZ_F_EP_BUFFERING,
                        credit := 0, credit2 := 0, timestamp := ts, start_frame := 0\<rparr>"
    using hb by (auto simp: oz_hcd_heartbeat_isoc_in_def split: if_splits)
  then show ?thesis using ok by (auto simp: ep_buffer_ok_def)
next
  case False
  let ?ep1 = "ep\<lparr>credit := credit_add (credit ep) (elapsed_ms ts 5000 ep), timestamp := ts\<rparr>"
  from hb False obtain ep2 q x where
    d: "oz_isoc_in_drain (urb_list ?ep1) ?ep1 = Some (ep2, q, x)"
    by (auto simp: oz_hcd_heartbeat_isoc_in_def Let_def split: option.splits)
  have ok1: "ep_buffer_ok ?ep1" using ok by (simp add: ep_buffer_ok_def)
  have sz1: "255 < buffer_size ?ep1" using sz by simp
  note a = oz_isoc_in_drain_ok[OF ok1 sz1 d]
  have "ep' = ep2\<lparr>urb_list := q, ep_flags := ep_flags ep2 OR OZ_F_EP_BUFFERING\<rparr> \<or>
        ep' = ep2\<lparr>urb_list := q, credit2 := 0\<rparr> \<or> ep' = ep2\<lparr>urb_list := q\<rparr>"
    using hb False d by (auto simp: oz_hcd_heartbeat_isoc_in_def Let_def split: if_splits)
  then show ?thesis using a by (auto simp: ep_buffer_ok_def same_ring_def)
qed

lemma oz_hcd_data_ind_ep_ok:
  assumes ok: "ep_buffer_ok ep" and sz: "255 < buffer_size ep"
    and dl: "0 \<le> data_len" "data_len \<le> int (length data)"
    and mx: "data_len < 2147483647"
    and di: "oz_hcd_data_ind_ep h ep data data_len = Some (h', ep')"
  shows "ep_buffer_ok ep' \<and> buffer_size ep' = buffer_size ep"
proof -
  let ?ty = "attrib ep AND USB_ENDPOINT_XFERTYPE_MASK"
  from oz_hcd_buffer_data_ok[OF ok dl mx] obtain rc ep1 where
    w: "oz_hcd_buffer_data ep data data_len = Some (rc, ep1)" and
    ok1: "ep_buffer_ok ep1" and sz1: "buffer_size ep1 = buffer_size ep" by blast
  consider (intr) "?ty = USB_ENDPOINT_XFER_INT \<or> ?ty = USB_ENDPOINT_XFER_BULK"
    | (isoc) "?ty \<noteq> USB_ENDPOINT_XFER_INT" "?ty \<noteq> USB_ENDPOINT_XFER_BULK"
        "?ty = USB_ENDPOINT_XFER_ISOC"
    | (other) "?ty \<noteq> USB_ENDPOINT_XFER_INT" "?ty \<noteq> USB_ENDPOINT_XFER_BULK"
        "?ty \<noteq> USB_ENDPOINT_XFER_ISOC"
    by blast
  then show ?thesis
  proof cases
    case intr
    show ?thesis
    proof (cases "urb_list ep")
      case Nil
      then have "ep' = ep1" using di intr w by (auto simp: oz_hcd_data_ind_ep_def Let_def)
      then show ?thesis using ok1 sz1 by simp
    next
      case (Cons urbl rest)
      then have "ep' = ep\<lparr>urb_list := rest\<rparr>" using di intr
        by (auto simp: oz_hcd_data_ind_ep_def Let_def split: option.splits)
      then show ?thesis using ok by (simp add: ep_buffer_ok_def)
    qed
  next
    case isoc
    show ?thesis
    proof (cases "rc = 0")
      case True
      then have "ep' = ep1" using di isoc w by (simp add: oz_hcd_data_ind_ep_def Let_def)
      then show ?thesis using ok1 sz1 by simp
    next
      case False
      from oz_discard_units_ok[OF ok1] sz sz1 obtain ep2 where
        ds: "oz_discard_units ep1 = Some ep2" and ok2: "ep_buffer_ok ep2"
        and s2: "same_ring ep2 ep1" by auto
      have "ep' = ep2\<lparr>ep_flags := ep_flags ep2 OR OZ_F_EP_BUFFERING\<rparr>"
        using di isoc w False ds by (simp add: oz_hcd_data_ind_ep_def Let_def)
      then show ?thesis using ok2 s2 sz1 by (simp add: ep_buffer_ok_def same_ring_def)
    qed
  next
    case other
    then have "ep' = ep" using di by (simp add: oz_hcd_data_ind_ep_def Let_def)
    then show ?thesis using ok by simp
  qed
qed


lemma memcpy_total:
  assumes "0 \<le> doff" "0 \<le> soff" "0 \<le> n" "soff + n \<le> int (length src)"
    "doff + n \<le> int (length dst)"
  shows "\<exists>b. memcpy dst doff src soff n = Some b \<and> length b = length dst"
  using assms unfolding memcpy_def mem_read_def mem_write_def by auto

lemma oz_isoc_in_packets_total:
  "ep_buffer_ok ep \<Longrightarrow> 255 < buffer_size ep \<Longrightarrow> 255 \<le> length (transfer_buffer u) \<Longrightarrow>
   \<exists>ep' u'. oz_isoc_in_packets k i ep u = Some (ep', u')"
proof (induction k arbitrary: i ep u)
  case 0
  then show ?case by simp
next
  case (Suc k)
  define d where "d = buffer ep ! nat (out_ix ep)"
  let ?len = "uint d"
  let ?so = "ring_after_length ep"
  let ?c = "ring_first_copy ep ?len"
  have n: "int (length (buffer ep)) = buffer_size ep" and
    o: "0 \<le> out_ix ep" "out_ix ep < buffer_size ep"
    using Suc.prems(1) by (auto simp: ep_buffer_ok_def)
  have d: "load8 (buffer ep) (out_ix ep) = Some d"
    using n o by (simp add: load8_def d_def)
  have len: "0 \<le> ?len" "?len \<le> 255" using uint_byte_range[of d] by auto
  have so: "0 \<le> ?so" "?so < buffer_size ep" using o by (auto simp: ring_after_length_def)
  have c: "0 \<le> ?c" "?c \<le> ?len" "?so + ?c \<le> buffer_size ep"
    using so len by (auto simp: ring_first_copy_def Let_def)
  from memcpy_total[of 0 ?so ?c "buffer ep" "transfer_buffer u"] c so len n Suc.prems(3)
  obtain tb1 where
    m1: "memcpy (transfer_buffer u) 0 (buffer ep) ?so ?c = Some tb1" and
    l1: "length tb1 = length (transfer_buffer u)" by auto
  have "\<exists>tb2. (if ?c < ?len then memcpy tb1 ?c (buffer ep) 0 (?len - ?c) else Some tb1) = Some tb2
          \<and> length tb2 = length tb1"
  proof (cases "?c < ?len")
    case True
    from memcpy_total[of ?c 0 "?len - ?c" "buffer ep" tb1] c len n l1 Suc.prems(2,3) True
    show ?thesis by auto
  next
    case False
    then show ?thesis by simp
  qed
  then obtain tb2 where
    m2: "(if ?c < ?len then memcpy tb1 ?c (buffer ep) 0 (?len - ?c) else Some tb1) = Some tb2" and
    l2: "length tb2 = length tb1" by blast
  let ?ep = "ep\<lparr>out_ix := ring_after_unit ep ?len\<rparr>"
  let ?u = "u\<lparr>transfer_buffer := tb2,
             iso_frame_desc := (iso_frame_desc u)
               [i := \<lparr>iso_offset = actual_length u, iso_actual_length = nat ?len,
                      iso_status = 0\<rparr>],
             actual_length := (actual_length u + nat ?len) mod 2 ^ 32\<rparr>"
  have ok: "ep_buffer_ok ?ep"
    using ring_after_unit_range[OF Suc.prems(1) len Suc.prems(2)] Suc.prems(1)
    by (intro ep_buffer_ok_out_ix) auto
  have sz: "255 < buffer_size ?ep" using Suc.prems(2) by simp
  have tb: "255 \<le> length (transfer_buffer ?u)" using l1 l2 Suc.prems(3) by simp
  from Suc.IH[OF ok sz tb, of "Suc i"] obtain ep' u' where
    r: "oz_isoc_in_packets k (Suc i) ?ep ?u = Some (ep', u')" by blast
  have "oz_isoc_in_packets (Suc k) i ep u = Some (ep', u')"
    unfolding oz_isoc_in_packets.simps
    by (simp only: d option.case Let_def m1 m2 r)
  then show ?case by blast
qed

lemma oz_isoc_in_drain_total:
  "ep_buffer_ok ep \<Longrightarrow> 255 < buffer_size ep \<Longrightarrow>
   \<forall>urbl \<in> set q. 255 \<le> length (transfer_buffer (urbl_urb urbl)) \<Longrightarrow>
   \<exists>ep' q' xfr. oz_isoc_in_drain q ep = Some (ep', q', xfr)"
proof (induction q arbitrary: ep)
  case Nil
  then show ?case by simp
next
  case (Cons urbl rest)
  let ?u = "urbl_urb urbl" let ?n = "number_of_packets (urbl_urb urbl)"
  show ?case
  proof (cases "buffered_units ep < ?n")
    case True
    then show ?thesis by (simp add: Let_def)
  next
    case False
    have "255 \<le> length (transfer_buffer (?u\<lparr>actual_length := 0\<rparr>))" using Cons.prems(3) by simp
    from oz_isoc_in_packets_total[OF Cons.prems(1,2) this, of "nat ?n" 0] obtain ep1 u1 where
      p: "oz_isoc_in_packets (nat ?n) 0 ep (?u\<lparr>actual_length := 0\<rparr>) = Some (ep1, u1)" by blast
    let ?ep2 = "ep1\<lparr>buffered_units := s32 (buffered_units ep1 - ?n),
                  start_frame := s32 (start_frame ep1 + ?n),
                  credit := s32 (credit ep1 - ?n),
                  credit2 := s32 (credit2 ep1 + ?n)\<rparr>"
    note a = oz_isoc_in_packets_ok[OF Cons.prems(1,2) p]
    have ok2: "ep_buffer_ok ?ep2" using a by (simp add: ep_buffer_ok_def)
    have sz2: "255 < buffer_size ?ep2" using a Cons.prems(2) by (simp add: same_ring_def)
    have "\<forall>urbl \<in> set rest. 255 \<le> length (transfer_buffer (urbl_urb urbl))"
      using Cons.prems(3) by simp
    from Cons.IH[OF ok2 sz2 this] obtain ep3 q3 x3 where
      r: "oz_isoc_in_drain rest ?ep2 = Some (ep3, q3, x3)" by blast
    show ?thesis using False p r by (simp add: Let_def)
  qed
qed

lemma oz_hcd_heartbeat_isoc_in_total:
  assumes ok: "ep_buffer_ok ep" and sz: "255 < buffer_size ep"
    and tb: "\<forall>urbl \<in> set (urb_list ep). 255 \<le> length (transfer_buffer (urbl_urb urbl))"
  shows "\<exists>ep' xfr. oz_hcd_heartbeat_isoc_in ts ep = Some (ep', xfr)"
proof -
  let ?ep1 = "ep\<lparr>credit := credit_add (credit ep) (elapsed_ms ts 5000 ep), timestamp := ts\<rparr>"
  have ok1: "ep_buffer_ok ?ep1" using ok by (simp add: ep_buffer_ok_def)
  have sz1: "255 < buffer_size ?ep1" using sz by simp
  from oz_isoc_in_drain_total[OF ok1 sz1, of "urb_list ?ep1"] tb obtain ep2 q x where
    "oz_isoc_in_drain (urb_list ?ep1) ?ep1 = Some (ep2, q, x)" by auto
  then show ?thesis by (simp add: oz_hcd_heartbeat_isoc_in_def Let_def)
qed


lemma example_full_ok: "ep_buffer_ok ep_isoc_in_full \<and> 255 < buffer_size ep_isoc_in_full"
  by (simp add: ep_buffer_ok_def ep_isoc_in_full_def oz_ep_alloc_def OZ_EP_BUFFER_SIZE_ISOC_def
      length_concat sum_list_replicate)

text \<open>
  Take an endpoint with an allocated buffer and both cursors inside it; the buffer has more
  than 255 bytes, as the two sizes that \<^verbatim>\<open>oz_build_endpoints_for_interface\<close> allocates
  (512 and 24576) have. Then every ring operation returns with both cursors inside the
  buffer again and the size unchanged: writing a unit of \<open>data_len\<close> bytes that \<open>data\<close>
  addresses (\<^verbatim>\<open>oz_hcd_buffer_data\<close>), for \<open>data_len\<close> below the largest \<^verbatim>\<open>int\<close>, and
  with it the whole of \<^verbatim>\<open>oz_hcd_data_ind\<close> for the endpoint; draining a unit into a URB
  whose transfer buffer has the length announced (\<^verbatim>\<open>oz_complete_buffered_urb\<close>); the
  heartbeat for an IN isochronous endpoint, which returns whenever every queued URB has
  255 bytes of transfer buffer; and the discard loop.
\<close>

lemma ring_cursors_stay_inside:
  assumes "ep_buffer_ok ep" and "255 < buffer_size ep"
  shows
    "(0 \<le> data_len \<and> data_len \<le> int (length data) \<and> data_len < 2147483647 \<longrightarrow>
        (\<exists>rc ep'. oz_hcd_buffer_data ep data data_len = Some (rc, ep') \<and>
                  ep_buffer_ok ep' \<and> buffer_size ep' = buffer_size ep) \<and>
        (oz_hcd_data_ind_ep h ep data data_len = Some (h1, ep1) \<longrightarrow>
           ep_buffer_ok ep1 \<and> buffer_size ep1 = buffer_size ep)) \<and>
     (transfer_buffer_length u \<le> length (transfer_buffer u) \<longrightarrow>
        (\<exists>h' ep'. oz_complete_buffered_urb h ep u = Some (h', ep') \<and>
                  ep_buffer_ok ep' \<and> buffer_size ep' = buffer_size ep)) \<and>
     (oz_hcd_heartbeat_isoc_in ts ep = Some (ep2, xfr) \<longrightarrow>
        ep_buffer_ok ep2 \<and> buffer_size ep2 = buffer_size ep) \<and>
     ((\<forall>urbl \<in> set (urb_list ep). 255 \<le> length (transfer_buffer (urbl_urb urbl))) \<longrightarrow>
        (\<exists>ep' xfr'. oz_hcd_heartbeat_isoc_in ts ep = Some (ep', xfr'))) \<and>
     (\<exists>ep'. oz_discard_units ep = Some ep' \<and> ep_buffer_ok ep' \<and>
            buffer_size ep' = buffer_size ep)"
proof -
  have w: "0 \<le> data_len \<and> data_len \<le> int (length data) \<and> data_len < 2147483647 \<longrightarrow>
        (\<exists>rc ep'. oz_hcd_buffer_data ep data data_len = Some (rc, ep') \<and>
                  ep_buffer_ok ep' \<and> buffer_size ep' = buffer_size ep) \<and>
        (oz_hcd_data_ind_ep h ep data data_len = Some (h1, ep1) \<longrightarrow>
           ep_buffer_ok ep1 \<and> buffer_size ep1 = buffer_size ep)"
    using oz_hcd_buffer_data_ok[OF assms(1), of data_len data]
      oz_hcd_data_ind_ep_ok[OF assms, of data_len data h h1 ep1] by blast
  have r: "transfer_buffer_length u \<le> length (transfer_buffer u) \<longrightarrow>
        (\<exists>h' ep'. oz_complete_buffered_urb h ep u = Some (h', ep') \<and>
                  ep_buffer_ok ep' \<and> buffer_size ep' = buffer_size ep)"
    using oz_complete_buffered_urb_ok[OF assms, of u h] by blast
  have hb: "oz_hcd_heartbeat_isoc_in ts ep = Some (ep2, xfr) \<longrightarrow>
        ep_buffer_ok ep2 \<and> buffer_size ep2 = buffer_size ep"
    using oz_hcd_heartbeat_isoc_in_ok[OF assms, of ts ep2 xfr] by blast
  have ht: "(\<forall>urbl \<in> set (urb_list ep). 255 \<le> length (transfer_buffer (urbl_urb urbl))) \<longrightarrow>
        (\<exists>ep' xfr'. oz_hcd_heartbeat_isoc_in ts ep = Some (ep', xfr'))"
    using oz_hcd_heartbeat_isoc_in_total[OF assms, of ts] by blast
  have d: "\<exists>ep'. oz_discard_units ep = Some ep' \<and> ep_buffer_ok ep' \<and>
            buffer_size ep' = buffer_size ep"
    using oz_discard_units_ok[OF assms] by (auto simp: same_ring_def)
  from w r hb ht d show ?thesis by (intro conjI)
qed


end
